(* ===== verification/Prelude.thy ===== *)
theory Prelude
  imports Main "HOL-Library.AList" "HOL-Library.Multiset" "HOL-Library.Sublist"
    "HOL-Library.Char_ord" "HOL-Library.List_Lexorder"
begin

text \<open>
  The part of Go and of its standard library that every component of the development
  uses: signed 64-bit arithmetic with its wrap-around, the byte-string operations of the
  package strings, maps as association lists with distinct keys, error values, and the
  comparison functions that the package slices sorts by.

  Strings are byte strings (\<^typ>\<open>string\<close>), ordered bytewise as Go orders them. The
  operations that Go defines on Unicode text (lower-casing, trimming space) are given on
  the ASCII bytes, which is the alphabet the manifest contract admits in a host, a
  quantity and a duration; every other byte is left as it is.
\<close>

section \<open>Collections of facts\<close>

named_theorems go_int \<open>bounds and wrap-around of 64-bit integers\<close>
named_theorems go_str \<open>byte-string operations\<close>
named_theorems go_map \<open>maps as association lists\<close>

section \<open>Signed 64-bit integers\<close>

definition MaxInt64 :: int where
  "MaxInt64 = 9223372036854775807"

definition MinInt64 :: int where
  "MinInt64 = -9223372036854775808"

definition wrap64 :: "int \<Rightarrow> int" where
  "wrap64 x = (x + 9223372036854775808) mod 18446744073709551616 - 9223372036854775808"

abbreviation is_int64 :: "int \<Rightarrow> bool" where
  "is_int64 x \<equiv> MinInt64 \<le> x \<and> x \<le> MaxInt64"

lemma wrap64_range [go_int]: "is_int64 (wrap64 x)"
  unfolding wrap64_def MinInt64_def MaxInt64_def
  using pos_mod_sign [of "18446744073709551616::int" "x + 9223372036854775808"]
    pos_mod_bound [of "18446744073709551616::int" "x + 9223372036854775808"] by simp

lemma wrap64_id [go_int]: "is_int64 x \<Longrightarrow> wrap64 x = x"
  unfolding wrap64_def MinInt64_def MaxInt64_def by simp

lemma wrap64_0 [simp]: "wrap64 0 = 0"
  by (simp add: wrap64_def)

lemma wrap64_add_left [go_int]: "wrap64 (wrap64 a + b) = wrap64 (a + b)"
proof -
  have "(a + 9223372036854775808) mod 18446744073709551616 + b
      = (a + 9223372036854775808) mod 18446744073709551616 - 9223372036854775808 + b + 9223372036854775808"
    by simp
  then have "wrap64 (wrap64 a + b)
      = ((a + 9223372036854775808) mod 18446744073709551616 + b) mod 18446744073709551616 - 9223372036854775808"
    by (simp add: wrap64_def)
  also have "\<dots> = (a + 9223372036854775808 + b) mod 18446744073709551616 - 9223372036854775808"
    by (simp only: mod_add_left_eq)
  also have "\<dots> = wrap64 (a + b)"
    by (simp add: wrap64_def algebra_simps)
  finally show ?thesis .
qed

lemma wrap64_add_right [go_int]: "wrap64 (a + wrap64 b) = wrap64 (a + b)"
  using wrap64_add_left [of b a] by (simp add: add.commute)

text \<open>Go's integer division truncates towards zero and its remainder has the dividend's sign.\<close>

definition go_quot :: "int \<Rightarrow> int \<Rightarrow> int" where
  "go_quot a b = sgn a * sgn b * (\<bar>a\<bar> div \<bar>b\<bar>)"

definition go_rem :: "int \<Rightarrow> int \<Rightarrow> int" where
  "go_rem a b = a - b * go_quot a b"

lemma go_quot_nonneg [go_int]: "0 \<le> a \<Longrightarrow> 0 < b \<Longrightarrow> go_quot a b = a div b"
  by (cases "a = 0") (simp_all add: go_quot_def)

lemma go_rem_nonneg [go_int]: "0 \<le> a \<Longrightarrow> 0 < b \<Longrightarrow> go_rem a b = a mod b"
  by (simp add: go_rem_def go_quot_nonneg minus_mult_div_eq_mod)

section \<open>Instants and spans\<close>

text \<open>An instant is a number of nanoseconds after Go's zero time, so \<^verbatim>\<open>IsZero\<close> is equality
  with 0; a span is a number of nanoseconds.\<close>

type_synonym gotime = int
type_synonym duration = int

definition Nanosecond :: duration where "Nanosecond = 1"
definition Second :: duration where "Second = 1000000000"
definition Minute :: duration where "Minute = 60 * Second"
definition Hour :: duration where "Hour = 60 * Minute"

section \<open>Byte strings\<close>

definition has_prefix :: "string \<Rightarrow> string \<Rightarrow> bool" where
  "has_prefix s p \<longleftrightarrow> take (length p) s = p"

definition has_suffix :: "string \<Rightarrow> string \<Rightarrow> bool" where
  "has_suffix s p \<longleftrightarrow> length p \<le> length s \<and> drop (length s - length p) s = p"

definition trim_suffix :: "string \<Rightarrow> string \<Rightarrow> string" where
  "trim_suffix s p = (if has_suffix s p then take (length s - length p) s else s)"

definition cut_prefix :: "string \<Rightarrow> string \<Rightarrow> string option" where
  "cut_prefix s p = (if has_prefix s p then Some (drop (length p) s) else None)"

fun index_byte :: "string \<Rightarrow> char \<Rightarrow> nat option" where
  "index_byte [] c = None"
| "index_byte (x # xs) c = (if x = c then Some 0 else map_option Suc (index_byte xs c))"

definition last_index_byte :: "string \<Rightarrow> char \<Rightarrow> nat option" where
  "last_index_byte s c = map_option (\<lambda>i. length s - 1 - i) (index_byte (rev s) c)"

definition is_space :: "char \<Rightarrow> bool" where
  "is_space c \<longleftrightarrow> c \<in> {CHR 0x09, CHR 0x0A, CHR 0x0B, CHR 0x0C, CHR 0x0D, CHR 0x20}"

definition trim_space :: "string \<Rightarrow> string" where
  "trim_space s = rev (dropWhile is_space (rev (dropWhile is_space s)))"

definition lower_char :: "char \<Rightarrow> char" where
  "lower_char c = (if CHR ''A'' \<le> c \<and> c \<le> CHR ''Z'' then char_of (of_char c + (32::nat)) else c)"

definition to_lower :: "string \<Rightarrow> string" where
  "to_lower s = map lower_char s"

lemma has_prefix_iff [go_str]: "has_prefix s p \<longleftrightarrow> prefix p s"
  unfolding has_prefix_def prefix_def by (metis append_eq_conv_conj append_take_drop_id)

lemma has_suffix_iff [go_str]: "has_suffix s p \<longleftrightarrow> suffix p s"
proof
  assume "has_suffix s p"
  then show "suffix p s"
    unfolding has_suffix_def suffix_def by (metis append_take_drop_id)
next
  assume "suffix p s"
  then show "has_suffix s p"
    unfolding has_suffix_def suffix_def by auto
qed

lemma index_byte_Some: "index_byte s c = Some i \<Longrightarrow> i < length s \<and> s ! i = c"
  by (induction s arbitrary: i) (auto split: if_splits)

lemma index_byte_None: "index_byte s c = None \<longleftrightarrow> c \<notin> set s"
  by (induction s) auto

section \<open>Decimal digits\<close>

definition is_digit :: "char \<Rightarrow> bool" where
  "is_digit c \<longleftrightarrow> CHR ''0'' \<le> c \<and> c \<le> CHR ''9''"

definition digit_val :: "char \<Rightarrow> int" where
  "digit_val c = int (of_char c) - 48"

definition digit_char :: "nat \<Rightarrow> char" where
  "digit_char d = char_of (48 + d)"

text \<open>The value of a string of digits, most significant first.\<close>

definition dec_value :: "string \<Rightarrow> int" where
  "dec_value s = foldl (\<lambda>v c. 10 * v + digit_val c) 0 s"

text \<open>\<^verbatim>\<open>strconv.FormatInt(n, 10)\<close> for a number that is not negative.\<close>

fun format_nat :: "nat \<Rightarrow> string" where
  "format_nat n = (if n < 10 then [digit_char n] else format_nat (n div 10) @ [digit_char (n mod 10)])"

declare format_nat.simps [simp del]

definition format_int :: "int \<Rightarrow> string" where
  "format_int n = (if n < 0 then CHR ''-'' # format_nat (nat (- n)) else format_nat (nat n))"

lemma dec_value_snoc [go_str]: "dec_value (s @ [c]) = 10 * dec_value s + digit_val c"
  by (simp add: dec_value_def)

lemma dec_value_Nil [simp]: "dec_value [] = 0"
  by (simp add: dec_value_def)

lemma digit_char_props [go_str]:
  assumes "d < 10" shows "is_digit (digit_char d)" and "digit_val (digit_char d) = int d"
proof -
  have "of_char (digit_char d) = 48 + d"
    using assms by (simp add: digit_char_def)
  then show "is_digit (digit_char d)" and "digit_val (digit_char d) = int d"
    using assms by (simp_all add: is_digit_def digit_val_def less_eq_char_def)
qed

lemma format_nat_digits [go_str]: "list_all is_digit (format_nat n)"
proof (induction n rule: format_nat.induct)
  case (1 n)
  then show ?case
    by (cases "n < 10") (auto simp: format_nat.simps [of n] digit_char_props)
qed

lemma format_nat_nonempty [simp]: "format_nat n \<noteq> []"
  by (subst format_nat.simps) simp

lemma dec_value_format_nat [go_str]: "dec_value (format_nat n) = int n"
proof (induction n rule: format_nat.induct)
  case (1 n)
  show ?case
  proof (cases "n < 10")
    case True
    then show ?thesis
      by (simp add: format_nat.simps [of n] dec_value_def digit_char_props)
  next
    case False
    with 1 show ?thesis
      by (simp add: format_nat.simps [of n] dec_value_snoc digit_char_props zdiv_int zmod_int)
  qed
qed

lemma digit_val_bounds: "is_digit c \<Longrightarrow> 0 \<le> digit_val c \<and> digit_val c \<le> 9"
  by (auto simp: is_digit_def digit_val_def less_eq_char_def)

lemma dec_value_nonneg [go_str]: "list_all is_digit s \<Longrightarrow> 0 \<le> dec_value s"
proof (induction s rule: rev_induct)
  case (snoc c s)
  then show ?case using digit_val_bounds [of c] by (simp add: dec_value_snoc)
qed simp

section \<open>Errors\<close>

text \<open>A function that returns an error is None where it returns nil, and one that returns a value
  and an error is a sum with the error on the left. A handler that returns the first error of
  several checks is \<open>first_err\<close>; a loop whose body may return an error is \<open>check_each\<close>, or
  \<open>check_indexed\<close> where the body reads the index.\<close>

named_theorems go_err \<open>error values and the order in which checks are made\<close>

definition rbind :: "'e + 'a \<Rightarrow> ('a \<Rightarrow> 'e + 'b) \<Rightarrow> 'e + 'b" where
  "rbind m f = (case m of Inl e \<Rightarrow> Inl e | Inr x \<Rightarrow> f x)"

definition guard_err :: "'e option \<Rightarrow> 'e + 'b \<Rightarrow> 'e + 'b" where
  "guard_err e k = (case e of Some x \<Rightarrow> Inl x | None \<Rightarrow> k)"

fun first_err :: "'e option list \<Rightarrow> 'e option" where
  "first_err [] = None"
| "first_err (e # es) = (case e of Some x \<Rightarrow> Some x | None \<Rightarrow> first_err es)"

fun check_each :: "('a \<Rightarrow> 'e option) \<Rightarrow> 'a list \<Rightarrow> 'e option" where
  "check_each f [] = None"
| "check_each f (x # xs) = (case f x of Some e \<Rightarrow> Some e | None \<Rightarrow> check_each f xs)"

fun check_indexed :: "(nat \<Rightarrow> 'a \<Rightarrow> 'e option) \<Rightarrow> nat \<Rightarrow> 'a list \<Rightarrow> 'e option" where
  "check_indexed f i [] = None"
| "check_indexed f i (x # xs) = (case f i x of Some e \<Rightarrow> Some e | None \<Rightarrow> check_indexed f (Suc i) xs)"

lemma rbind_Inr [go_err]: "rbind m f = Inr y \<longleftrightarrow> (\<exists>x. m = Inr x \<and> f x = Inr y)"
  by (cases m) (simp_all add: rbind_def)

lemma rbind_simps [simp]: "rbind (Inl e) f = Inl e" "rbind (Inr x) f = f x"
  by (simp_all add: rbind_def)

lemma guard_err_Inr [go_err]: "guard_err e k = Inr y \<longleftrightarrow> e = None \<and> k = Inr y"
  by (cases e) (simp_all add: guard_err_def)

lemma guard_err_simps [simp]: "guard_err None k = k" "guard_err (Some x) k = Inl x"
  by (simp_all add: guard_err_def)

lemma first_err_None [go_err]: "first_err es = None \<longleftrightarrow> (\<forall>e \<in> set es. e = None)"
  by (induction es) (auto split: option.splits)

lemma check_each_None [go_err]: "check_each f xs = None \<longleftrightarrow> (\<forall>x \<in> set xs. f x = None)"
  by (induction xs) (auto split: option.splits)

lemma check_indexed_None [go_err]:
  "check_indexed f i xs = None \<longleftrightarrow> (\<forall>j < length xs. f (i + j) (xs ! j) = None)"
  by (induction xs arbitrary: i) (auto simp: All_less_Suc2 split: option.splits)

declare first_err.simps [simp del]

lemma first_err_steps [simp]:
  "first_err [] = None" "first_err (None # es) = first_err es" "first_err (Some x # es) = Some x"
  by (simp_all add: first_err.simps)

text \<open>The index of the first element that satisfies a test.\<close>

fun find_index :: "('a \<Rightarrow> bool) \<Rightarrow> 'a list \<Rightarrow> nat option" where
  "find_index P [] = None"
| "find_index P (x # xs) = (if P x then Some 0 else map_option Suc (find_index P xs))"

lemma find_index_None [go_err]: "find_index P xs = None \<longleftrightarrow> (\<forall>x \<in> set xs. \<not> P x)"
  by (induction xs) auto

lemma find_index_Some: "find_index P xs = Some i \<Longrightarrow> i < length xs \<and> P (xs ! i)"
  by (induction xs arbitrary: i) (auto split: if_splits)

section \<open>Character classes\<close>

definition is_lower :: "char \<Rightarrow> bool" where
  "is_lower c \<longleftrightarrow> CHR ''a'' \<le> c \<and> c \<le> CHR ''z''"

definition is_upper :: "char \<Rightarrow> bool" where
  "is_upper c \<longleftrightarrow> CHR ''A'' \<le> c \<and> c \<le> CHR ''Z''"

definition upper_char :: "char \<Rightarrow> char" where
  "upper_char c = (if is_lower c then char_of (of_char c - (32::nat)) else c)"

definition to_upper :: "string \<Rightarrow> string" where
  "to_upper s = map upper_char s"

text \<open>\<^verbatim>\<open>strings.Cut\<close> at one byte, and the value a map holds for a key, the zero value where it holds
  none.\<close>

definition cut_byte :: "string \<Rightarrow> char \<Rightarrow> string \<times> string \<times> bool" where
  "cut_byte s c = (case index_byte s c of None \<Rightarrow> (s, [], False) | Some i \<Rightarrow> (take i s, drop (i + 1) s, True))"

definition map_get :: "('k \<times> string) list \<Rightarrow> 'k \<Rightarrow> string" where
  "map_get m k = (case map_of m k of None \<Rightarrow> [] | Some v \<Rightarrow> v)"

end
