(* ===== verification/Ordering.thy ===== *)
theory Ordering
  imports Prelude
begin

text \<open>
  Comparison functions and sorting. A Go comparison function answers a negative number,
  zero or a positive one; \<^verbatim>\<open>slices.SortFunc\<close> returns some permutation in which no
  element is above the one after it, and does not say which where two elements compare
  equal. The model sorts by insertion. The locale \<open>go_order\<close> is the contract of a
  comparison function under which that choice is immaterial: the last comparison is of an
  identity, so a sorted permutation of a list with distinct identities is unique, whatever
  order the elements were read in. Every comparison function of the controller that reads
  a Go map, whose iteration order is random, is an interpretation of it.
\<close>

definition go_compare :: "'a::linorder \<Rightarrow> 'a \<Rightarrow> int" where
  "go_compare a b = (if a < b then -1 else if b < a then 1 else 0)"

fun cmp_or :: "int list \<Rightarrow> int" where
  "cmp_or [] = 0"
| "cmp_or (x # xs) = (if x \<noteq> 0 then x else cmp_or xs)"

fun insert_func :: "('a \<Rightarrow> 'a \<Rightarrow> int) \<Rightarrow> 'a \<Rightarrow> 'a list \<Rightarrow> 'a list" where
  "insert_func cmp x [] = [x]"
| "insert_func cmp x (y # ys) = (if cmp x y \<le> 0 then x # y # ys else y # insert_func cmp x ys)"

definition sort_func :: "('a \<Rightarrow> 'a \<Rightarrow> int) \<Rightarrow> 'a list \<Rightarrow> 'a list" where
  "sort_func cmp xs = foldr (insert_func cmp) xs []"

lemma mset_insert_func [simp]: "mset (insert_func cmp x xs) = add_mset x (mset xs)"
  by (induction xs) auto

lemma mset_sort_func [simp]: "mset (sort_func cmp xs) = mset xs"
  by (induction xs) (auto simp: sort_func_def)

lemma set_sort_func [simp]: "set (sort_func cmp xs) = set xs"
  using mset_sort_func [of cmp xs] by (metis set_mset_mset)

lemma length_sort_func [simp]: "length (sort_func cmp xs) = length xs"
  using mset_sort_func [of cmp xs] by (metis size_mset)

lemma sort_func_Nil_iff [simp]: "sort_func cmp xs = [] \<longleftrightarrow> xs = []"
  by (metis length_0_conv length_sort_func)

lemma sort_func_Nil [simp]: "sort_func cmp [] = []"
  by simp

lemma distinct_map_sort_func [simp]: "distinct (map f (sort_func cmp xs)) \<longleftrightarrow> distinct (map f xs)"
  by (metis mset_map mset_sort_func mset_eq_imp_distinct_iff)

locale go_preorder =
  fixes cmp :: "'a \<Rightarrow> 'a \<Rightarrow> int"
  assumes cmp_swap: "cmp b a \<le> 0 \<longleftrightarrow> 0 \<le> cmp a b"
    and cmp_trans: "cmp a b \<le> 0 \<Longrightarrow> cmp b c \<le> 0 \<Longrightarrow> cmp a c \<le> 0"
begin

lemma cmp_refl [simp]: "cmp a a = 0"
  using cmp_swap [of a a] by linarith

lemma cmp_linear: "cmp a b \<le> 0 \<or> cmp b a \<le> 0"
  using cmp_swap [of b a] by linarith

lemma cmp_zero_swap: "cmp a b = 0 \<longleftrightarrow> cmp b a = 0"
  using cmp_swap [of a b] cmp_swap [of b a] by linarith

lemma cmp_pos_swap: "0 < cmp a b \<longleftrightarrow> cmp b a < 0"
  using cmp_swap [of a b] cmp_swap [of b a] by linarith

lemma sorted_insert_func:
  "sorted_wrt (\<lambda>a b. cmp a b \<le> 0) xs \<Longrightarrow> sorted_wrt (\<lambda>a b. cmp a b \<le> 0) (insert_func cmp x xs)"
proof (induction xs)
  case (Cons y ys)
  show ?case
  proof (cases "cmp x y \<le> 0")
    case True
    with Cons.prems show ?thesis by (auto intro: cmp_trans)
  next
    case False
    have set_ins: "set (insert_func cmp x ys) = insert x (set ys)"
      by (metis mset_insert_func set_mset_add_mset_insert set_mset_mset)
    from False Cons show ?thesis
      using cmp_linear [of x y] by (auto simp: set_ins)
  qed
qed simp

lemma sorted_sort_func: "sorted_wrt (\<lambda>a b. cmp a b \<le> 0) (sort_func cmp xs)"
  by (induction xs) (auto simp: sort_func_def sorted_insert_func)

lemma sort_func_head_least:
  "x \<in> set xs \<Longrightarrow> cmp (hd (sort_func cmp xs)) x \<le> 0"
  using sorted_sort_func [of xs]
  by (cases "sort_func cmp xs") (auto simp flip: set_sort_func [of cmp xs])

end

locale go_order = go_preorder cmp for cmp :: "'a \<Rightarrow> 'a \<Rightarrow> int" +
  fixes key :: "'a \<Rightarrow> 'k"
  assumes cmp_key: "cmp a b = 0 \<Longrightarrow> key a = key b"
begin

lemma sorted_unique:
  assumes "sorted_wrt (\<lambda>a b. cmp a b \<le> 0) xs" and "sorted_wrt (\<lambda>a b. cmp a b \<le> 0) ys"
    and "mset xs = mset ys" and "distinct (map key xs)"
  shows "xs = ys"
  using assms
proof (induction xs arbitrary: ys)
  case (Cons x xs)
  then obtain y ys' where ys: "ys = y # ys'"
    by (cases ys) auto
  have x_in: "x \<in> set ys" and y_in: "y \<in> set (x # xs)"
    using Cons.prems(3) ys by (metis list.set_intros(1) set_mset_mset)+
  have "cmp x y \<le> 0" using Cons.prems(1) y_in by auto
  moreover have "cmp y x \<le> 0" using Cons.prems(2) x_in ys by auto
  ultimately have "cmp x y = 0" using cmp_swap [of y x] by linarith
  then have "key x = key y" by (rule cmp_key)
  with Cons.prems(4) y_in have "y = x" by (auto simp: rev_image_eqI)
  with Cons ys show ?case by auto
qed simp

text \<open>Any sorting algorithm that satisfies \<^verbatim>\<open>slices.SortFunc\<close> returns this list.\<close>

lemma sort_func_unique:
  "sorted_wrt (\<lambda>a b. cmp a b \<le> 0) ys \<Longrightarrow> mset ys = mset xs \<Longrightarrow> distinct (map key xs)
    \<Longrightarrow> ys = sort_func cmp xs"
  using sorted_unique [of "sort_func cmp xs" ys] sorted_sort_func [of xs] by simp

text \<open>The order the elements were read in does not reach the result.\<close>

lemma sort_func_perm:
  "mset xs = mset ys \<Longrightarrow> distinct (map key xs) \<Longrightarrow> sort_func cmp xs = sort_func cmp ys"
  using sorted_unique [of "sort_func cmp xs" "sort_func cmp ys"] sorted_sort_func by simp

end

subsection \<open>Building comparison functions\<close>

lemma go_preorder_compare: "go_preorder (\<lambda>a b. go_compare (f a) (f b))"
  by unfold_locales (auto simp: go_compare_def split: if_splits)

lemma go_preorder_compare_rev: "go_preorder (\<lambda>a b. go_compare (f b) (f a))"
  by unfold_locales (auto simp: go_compare_def split: if_splits)

lemma go_preorder_cmp_or_Nil: "go_preorder (\<lambda>a b. cmp_or [])"
  by unfold_locales auto

lemma go_preorder_cmp_or_Cons:
  assumes "go_preorder c" and "go_preorder (\<lambda>a b. cmp_or (cs a b))"
  shows "go_preorder (\<lambda>a b. cmp_or (c a b # cs a b))"
proof (unfold_locales, goal_cases)
  case (1 b a)
  show ?case
    using go_preorder.cmp_swap [OF assms(1), of b a] go_preorder.cmp_swap [OF assms(1), of a b]
      go_preorder.cmp_swap [OF assms(2), of b a] by auto
next
  case (2 a b d)
  note swap = go_preorder.cmp_swap [OF assms(1)] and trans = go_preorder.cmp_trans [OF assms(1)]
  from 2 have ab: "c a b \<le> 0" and bd: "c b d \<le> 0" by (auto split: if_splits)
  then have ad: "c a d \<le> 0" by (rule trans)
  show ?case
  proof (cases "c a d = 0")
    case True
    then have "c d a \<le> 0" using swap [of d a] by simp
    then have "c b a \<le> 0" and "c d b \<le> 0" using trans [OF bd] trans [OF _ ab] by auto
    then have "c a b = 0" and "c b d = 0" using swap [of b a] swap [of d b] ab bd by auto
    with 2 True show ?thesis using go_preorder.cmp_trans [OF assms(2), of a b d] by simp
  next
    case False
    with ad show ?thesis by simp
  qed
qed

lemmas go_preorder_intros =
  go_preorder_cmp_or_Cons go_preorder_cmp_or_Nil go_preorder_compare go_preorder_compare_rev

lemma go_compare_zero [simp]: "go_compare a b = 0 \<longleftrightarrow> a = b"
  by (auto simp: go_compare_def)

lemma go_compare_le_zero [simp]: "go_compare a b \<le> 0 \<longleftrightarrow> a \<le> b"
  by (auto simp: go_compare_def)

lemma go_compare_neg [simp]: "go_compare a b < 0 \<longleftrightarrow> a < b"
  by (auto simp: go_compare_def)

text \<open>\<^verbatim>\<open>slices.Sort\<close> on strings and the other ordered types of Go.\<close>

definition sort_ordered :: "'a::linorder list \<Rightarrow> 'a list" where
  "sort_ordered xs = sort_func go_compare xs"

interpretation ordered: go_order go_compare "\<lambda>a::'a::linorder. a"
  using go_preorder_compare [of "\<lambda>a. a"] by (simp add: go_order_def go_order_axioms_def)

lemma sort_ordered_sort: "sort_ordered xs = sort xs"
proof (rule properties_for_sort [symmetric])
  show "mset (sort_ordered xs) = mset xs"
    by (simp add: sort_ordered_def)
  show "sorted (sort_ordered xs)"
    using ordered.sorted_sort_func [of xs] by (simp add: sort_ordered_def)
qed

text \<open>\<^verbatim>\<open>slices.Compact\<close>: every run of equal elements becomes one.\<close>

definition compact :: "'a list \<Rightarrow> 'a list" where
  "compact xs = remdups_adj xs"

lemma set_compact [simp]: "set (compact xs) = set xs"
  by (simp add: compact_def)

section \<open>Maps\<close>

text \<open>
  A Go map is an association list with distinct keys; the order of the list stands for the
  order one iteration of the map happens to take.
\<close>

definition map_ok :: "('k \<times> 'v) list \<Rightarrow> bool" where
  "map_ok m \<longleftrightarrow> distinct (map fst m)"

lemma map_ok_update [go_map]: "map_ok m \<Longrightarrow> map_ok (AList.update k v m)"
  unfolding map_ok_def by (rule distinct_update)

lemma map_ok_delete [go_map]: "map_ok m \<Longrightarrow> map_ok (AList.delete k m)"
  unfolding map_ok_def by (rule distinct_delete)

lemma map_ok_Nil [simp, go_map]: "map_ok []"
  by (simp add: map_ok_def)

lemma map_of_update [go_map]: "map_of (AList.update k v m) = (map_of m)(k \<mapsto> v)"
  by (rule ext) (simp add: update_conv)

lemma map_of_delete [go_map]: "map_of (AList.delete k m) = (map_of m)(k := None)"
  by (rule ext) (simp add: delete_conv')

lemma map_of_iff_set: "map_ok m \<Longrightarrow> map_of m k = Some v \<longleftrightarrow> (k, v) \<in> set m"
  unfolding map_ok_def by (rule map_of_eq_Some_iff)

lemma map_ok_perm: "mset m = mset m' \<Longrightarrow> map_ok m \<longleftrightarrow> map_ok m'"
  unfolding map_ok_def by (metis mset_map mset_eq_imp_distinct_iff)

end
