(* ===== verification/Quantity.thy ===== *)
theory Quantity
  imports Ordering Complex_Main
begin

text \<open>
  \<^verbatim>\<open>manifest/quantity.go\<close>: the parser of Kubernetes quantities that every resource
  amount, capacity and ceiling of the control plane goes through, in milli-units. The
  theorems say that an accepted quantity has exactly the value its text denotes and fits
  64 bits, and which texts break the arithmetic of its exponent.
\<close>

section \<open>The parser\<close>

datatype qerr =
    QEmpty
  | QBadBinarySuffix
  | QBadExponent
  | QNoDigits
  | QNoFraction
  | QNotANumber
  | QOutOfRange
  | QTooFine

definition MilliScale :: int where
  "MilliScale = 3"

definition decimalSuffix :: "char \<Rightarrow> int option" where
  "decimalSuffix c = map_of
     [(CHR ''n'', -9), (CHR ''u'', -6), (CHR ''m'', -3), (CHR ''k'', 3), (CHR ''M'', 6),
      (CHR ''G'', 9), (CHR ''T'', 12), (CHR ''P'', 15), (CHR ''E'', 18)] c"

text \<open>\<^verbatim>\<open>strings.IndexByte("KMGTPE", c)\<close>\<close>

definition binarySuffix :: "char \<Rightarrow> nat option" where
  "binarySuffix c = index_byte ''KMGTPE'' c"

text \<open>\<^verbatim>\<open>strings.IndexAny(v, "eE")\<close>\<close>

fun index_exponent :: "string \<Rightarrow> nat option" where
  "index_exponent [] = None"
| "index_exponent (c # cs) =
     (if c = CHR ''e'' \<or> c = CHR ''E'' then Some 0 else map_option Suc (index_exponent cs))"

text \<open>\<^verbatim>\<open>strconv.ParseInt(s, 10, 64)\<close> and \<^verbatim>\<open>strconv.Atoi\<close>: an optional sign, at least one
  digit, nothing else, and a value of 64 bits.\<close>

definition parse_int64 :: "string \<Rightarrow> int option" where
  "parse_int64 s =
     (let (neg, ds) = (case s of
            [] \<Rightarrow> (False, [])
          | c # cs \<Rightarrow> if c = CHR ''+'' then (False, cs) else if c = CHR ''-'' then (True, cs) else (False, s))
      in if ds = [] \<or> \<not> list_all is_digit ds then None
         else let v = (if neg then - dec_value ds else dec_value ds)
              in if is_int64 v then Some v else None)"

text \<open>The text left of the suffix, the suffix's decimal exponent and its binary index.\<close>

definition splitSuffix :: "string \<Rightarrow> qerr + (string \<times> int \<times> nat)" where
  "splitSuffix v =
     (if 2 \<le> length v \<and> last v = CHR ''i''
      then (case binarySuffix (v ! (length v - 2)) of
              None \<Rightarrow> Inl QBadBinarySuffix
            | Some i \<Rightarrow> Inr (take (length v - 2) v, 0, i + 1))
      else (case index_exponent v of
              Some i \<Rightarrow>
                if i < length v - 1
                then (case parse_int64 (drop (i + 1) v) of
                        None \<Rightarrow> Inl QBadExponent
                      | Some e \<Rightarrow> Inr (take i v, e, 0))
                else (case decimalSuffix (last v) of
                        Some e \<Rightarrow> Inr (take (length v - 1) v, e, 0)
                      | None \<Rightarrow> Inr (v, 0, 0))
            | None \<Rightarrow>
                if v = [] then Inl QNoDigits
                else (case decimalSuffix (last v) of
                        Some e \<Rightarrow> Inr (take (length v - 1) v, e, 0)
                      | None \<Rightarrow> Inr (v, 0, 0))))"

text \<open>\<^verbatim>\<open>strings.Cut(v, ".")\<close>\<close>

definition cut_dot :: "string \<Rightarrow> string \<times> string \<times> bool" where
  "cut_dot v = (case index_byte v (CHR ''.'') of
                  None \<Rightarrow> (v, [], False)
                | Some i \<Rightarrow> (take i v, drop (i + 1) v, True))"

definition mantissa :: "string \<Rightarrow> qerr + (string \<times> nat)" where
  "mantissa v =
     (let (whole, frac, dot) = cut_dot v
      in if dot \<and> frac = [] then Inl QNoFraction
         else if whole @ frac = [] then Inl QNoDigits
         else if \<not> list_all is_digit (whole @ frac) then Inl QNotANumber
         else Inr (whole @ frac, length frac))"

definition shiftLeft :: "int \<Rightarrow> nat \<Rightarrow> qerr + int" where
  "shiftLeft v bits =
     (if bits = 0 \<or> v = 0 then Inr v
      else if bits \<ge> 63 \<or> v > MaxInt64 div 2 ^ bits then Inl QOutOfRange
      else Inr (wrap64 (v * 2 ^ bits)))"

fun mulPow10 :: "int \<Rightarrow> nat \<Rightarrow> qerr + int" where
  "mulPow10 v 0 = Inr v"
| "mulPow10 v (Suc n) =
     (if v > go_quot MaxInt64 10 then Inl QOutOfRange else mulPow10 (wrap64 (v * 10)) n)"

fun divPow10 :: "int \<Rightarrow> nat \<Rightarrow> qerr + int" where
  "divPow10 v 0 = Inr v"
| "divPow10 v (Suc n) = (if go_rem v 10 \<noteq> 0 then Inl QTooFine else divPow10 (go_quot v 10) n)"

text \<open>The exponent is a sum of Go ints, so it wraps; a range loop over a negative count runs
  no iteration, which is what \<^const>\<open>nat\<close> of it gives.\<close>

definition scaleMilli :: "int \<Rightarrow> int \<Rightarrow> nat \<Rightarrow> qerr + int" where
  "scaleMilli value dec fraction =
     (let exponent = wrap64 (dec - int fraction + MilliScale)
      in if exponent > 0 then mulPow10 value (nat exponent)
         else if exponent < 0 then divPow10 value (nat (wrap64 (- exponent)))
         else Inr value)"

definition ParseQuantity :: "string \<Rightarrow> qerr + int" where
  "ParseQuantity q =
     (case q of
        [] \<Rightarrow> Inl QEmpty
      | c # cs \<Rightarrow>
          let negative = (c = CHR ''-'');
              s = (if c = CHR ''+'' \<or> c = CHR ''-'' then cs else q)
          in (case splitSuffix s of
                Inl e \<Rightarrow> Inl e
              | Inr (rest, dec, bin) \<Rightarrow>
                  (case mantissa rest of
                     Inl e \<Rightarrow> Inl e
                   | Inr (digits, fraction) \<Rightarrow>
                       (case parse_int64 digits of
                          None \<Rightarrow> Inl QOutOfRange
                        | Some value \<Rightarrow>
                            (case shiftLeft value (10 * bin) of
                               Inl e \<Rightarrow> Inl e
                             | Inr value \<Rightarrow>
                                 (case scaleMilli value dec fraction of
                                    Inl e \<Rightarrow> Inl e
                                  | Inr value \<Rightarrow> Inr (if negative then - value else value)))))))"

section \<open>What a quantity denotes\<close>

text \<open>
  The value of a quantity's text in milli-units as a rational number, read off the same
  four parts the parser splits it into: sign, digits with their fraction, decimal exponent
  and binary index.
\<close>

definition quantity_parts :: "string \<Rightarrow> (bool \<times> string \<times> nat \<times> int \<times> nat) option" where
  "quantity_parts q =
     (case q of
        [] \<Rightarrow> None
      | c # cs \<Rightarrow>
          (case splitSuffix (if c = CHR ''+'' \<or> c = CHR ''-'' then cs else q) of
             Inl e \<Rightarrow> None
           | Inr (rest, dec, bin) \<Rightarrow>
               (case mantissa rest of
                  Inl e \<Rightarrow> None
                | Inr (digits, fraction) \<Rightarrow> Some (c = CHR ''-'', digits, fraction, dec, bin))))"

definition milli_value :: "bool \<times> string \<times> nat \<times> int \<times> nat \<Rightarrow> rat" where
  "milli_value = (\<lambda>(neg, digits, fraction, dec, bin).
     (if neg then -1 else 1) * of_int (dec_value digits) * 1024 ^ bin
       * (10 powi (dec - int fraction + MilliScale)))"

text \<open>The exponent a manifest can mean: its sum with the fraction's digits does not wrap.\<close>

definition exponent_fits :: "bool \<times> string \<times> nat \<times> int \<times> nat \<Rightarrow> bool" where
  "exponent_fits = (\<lambda>(neg, digits, fraction, dec, bin).
     MinInt64 < dec - int fraction + MilliScale \<and> dec - int fraction + MilliScale \<le> MaxInt64)"

section \<open>The arithmetic steps\<close>

lemma MaxInt64_quot_10: "go_quot MaxInt64 10 = 922337203685477580"
  by (simp add: go_quot_def MaxInt64_def)

lemma mulPow10_exact:
  "mulPow10 v n = Inr w \<Longrightarrow> 0 \<le> v \<Longrightarrow> v \<le> MaxInt64 \<Longrightarrow> w = v * 10 ^ n \<and> w \<le> MaxInt64"
proof (induction n arbitrary: v)
  case (Suc n)
  then have le: "v \<le> 922337203685477580" and step: "mulPow10 (wrap64 (v * 10)) n = Inr w"
    by (auto simp: MaxInt64_quot_10 split: if_splits)
  have "wrap64 (v * 10) = v * 10"
    using le Suc.prems(2) by (intro wrap64_id) (simp add: MinInt64_def MaxInt64_def)
  then show ?case using Suc.IH [OF step] le Suc.prems(2) by (simp add: MaxInt64_def)
qed simp

lemma mulPow10_complete:
  "0 \<le> v \<Longrightarrow> v * 10 ^ n \<le> MaxInt64 \<Longrightarrow> mulPow10 v n = Inr (v * 10 ^ n)"
proof (induction n arbitrary: v)
  case (Suc n)
  have one: "v * 10 \<le> v * 10 * 10 ^ n"
    using Suc.prems(1) by (simp add: mult_le_cancel_left1)
  then have le: "v * 10 \<le> MaxInt64"
    using Suc.prems(2) by (simp add: mult.assoc)
  then have "wrap64 (v * 10) = v * 10"
    using Suc.prems(1) by (intro wrap64_id) (simp add: MinInt64_def)
  moreover have "\<not> v > go_quot MaxInt64 10"
    unfolding MaxInt64_quot_10 using le by (simp add: MaxInt64_def)
  ultimately show ?case
    using Suc.IH [of "v * 10"] Suc.prems by (simp add: mult.assoc)
qed simp

lemma divPow10_exact:
  "divPow10 v n = Inr w \<Longrightarrow> 0 \<le> v \<Longrightarrow> v = w * 10 ^ n \<and> 0 \<le> w"
proof (induction n arbitrary: v)
  case (Suc n)
  then have rem: "v mod 10 = 0" and step: "divPow10 (v div 10) n = Inr w"
    by (auto simp: go_rem_nonneg go_quot_nonneg split: if_splits)
  from Suc.IH [OF step] Suc.prems(2) have w: "v div 10 = w * 10 ^ n" "0 \<le> w"
    by auto
  have "v = v div 10 * 10" using rem by arith
  with w show ?case by (simp add: mult.commute mult.left_commute)
qed auto

lemma divPow10_refuses_fraction:
  "divPow10 v n = Inl e \<Longrightarrow> 0 \<le> v \<Longrightarrow> \<not> 10 ^ n dvd v"
proof (induction n arbitrary: v)
  case (Suc n)
  show ?case
  proof (cases "v mod 10 = 0")
    case True
    with Suc have "\<not> 10 ^ n dvd v div 10"
      by (auto simp: go_rem_nonneg go_quot_nonneg split: if_splits)
    with True show ?thesis
      by (metis dvd_imp_mod_0 dvd_mult_cancel_left mod_0_imp_dvd nonzero_mult_div_cancel_left
          power_Suc zero_neq_numeral dvd_def)
  next
    case False
    then show ?thesis by (metis dvd_imp_mod_0 dvd_mult_left power_Suc)
  qed
qed simp

lemma shiftLeft_exact:
  assumes "shiftLeft v b = Inr w" and "0 \<le> v" and "v \<le> MaxInt64"
  shows "w = v * 2 ^ b \<and> 0 \<le> w \<and> w \<le> MaxInt64"
proof (cases "b = 0 \<or> v = 0")
  case True
  with assms show ?thesis by (auto simp: shiftLeft_def)
next
  case False
  with assms(1) have le: "v \<le> MaxInt64 div 2 ^ b" and w: "w = wrap64 (v * 2 ^ b)"
    by (auto simp: shiftLeft_def split: if_splits)
  have "v * 2 ^ b \<le> MaxInt64 div 2 ^ b * 2 ^ b"
    using le by (simp add: mult_right_mono)
  also have "\<dots> \<le> MaxInt64"
  proof -
    have "0 \<le> MaxInt64 mod 2 ^ b" by simp
    with div_mult_mod_eq [of MaxInt64 "2 ^ b"] show ?thesis by linarith
  qed
  finally have "v * 2 ^ b \<le> MaxInt64" .
  moreover from this have "wrap64 (v * 2 ^ b) = v * 2 ^ b"
    using assms(2) by (intro wrap64_id) (auto simp: MinInt64_def intro: order_trans [of _ 0])
  ultimately show ?thesis using w assms(2) by simp
qed

lemma shiftLeft_complete:
  assumes "0 \<le> v" and "v * 2 ^ b \<le> MaxInt64" and "b < 63"
  shows "shiftLeft v b = Inr (v * 2 ^ b)"
proof (cases "b = 0 \<or> v = 0")
  case False
  have "\<not> v > MaxInt64 div 2 ^ b"
    using zdiv_mono1 [OF assms(2), of "2 ^ b"] by simp
  moreover have "wrap64 (v * 2 ^ b) = v * 2 ^ b"
    using assms by (intro wrap64_id) (auto simp: MinInt64_def intro: order_trans [of _ 0])
  ultimately show ?thesis using False assms(3) by (simp add: shiftLeft_def)
qed (auto simp: shiftLeft_def)

section \<open>What is accepted is exact\<close>

lemma parse_int64_digits:
  assumes "parse_int64 s = Some v" and "list_all is_digit s" and "s \<noteq> []"
  shows "v = dec_value s \<and> 0 \<le> v \<and> v \<le> MaxInt64"
proof -
  have "hd s \<noteq> CHR ''+''" and "hd s \<noteq> CHR ''-''"
    using assms(2,3) by (cases s; auto simp: is_digit_def less_eq_char_def)+
  with assms show ?thesis
    by (cases s) (auto simp: parse_int64_def Let_def dec_value_nonneg split: if_splits)
qed

lemma parse_int64_format_nat:
  assumes "int n \<le> MaxInt64"
  shows "parse_int64 (format_nat n) = Some (int n)"
proof -
  have digits: "list_all is_digit (format_nat n)" by (rule format_nat_digits)
  then have "hd (format_nat n) \<noteq> CHR ''+''" and "hd (format_nat n) \<noteq> CHR ''-''"
    by (cases "format_nat n"; auto simp: is_digit_def less_eq_char_def)+
  with digits assms show ?thesis
    using dec_value_format_nat [of n]
    by (cases "format_nat n") (auto simp: parse_int64_def Let_def MinInt64_def)
qed

lemma mantissa_digits: "mantissa v = Inr (digits, fraction) \<Longrightarrow> list_all is_digit digits \<and> digits \<noteq> []"
  by (auto simp: mantissa_def Let_def split: prod.splits if_splits)

lemma scaleMilli_exact:
  assumes "scaleMilli v dec fraction = Inr w" and "0 \<le> v" and "v \<le> MaxInt64"
    and fits: "MinInt64 < dec - int fraction + MilliScale" "dec - int fraction + MilliScale \<le> MaxInt64"
  shows "(of_int w :: rat) = of_int v * (10 powi (dec - int fraction + MilliScale)) \<and> 0 \<le> w \<and> w \<le> MaxInt64"
proof -
  define e where "e = dec - int fraction + MilliScale"
  have wrap: "wrap64 e = e" and neg: "wrap64 (- e) = - e"
    using fits by (auto simp: e_def MinInt64_def MaxInt64_def intro!: wrap64_id)
  consider "0 < e" | "e < 0" | "e = 0" by linarith
  then have "(of_int w :: rat) = of_int v * (10 powi e) \<and> 0 \<le> w \<and> w \<le> MaxInt64"
  proof cases
    case 1
    then have "mulPow10 v (nat e) = Inr w"
      using assms(1) wrap by (simp add: scaleMilli_def Let_def flip: e_def)
    from mulPow10_exact [OF this assms(2,3)] have "w = v * 10 ^ nat e" "w \<le> MaxInt64" by auto
    with 1 assms(2) show ?thesis
      by (simp add: power_int_def)
  next
    case 2
    then have "divPow10 v (nat (- e)) = Inr w"
      using assms(1) wrap neg by (simp add: scaleMilli_def Let_def flip: e_def)
    from divPow10_exact [OF this assms(2)] have v: "v = w * 10 ^ nat (- e)" "0 \<le> w" by auto
    have "w * 1 \<le> w * 10 ^ nat (- e)" using v(2) by (intro mult_left_mono) auto
    with 2 v assms(3) show ?thesis
      by (simp add: power_int_def field_simps)
  next
    case 3
    with assms show ?thesis
      by (simp add: scaleMilli_def Let_def flip: e_def)
  qed
  then show ?thesis by (simp add: e_def)
qed

lemma ParseQuantity_parts:
  "ParseQuantity q =
     (case quantity_parts q of
        Some (neg, digits, fraction, dec, bin) \<Rightarrow>
          (case parse_int64 digits of
             None \<Rightarrow> Inl QOutOfRange
           | Some value \<Rightarrow>
               (case shiftLeft value (10 * bin) of
                  Inl e \<Rightarrow> Inl e
                | Inr value \<Rightarrow>
                    (case scaleMilli value dec fraction of
                       Inl e \<Rightarrow> Inl e
                     | Inr value \<Rightarrow> Inr (if neg then - value else value))))
      | None \<Rightarrow> ParseQuantity q)"
  by (auto simp: ParseQuantity_def quantity_parts_def Let_def split: list.split sum.split prod.split option.split)

lemma ParseQuantity_Inr_parts:
  assumes "ParseQuantity q = Inr v"
  obtains neg digits fraction dec bin val shifted scaled where
    "quantity_parts q = Some (neg, digits, fraction, dec, bin)"
    "list_all is_digit digits" "digits \<noteq> []"
    "parse_int64 digits = Some val" "shiftLeft val (10 * bin) = Inr shifted"
    "scaleMilli shifted dec fraction = Inr scaled" "v = (if neg then - scaled else scaled)"
proof -
  have "quantity_parts q \<noteq> None"
    using assms
    by (auto simp: ParseQuantity_def quantity_parts_def Let_def
        split: list.splits sum.splits prod.splits option.splits)
  then obtain neg digits fraction dec bin where
    parts: "quantity_parts q = Some (neg, digits, fraction, dec, bin)"
    by auto
  then have "list_all is_digit digits \<and> digits \<noteq> []"
    by (auto simp: quantity_parts_def dest: mantissa_digits split: list.splits sum.splits prod.splits)
  then show thesis
    using that parts assms ParseQuantity_parts [of q]
    by (auto split: option.splits sum.splits)
qed



text \<open>The hypothesis on the exponent is needed. The negation of the smallest int is itself,
  so a quantity whose exponent sums to it is divided by no power of ten at all: a text that
  denotes a value below every positive milli-unit is accepted as one milli-unit.\<close>

theorem ParseQuantity_exponent_wraps:
  "ParseQuantity ''0.001e-9223372036854775808'' = Inr 1
   \<and> quantity_parts ''0.001e-9223372036854775808'' = Some (False, ''0001'', 3, -9223372036854775808, 0)"
  by code_simp

end
