(* ===== verification/Floats.thy ===== *)
theory Floats
  imports Ordering Complex_Main "HOL-Library.Log_Nat"
begin

text \<open>
  The float64 arithmetic the control plane uses, on rational numbers: a result is rounded to
  the nearest number with a 53-bit significand, ties to even. The numbers it is applied to
  are sizes in bytes, nanoseconds and short decimal fractions, far from the range in which
  float64 is subnormal or infinite, so the exponent is not bounded here.
\<close>

text \<open>The exponent of the leading bit of a positive rational.\<close>

definition log2_floor :: "rat \<Rightarrow> int" where
  "log2_floor x =
     (let (n, d) = quotient_of x; e = bitlen n - bitlen d
      in if x < 2 powi e then e - 1 else e)"

definition round_half_even :: "rat \<Rightarrow> int" where
  "round_half_even x =
     (let k = \<lfloor>x\<rfloor>; r = x - of_int k
      in if r < 1/2 then k else if 1/2 < r then k + 1 else if even k then k else k + 1)"

definition fl :: "rat \<Rightarrow> rat" where
  "fl x = (if x = 0 then 0
           else let e = log2_floor \<bar>x\<bar> - 52
                in of_int (round_half_even (x / (2 powi e))) * (2 powi e))"

text \<open>\<^verbatim>\<open>float64(n)\<close> of an integer, and the truncation \<^verbatim>\<open>int64(x)\<close> of a number in range.\<close>

definition float_of_int :: "int \<Rightarrow> rat" where
  "float_of_int n = fl (of_int n)"

definition trunc_rat :: "rat \<Rightarrow> int" where
  "trunc_rat x = (if x < 0 then \<lceil>x\<rceil> else \<lfloor>x\<rfloor>)"

lemma round_half_even_of_int [simp]: "round_half_even (of_int k) = k"
  by (simp add: round_half_even_def)

lemma round_half_even_near: "\<bar>of_int (round_half_even x) - x\<bar> \<le> 1/2"
proof -
  have "of_int \<lfloor>x\<rfloor> \<le> x" and "x < of_int \<lfloor>x\<rfloor> + 1" using floor_correct [of x] by simp_all
  then show ?thesis by (auto simp: round_half_even_def Let_def)
qed

lemma round_half_even_mono: "x \<le> y \<Longrightarrow> round_half_even x \<le> round_half_even y"
proof -
  assume le: "x \<le> y"
  then have fl_le: "\<lfloor>x\<rfloor> \<le> \<lfloor>y\<rfloor>" by (rule floor_mono)
  show ?thesis
  proof (cases "\<lfloor>x\<rfloor> = \<lfloor>y\<rfloor>")
    case True
    with le show ?thesis by (auto simp: round_half_even_def Let_def)
  next
    case False
    with fl_le have "\<lfloor>x\<rfloor> + 1 \<le> \<lfloor>y\<rfloor>" by linarith
    then show ?thesis by (auto simp: round_half_even_def Let_def)
  qed
qed

lemma log2_floor_le:
  assumes "0 < x" shows "2 powi (log2_floor x) \<le> x"
proof -
  obtain p q where pq: "quotient_of x = (p, q)" by fastforce
  then have x: "x = of_int p / of_int q" and q: "0 < q"
    by (auto simp: quotient_of_div quotient_of_denom_pos)
  with assms have p: "0 < p" by (simp add: zero_less_divide_iff)
  have bp: "0 < bitlen p" and bq: "0 < bitlen q"
    using p q bitlen_nonneg [of p] bitlen_nonneg [of q] bitlen_eq_zero_iff [of p] bitlen_eq_zero_iff [of q]
    by linarith+
  have "2 ^ nat (bitlen p - 1) \<le> p" and "q < 2 ^ nat (bitlen q)"
    using bitlen_bounds [OF p] bitlen_bounds [OF q] by auto
  then have "(2::rat) ^ nat (bitlen p - 1) \<le> of_int p" and "of_int q \<le> (2::rat) ^ nat (bitlen q)"
    by (metis of_int_le_iff of_int_numeral of_int_power less_imp_le)+
  then have lo: "(2::rat) powi (bitlen p - 1) \<le> of_int p" and hi: "of_int q \<le> (2::rat) powi (bitlen q)"
    using bp bq by (simp_all add: power_int_def)
  have "(2::rat) powi (bitlen p - bitlen q - 1) = 2 powi (bitlen p - 1) / 2 powi (bitlen q)"
    by (simp add: power_int_diff)
  also have "\<dots> \<le> of_int p / of_int q"
    using lo hi q p by (intro frac_le) auto
  finally show ?thesis
    using x pq by (auto simp: log2_floor_def Let_def)
qed

lemma log2_floor_less:
  assumes "0 < x" and "x < 2 ^ n" shows "log2_floor x < int n"
proof (rule ccontr)
  assume "\<not> log2_floor x < int n"
  then have "(2::rat) powi (int n) \<le> 2 powi (log2_floor x)"
    by (intro power_int_increasing) auto
  also have "\<dots> \<le> x" by (rule log2_floor_le [OF assms(1)])
  finally show False using assms(2) by simp
qed

text \<open>A number with at most 53 significant bits, \<open>k\<close> of them after the point, is a float64.\<close>

lemma fl_exact:
  assumes "\<bar>x\<bar> < 2 ^ (53 - k)" and "k \<le> 53" and "x * 2 ^ k = of_int m"
  shows "fl x = x"
proof (cases "x = 0")
  case False
  define e where "e = log2_floor \<bar>x\<bar> - 52"
  have "log2_floor \<bar>x\<bar> < int (53 - k)" using False assms(1) by (intro log2_floor_less) auto
  then have e: "e \<le> - int k" using assms(2) by (simp add: e_def)
  have "x / (2 powi e) = x * 2 powi (- e)" by (simp add: power_int_minus field_simps)
  also have "\<dots> = x * (2 powi (int k) * 2 powi (- e - int k))"
  proof -
    have "(2::rat) powi (- e) = 2 powi (int k + (- e - int k))" by simp
    also have "\<dots> = 2 powi (int k) * 2 powi (- e - int k)" by (rule power_int_add) simp
    finally show ?thesis by simp
  qed
  also have "\<dots> = of_int m * 2 ^ nat (- e - int k)"
    using e assms(3) by (simp add: power_int_def mult.assoc [symmetric])
  also have "\<dots> = of_int (m * 2 ^ nat (- e - int k))" by simp
  finally have int: "x / (2 powi e) = of_int (m * 2 ^ nat (- e - int k))" .
  have "of_int (round_half_even (x / (2 powi e))) = x / (2 powi e)"
    unfolding int by (simp only: round_half_even_of_int)
  with False show ?thesis by (simp add: fl_def Let_def flip: e_def)
qed (simp add: fl_def)

lemma float_of_int_exact: "\<bar>n\<bar> < 2 ^ 53 \<Longrightarrow> float_of_int n = of_int n"
proof -
  assume "\<bar>n\<bar> < 2 ^ 53"
  then have "\<bar>of_int n :: rat\<bar> < of_int (2 ^ 53)"
    by (metis of_int_abs of_int_less_iff)
  then show ?thesis
    unfolding float_of_int_def by (intro fl_exact [where k = 0 and m = n]) simp_all
qed

end
