(* ===== verification/Autosize_Policy.thy ===== *)
theory Autosize_Policy
  imports Quantity Floats
begin

text \<open>
  \<^verbatim>\<open>autosize/autosize.go\<close>: the policy that sizes a sandbox inside a ceiling. The next
  memory size of a sandbox, the pressure test on its working set, the readings remembered
  between two samples, and the text a size is written with. The theorems say that a raise
  always gains and never passes the ceiling, that repeated raises reach it, that a raise
  answers consecutive pressed samples and nothing else, and that a written size parses back.
\<close>

section \<open>The figures\<close>

definition DefaultInterval :: duration where "DefaultInterval = Minute"
definition MemoryGrowAt :: rat where "MemoryGrowAt = fl (85 / 100)"
definition MemoryGrowReadings :: int where "MemoryGrowReadings = 2"
definition MemoryStepFactor :: rat where "MemoryStepFactor = fl (3 / 2)"
definition MemoryStepMin :: int where "MemoryStepMin = 536870912"
definition MemoryQuantum :: int where "MemoryQuantum = 268435456"
definition CeilingWarnAt :: rat where "CeilingWarnAt = fl (95 / 100)"
definition MoveBackoff :: duration where "MoveBackoff = 10 * Minute"
definition SameSizeRestarts :: int where "SameSizeRestarts = 3"
definition SameSizeRestartBackoff :: duration where "SameSizeRestartBackoff = 15 * Second"

section \<open>The next size\<close>

text \<open>\<^verbatim>\<open>math.Ceil\<close> of a product of floats is a float again, so the ceiling is not rounded.\<close>

definition NextMemory :: "int \<Rightarrow> int \<Rightarrow> int" where
  "NextMemory limit ceil =
     (if limit \<le> 0 \<or> ceil \<le> limit then limit
      else let scaled = of_int \<lceil>fl (float_of_int limit * MemoryStepFactor)\<rceil>
           in if scaled \<ge> float_of_int ceil then ceil
              else let next = max (trunc_rat scaled) (wrap64 (limit + MemoryStepMin));
                       rem = go_rem next MemoryQuantum;
                       next = (if rem \<noteq> 0 then wrap64 (next + (MemoryQuantum - rem)) else next)
                   in if next \<le> limit \<or> next > ceil then ceil else next)"

definition MemoryPressed :: "int \<Rightarrow> int \<Rightarrow> bool" where
  "MemoryPressed workingSet limit \<longleftrightarrow>
     limit > 0 \<and> float_of_int workingSet \<ge> fl (MemoryGrowAt * float_of_int limit)"

definition AtCeiling :: "int \<Rightarrow> int \<Rightarrow> bool" where
  "AtCeiling used ceil \<longleftrightarrow>
     ceil > 0 \<and> float_of_int used \<ge> fl (CeilingWarnAt * float_of_int ceil)"

text \<open>The name \<^verbatim>\<open>Quantity\<close> is the source's; it writes a number of bytes.\<close>

definition QuantityOf :: "int \<Rightarrow> string" where
  "QuantityOf bytes =
     (if bytes \<ge> 2 ^ 30 \<and> go_rem bytes (2 ^ 30) = 0 then format_int (go_quot bytes (2 ^ 30)) @ ''Gi''
      else if bytes \<ge> 2 ^ 20 \<and> go_rem bytes (2 ^ 20) = 0 then format_int (go_quot bytes (2 ^ 20)) @ ''Mi''
      else if bytes \<ge> 2 ^ 10 \<and> go_rem bytes (2 ^ 10) = 0 then format_int (go_quot bytes (2 ^ 10)) @ ''Ki''
      else format_int bytes)"

section \<open>The readings between two samples\<close>

record readings =
  rd_pressed :: int
  rd_sampled :: gotime
  rd_counted :: bool
  rd_instance :: string
  rd_kills :: int

definition readings0 :: readings where
  "readings0 = \<lparr>rd_pressed = 0, rd_sampled = 0, rd_counted = False, rd_instance = [], rd_kills = 0\<rparr>"

definition Readings_Usage :: "readings \<Rightarrow> int \<Rightarrow> int \<Rightarrow> gotime \<Rightarrow> bool \<times> readings" where
  "Readings_Usage r workingSet limit instant =
     (if instant \<noteq> 0 \<and> instant = rd_sampled r then (False, r)
      else let r = r\<lparr>rd_sampled := instant\<rparr>
           in if \<not> MemoryPressed workingSet limit then (False, r\<lparr>rd_pressed := 0\<rparr>)
              else let r = r\<lparr>rd_pressed := rd_pressed r + 1\<rparr>
                   in (rd_pressed r \<ge> MemoryGrowReadings, r))"

definition Readings_Kills :: "readings \<Rightarrow> int \<Rightarrow> string \<Rightarrow> bool \<times> readings" where
  "Readings_Kills r killed inst =
     (if \<not> rd_counted r \<or> inst \<noteq> rd_instance r
      then (False, r\<lparr>rd_counted := True, rd_instance := inst, rd_kills := killed\<rparr>)
      else (killed > rd_kills r, r\<lparr>rd_kills := killed\<rparr>))"

definition Readings_Raised :: "readings \<Rightarrow> readings" where
  "Readings_Raised r = r\<lparr>rd_pressed := 0\<rparr>"

section \<open>A raise gains and stays under the ceiling\<close>

lemma trunc_rat_of_int [simp]: "trunc_rat (of_int k) = k"
  by (simp add: trunc_rat_def)

lemma NextMemory_bounds:
  "0 < limit \<Longrightarrow> limit < ceil \<Longrightarrow> limit < NextMemory limit ceil \<and> NextMemory limit ceil \<le> ceil"
  by (auto simp: NextMemory_def Let_def)

lemma NextMemory_fixed: "ceil \<le> limit \<Longrightarrow> NextMemory limit ceil = limit"
  by (simp add: NextMemory_def)

lemma go_rem_up_dvd: "q dvd (x + (q - go_rem x q))"
  by (simp add: go_rem_def)

lemma go_rem_zero_dvd: "go_rem x q = 0 \<Longrightarrow> q dvd x"
  unfolding go_rem_def by (metis dvd_triv_left eq_iff_diff_eq_0)

lemma wrap64_dvd: "q dvd 9223372036854775808 \<Longrightarrow> q dvd x \<Longrightarrow> q dvd wrap64 x"
proof -
  assume q: "q dvd 9223372036854775808" and x: "q dvd x"
  have "q dvd 2 * 9223372036854775808" using q by (rule dvd_mult)
  then have "q dvd 18446744073709551616" by simp
  then show ?thesis unfolding wrap64_def using q x by (intro dvd_diff dvd_mod dvd_add)
qed

lemma NextMemory_quantum:
  assumes "limit < ceil" and "0 < limit"
  shows "NextMemory limit ceil = ceil \<or> MemoryQuantum dvd NextMemory limit ceil"
proof -
  have "MemoryQuantum dvd 9223372036854775808" by (simp add: MemoryQuantum_def)
  then show ?thesis
    using assms by (auto simp: NextMemory_def Let_def go_rem_zero_dvd wrap64_dvd [OF _ go_rem_up_dvd])
qed

text \<open>C15: a raise of a sandbox below its ceiling always gains memory, never passes the ceiling,
  and lands on a multiple of the quantum unless the ceiling cut it short, also where the sum
  wraps past the largest integer. A sandbox at or above its ceiling keeps its size.\<close>

theorem NextMemory_raises_within_ceiling:
  assumes "0 < limit"
  shows "(if limit < ceil
          then limit < NextMemory limit ceil \<and> NextMemory limit ceil \<le> ceil
               \<and> (NextMemory limit ceil = ceil \<or> MemoryQuantum dvd NextMemory limit ceil)
          else NextMemory limit ceil = limit)"
  using assms NextMemory_bounds NextMemory_quantum NextMemory_fixed by simp

theorem NextMemory_raises_within_ceiling_witness:
  "536870912 < NextMemory 536870912 4294967296 \<and> NextMemory 536870912 4294967296 \<le> 4294967296
   \<and> (NextMemory 536870912 4294967296 = 4294967296 \<or> MemoryQuantum dvd NextMemory 536870912 4294967296)"
  using NextMemory_raises_within_ceiling [of 536870912 4294967296] by simp

section \<open>Repeated raises reach the ceiling\<close>

lemma fl_scaled_exact:
  assumes "0 < limit" and "limit < 2 ^ 51"
  shows "fl (float_of_int limit * MemoryStepFactor) = of_int limit * (3 / 2)"
proof -
  have l: "of_int limit < (2::rat) ^ 51" using assms(2)
    by (metis of_int_less_iff of_int_numeral of_int_power)
  have "float_of_int limit = of_int limit"
    using assms by (intro float_of_int_exact) simp
  moreover have "MemoryStepFactor = 3 / 2" by (simp add: MemoryStepFactor_def) code_simp
  moreover have "fl (of_int limit * (3 / 2)) = of_int limit * (3 / 2)"
    using l assms(1) by (intro fl_exact [where k = 1 and m = "3 * limit"]) simp_all
  ultimately show ?thesis by (simp only:)
qed

lemma NextMemory_gain:
  assumes "0 < limit" and "limit < ceil" and "ceil < 2 ^ 51"
  shows "NextMemory limit ceil = ceil
    \<or> (limit + MemoryStepMin \<le> NextMemory limit ceil \<and> 3 * limit \<le> 2 * NextMemory limit ceil)"
proof -
  define nxt where "nxt = max \<lceil>of_int limit * (3 / 2) :: rat\<rceil> (limit + MemoryStepMin)"
  have cc: "ceil < 2251799813685248" "limit < 2251799813685248" using assms by simp_all
  have "\<lceil>of_int limit * (3 / 2) :: rat\<rceil> \<le> 2 * limit"
    using assms(1) by (intro ceiling_le) simp
  then have pos: "0 < nxt" and small: "nxt < 9007199254740992"
    using assms(1) cc by (auto simp: nxt_def MemoryStepMin_def)
  have three: "3 * limit \<le> 2 * nxt"
  proof -
    have "of_int limit * (3 / 2) \<le> (of_int \<lceil>of_int limit * (3 / 2) :: rat\<rceil> :: rat)" by (rule le_of_int_ceiling)
    then have "(of_int (3 * limit) :: rat) \<le> of_int (2 * \<lceil>of_int limit * (3 / 2) :: rat\<rceil>)"
      unfolding of_int_mult by linarith
    then have "3 * limit \<le> 2 * \<lceil>of_int limit * (3 / 2) :: rat\<rceil>" by (simp only: of_int_le_iff)
    also have "\<dots> \<le> 2 * nxt" unfolding nxt_def by (intro mult_left_mono) simp_all
    finally show ?thesis .
  qed
  have step: "limit + MemoryStepMin \<le> nxt" by (simp add: nxt_def)
  define up where "up = (if go_rem nxt MemoryQuantum \<noteq> 0
    then wrap64 (nxt + (MemoryQuantum - go_rem nxt MemoryQuantum)) else nxt)"
  have "0 \<le> go_rem nxt MemoryQuantum" "go_rem nxt MemoryQuantum < MemoryQuantum"
    using pos by (simp_all add: go_rem_nonneg MemoryQuantum_def)
  then have "nxt \<le> up"
    using pos small by (auto simp: up_def MemoryQuantum_def wrap64_id MinInt64_def MaxInt64_def)
  have wr: "wrap64 (limit + MemoryStepMin) = limit + MemoryStepMin"
    using assms(1) cc by (intro wrap64_id) (simp add: MemoryStepMin_def MinInt64_def MaxInt64_def)
  have sc: "fl (float_of_int limit * MemoryStepFactor) = of_int limit * (3 / 2)"
    using assms cc by (intro fl_scaled_exact) simp_all
  have "NextMemory limit ceil = ceil \<or> NextMemory limit ceil = up"
    unfolding NextMemory_def Let_def sc wr trunc_rat_of_int nxt_def [symmetric] up_def [symmetric]
    using assms by simp
  with \<open>nxt \<le> up\<close> three step show ?thesis by auto
qed

text \<open>C16: the policy makes progress. Below two pebibytes a raise gains at least the smallest step
  and half of the size, or reaches the ceiling, so raises repeated often enough for the
  smallest step to cover the distance end exactly at the ceiling and stay there.\<close>

theorem NextMemory_reaches_ceiling:
  assumes "0 < limit" and "limit \<le> ceil" and "ceil < 2 ^ 51"
    and "ceil - limit \<le> int n * MemoryStepMin"
  shows "((\<lambda>m. NextMemory m ceil) ^^ n) limit = ceil"
  using assms(1,2,4)
proof (induction n arbitrary: limit)
  case (Suc n)
  show ?case
  proof (cases "limit = ceil")
    case True
    have "((\<lambda>m. NextMemory m ceil) ^^ k) ceil = ceil" for k
      by (induction k) (simp_all add: NextMemory_fixed)
    with True show ?thesis by blast
  next
    case False
    with Suc.prems have lt: "limit < ceil" by simp
    let ?m = "NextMemory limit ceil"
    have "?m = ceil \<or> limit + MemoryStepMin \<le> ?m"
      using NextMemory_gain [OF Suc.prems(1) lt assms(3)] by blast
    then have "ceil - ?m \<le> int n * MemoryStepMin"
      using Suc.prems(3) by (auto simp: algebra_simps MemoryStepMin_def)
    moreover have "0 < ?m" and "?m \<le> ceil"
      using NextMemory_bounds [OF Suc.prems(1) lt] Suc.prems(1) by auto
    ultimately have "((\<lambda>m. NextMemory m ceil) ^^ n) ?m = ceil" by (intro Suc.IH)
    then show ?thesis by (simp only: funpow_Suc_right comp_apply)
  qed
qed simp

theorem NextMemory_reaches_ceiling_witness:
  "((\<lambda>m. NextMemory m 4294967296) ^^ 8) 536870912 = 4294967296"
  by (rule NextMemory_reaches_ceiling) (simp_all add: MemoryStepMin_def)

section \<open>A raise answers consecutive samples\<close>

text \<open>
  The abstract account of \<^const>\<open>Readings_Usage\<close>: of a sequence of samples, each a working set
  under a limit at an instant, the fresh ones are those that do not repeat the instant of the
  sample before them, and the streak is how many of the last fresh ones in a row were pressed.
\<close>

type_synonym sample = "int \<times> int \<times> gotime"

fun usage_run :: "readings \<Rightarrow> sample list \<Rightarrow> readings" where
  "usage_run r [] = r"
| "usage_run r ((w, l, t) # xs) = usage_run (snd (Readings_Usage r w l t)) xs"

fun fresh :: "gotime \<Rightarrow> sample list \<Rightarrow> sample list" where
  "fresh prev [] = []"
| "fresh prev ((w, l, t) # xs) = (if t \<noteq> 0 \<and> t = prev then fresh prev xs else (w, l, t) # fresh t xs)"

definition streak :: "sample list \<Rightarrow> nat" where
  "streak xs = length (takeWhile (\<lambda>(w, l, t). MemoryPressed w l) (rev xs))"

definition last_instant :: "gotime \<Rightarrow> sample list \<Rightarrow> gotime" where
  "last_instant prev xs = (if xs = [] then prev else snd (snd (last xs)))"

lemma usage_run_snoc: "usage_run r (xs @ [(w, l, t)]) = snd (Readings_Usage (usage_run r xs) w l t)"
  by (induction r xs rule: usage_run.induct) simp_all

lemma fresh_snoc:
  "fresh prev (xs @ [(w, l, t)])
   = fresh prev xs @ (if t \<noteq> 0 \<and> t = last_instant prev xs then [] else [(w, l, t)])"
  by (induction prev xs rule: fresh.induct) (auto simp: last_instant_def)

lemma sampled_usage_run: "rd_sampled (usage_run r xs) = last_instant (rd_sampled r) xs"
proof (induction xs rule: rev_induct)
  case (snoc x xs)
  obtain w l t where x: "x = (w, l, t)" by (cases x)
  have "rd_sampled (usage_run r (xs @ [x])) = t"
    by (auto simp: x usage_run_snoc Readings_Usage_def Let_def)
  then show ?case by (simp add: x last_instant_def)
qed (simp add: last_instant_def)

lemma pressed_usage_run: "rd_pressed (usage_run readings0 xs) = int (streak (fresh 0 xs))"
proof (induction xs rule: rev_induct)
  case (snoc x xs)
  obtain w l t where x: "x = (w, l, t)" by (cases x)
  from snoc show ?case
    using sampled_usage_run [of readings0 xs]
    by (auto simp: x usage_run_snoc fresh_snoc Readings_Usage_def Let_def streak_def readings0_def)
qed (simp add: readings0_def streak_def)

text \<open>Over any sequence of samples, a sample asks for a raise exactly when it is a new one and
  it completes at least two fresh samples in a row at the grow line; a sample read twice counts
  once and one below the line starts the count again.\<close>

theorem Readings_Usage_counts_streak:
  "fst (Readings_Usage (usage_run readings0 xs) w l t)
   \<longleftrightarrow> \<not> (t \<noteq> 0 \<and> t = last_instant 0 xs) \<and> 2 \<le> streak (fresh 0 (xs @ [(w, l, t)]))"
proof -
  have s: "rd_sampled (usage_run readings0 xs) = last_instant 0 xs"
    using sampled_usage_run [of readings0 xs] by (simp add: readings0_def)
  show ?thesis
    using pressed_usage_run [of xs] s
    by (auto simp: Readings_Usage_def Let_def fresh_snoc MemoryGrowReadings_def streak_def)
qed

section \<open>A written size parses back\<close>

lemma special_not_digit:
  "\<not> is_digit (CHR ''i'')" "\<not> is_digit (CHR ''e'')" "\<not> is_digit (CHR ''E'')" "\<not> is_digit (CHR ''.'')"
  "\<not> is_digit (CHR ''+'')" "\<not> is_digit (CHR ''-'')" "\<not> is_digit (CHR ''n'')" "\<not> is_digit (CHR ''u'')"
  "\<not> is_digit (CHR ''m'')" "\<not> is_digit (CHR ''k'')" "\<not> is_digit (CHR ''M'')" "\<not> is_digit (CHR ''G'')"
  "\<not> is_digit (CHR ''T'')" "\<not> is_digit (CHR ''P'')"
  by (simp_all add: is_digit_def less_eq_char_def)

lemma digit_not_special:
  assumes "is_digit c"
  shows "c \<noteq> CHR ''i''" "c \<noteq> CHR ''e''" "c \<noteq> CHR ''E''" "c \<noteq> CHR ''.''" "c \<noteq> CHR ''+''" "c \<noteq> CHR ''-''"
  using assms special_not_digit by blast+

lemma decimalSuffix_digit: "is_digit c \<Longrightarrow> decimalSuffix c = None"
  using special_not_digit by (auto simp: decimalSuffix_def)

lemma index_exponent_digits: "list_all is_digit s \<Longrightarrow> index_exponent s = None"
  by (induction s) (auto dest: digit_not_special)

lemma splitSuffix_digits:
  assumes "list_all is_digit s" and "s \<noteq> []" shows "splitSuffix s = Inr (s, 0, 0)"
proof -
  have "is_digit (last s)" using assms by (simp add: list_all_iff)
  then show ?thesis
    using assms digit_not_special [of "last s"]
    by (simp add: splitSuffix_def index_exponent_digits decimalSuffix_digit)
qed

lemma splitSuffix_binary:
  "binarySuffix c = Some i \<Longrightarrow> splitSuffix (s @ [c, CHR ''i'']) = Inr (s, 0, i + 1)"
  by (simp add: splitSuffix_def nth_append)

lemma mantissa_of_digits:
  assumes "list_all is_digit s" and "s \<noteq> []" shows "mantissa s = Inr (s, 0)"
proof -
  have "CHR ''.'' \<notin> set s" using assms(1) digit_not_special(4) by (auto simp: list_all_iff)
  then show ?thesis using assms by (simp add: mantissa_def cut_dot_def index_byte_None [THEN iffD2])
qed

lemma scaleMilli_whole:
  assumes "0 \<le> v" and "1000 * v \<le> MaxInt64" shows "scaleMilli v 0 0 = Inr (1000 * v)"
  using mulPow10_complete [of v 3] assms
  by (simp add: scaleMilli_def Let_def MilliScale_def wrap64_def mult.commute)

lemma ParseQuantity_digits:
  assumes "splitSuffix (format_nat k @ suf) = Inr (format_nat k, 0, bin)" and "bin < 4"
    and "1000 * (int k * 1024 ^ bin) \<le> MaxInt64"
  shows "ParseQuantity (format_nat k @ suf) = Inr (1000 * (int k * 1024 ^ bin))"
proof -
  let ?s = "format_nat k"
  have digits: "list_all is_digit ?s" by (rule format_nat_digits)
  then have hd: "hd ?s \<noteq> CHR ''+''" "hd ?s \<noteq> CHR ''-''"
    using digit_not_special [of "hd ?s"] by (auto simp: list_all_iff)
  have pow: "(2::int) ^ (10 * bin) = 1024 ^ bin" by (simp add: power_mult)
  have "1 \<le> (1024::int) ^ bin" by simp
  then have "int k \<le> int k * 1024 ^ bin" by (simp add: mult_le_cancel_left1)
  moreover have "0 \<le> int k * 1024 ^ bin" by simp
  ultimately have "int k \<le> MaxInt64" and "int k * 1024 ^ bin \<le> MaxInt64" using assms(3) by linarith+
  then have "parse_int64 ?s = Some (int k)" and "shiftLeft (int k) (10 * bin) = Inr (int k * 1024 ^ bin)"
    using assms(2) shiftLeft_complete [of "int k" "10 * bin"] by (simp_all add: parse_int64_format_nat pow)
  with assms digits hd show ?thesis
    by (cases ?s) (simp_all add: ParseQuantity_def Let_def mantissa_of_digits scaleMilli_whole)
qed

text \<open>C14: a size the policy writes is one the manifest parser reads back exactly, in milli-units,
  for every number of bytes whose milli-units fit 64 bits.\<close>

theorem ParseQuantity_QuantityOf:
  assumes "0 \<le> bytes" and "1000 * bytes \<le> MaxInt64"
  shows "ParseQuantity (QuantityOf bytes) = Inr (1000 * bytes)"
proof -
  have suffix: "ParseQuantity (format_int (bytes div 1024 ^ b) @ [c, CHR ''i'']) = Inr (1000 * bytes)"
    if "bytes mod 1024 ^ b = 0" "binarySuffix c = Some (b - 1)" "0 < b" "b < 4" for b c
  proof -
    let ?k = "nat (bytes div 1024 ^ b)"
    have k: "int ?k * 1024 ^ b = bytes" using div_mult_mod_eq [of bytes "1024 ^ b"] that(1) assms(1)
      by (simp add: pos_imp_zdiv_nonneg_iff)
    have "format_int (bytes div 1024 ^ b) = format_nat ?k"
      using assms(1) by (simp add: format_int_def pos_imp_zdiv_neg_iff)
    then show ?thesis
      using ParseQuantity_digits [of ?k "[c, CHR ''i'']" b] splitSuffix_binary [OF that(2)] that(3,4) assms(2) k
      by simp
  qed
  have plain: "ParseQuantity (format_int bytes) = Inr (1000 * bytes)"
    using ParseQuantity_digits [of "nat bytes" "[]" 0] assms
    by (simp add: format_int_def splitSuffix_digits format_nat_digits)
  have b: "binarySuffix (CHR ''G'') = Some 2" "binarySuffix (CHR ''M'') = Some 1" "binarySuffix (CHR ''K'') = Some 0"
    by (simp_all add: binarySuffix_def)
  show ?thesis
    using suffix [of 3 "CHR ''G''"] suffix [of 2 "CHR ''M''"] suffix [of 1 "CHR ''K''"] plain b assms(1)
    by (simp add: QuantityOf_def go_rem_nonneg go_quot_nonneg)
qed

theorem ParseQuantity_QuantityOf_witness:
  "ParseQuantity (QuantityOf 805306368) = Inr (1000 * 805306368) \<and> QuantityOf 805306368 = ''768Mi''"
proof -
  have "QuantityOf 805306368 = ''768Mi''" by code_simp
  then show ?thesis using ParseQuantity_QuantityOf [of 805306368] by (simp add: MaxInt64_def)
qed

end
