(* ===== verification/Durations.thy ===== *)
theory Durations
  imports Floats
begin

text \<open>
  \<^verbatim>\<open>manifest/duration.go\<close> and the part of Go's package time it stands on: the parser of a
  duration's text, the text of a whole number of seconds, and the saturating difference of two
  instants. A parsed duration is positive and in range, and a written one parses back.
\<close>

datatype derr = DEmpty | DSyntax | DNotPositive

section \<open>\<^verbatim>\<open>time.ParseDuration\<close>\<close>

text \<open>The last two spellings of the microsecond are the two micro signs in UTF-8.\<close>

definition unit_map :: "string \<Rightarrow> int option" where
  "unit_map u =
     (if u = ''ns'' then Some Nanosecond
      else if u \<in> {''us'', [CHR 0xC2, CHR 0xB5, CHR ''s''], [CHR 0xCE, CHR 0xBC, CHR ''s'']} then Some 1000
      else if u = ''ms'' then Some 1000000
      else if u = ''s'' then Some Second
      else if u = ''m'' then Some Minute
      else if u = ''h'' then Some Hour
      else None)"

text \<open>\<^verbatim>\<open>leadingInt\<close> and \<^verbatim>\<open>leadingFraction\<close> on the digits they consume. The fraction keeps its
  scale as a float and ignores the digits after an overflow.\<close>

fun leading_int :: "int \<Rightarrow> string \<Rightarrow> int option" where
  "leading_int x [] = Some x"
| "leading_int x (c # cs) =
     (if x > 2 ^ 63 div 10 then None
      else let x = x * 10 + digit_val c in if x > 2 ^ 63 then None else leading_int x cs)"

fun leading_fraction :: "int \<Rightarrow> rat \<Rightarrow> string \<Rightarrow> int \<times> rat" where
  "leading_fraction x scale [] = (x, scale)"
| "leading_fraction x scale (c # cs) =
     (if x > (2 ^ 63 - 1) div 10 then (x, scale)
      else let y = x * 10 + digit_val c
           in if y > 2 ^ 63 then (x, scale) else leading_fraction y (fl (scale * 10)) cs)"

text \<open>One term of the text: its value in nanoseconds and the text after it.\<close>

definition duration_term :: "string \<Rightarrow> (int \<times> string) option" where
  "duration_term s =
     (let digits = takeWhile is_digit s; s1 = dropWhile is_digit s;
          dotted = (s1 \<noteq> [] \<and> hd s1 = CHR ''.'');
          fdigits = (if dotted then takeWhile is_digit (tl s1) else []);
          s2 = (if dotted then dropWhile is_digit (tl s1) else s1);
          (f, scale) = leading_fraction 0 1 fdigits;
          u = takeWhile (\<lambda>c. c \<noteq> CHR ''.'' \<and> \<not> is_digit c) s2;
          s3 = dropWhile (\<lambda>c. c \<noteq> CHR ''.'' \<and> \<not> is_digit c) s2
      in case leading_int 0 digits of
           None \<Rightarrow> None
         | Some v \<Rightarrow>
             if digits = [] \<and> fdigits = [] then None
             else if u = [] then None
             else case unit_map u of
                    None \<Rightarrow> None
                  | Some un \<Rightarrow>
                      if v > 2 ^ 63 div un then None
                      else let v = v * un;
                               v = (if f > 0 then v + trunc_rat (fl (float_of_int f * fl (float_of_int un / scale))) else v)
                           in if v > 2 ^ 63 then None else Some (v, s3))"

lemma duration_term_shorter: "duration_term s = Some (v, r) \<Longrightarrow> length r < length s"
proof -
  assume "duration_term s = Some (v, r)"
  then obtain s2 where s2: "length s2 \<le> length s" "takeWhile (\<lambda>c. c \<noteq> CHR ''.'' \<and> \<not> is_digit c) s2 \<noteq> []"
      "r = dropWhile (\<lambda>c. c \<noteq> CHR ''.'' \<and> \<not> is_digit c) s2"
    unfolding duration_term_def Let_def
    by (auto split: prod.splits option.splits if_splits
        intro: order_trans [OF length_dropWhile_le] simp: le_diff_conv)
      (metis (no_types, lifting) diff_le_self length_dropWhile_le length_tl order_trans)+
  then show ?thesis
    by (metis append_self_conv2 le_neq_implies_less length_dropWhile_le order_less_le_trans
        takeWhile_dropWhile_id append_eq_append_conv)
qed

text \<open>The sum is a uint64.\<close>

function duration_terms :: "int \<Rightarrow> string \<Rightarrow> int option" where
  "duration_terms d s =
     (if s = [] then Some d
      else case duration_term s of
             None \<Rightarrow> None
           | Some (v, rest) \<Rightarrow>
               let d = (d + v) mod 2 ^ 64 in if d > 2 ^ 63 then None else duration_terms d rest)"
  by pat_completeness auto
termination
  by (relation "measure (\<lambda>(d, s). length s)") (auto dest: duration_term_shorter)

declare duration_terms.simps [simp del]

definition time_ParseDuration :: "string \<Rightarrow> int option" where
  "time_ParseDuration s =
     (let neg = (s \<noteq> [] \<and> hd s = CHR ''-'');
          s = (if s \<noteq> [] \<and> (hd s = CHR ''-'' \<or> hd s = CHR ''+'') then tl s else s)
      in if s = ''0'' then Some 0
         else if s = [] then None
         else case duration_terms 0 s of
                None \<Rightarrow> None
              | Some d \<Rightarrow> if neg then Some (- d) else if d > 2 ^ 63 - 1 then None else Some d)"

section \<open>\<^verbatim>\<open>manifest.ParseDuration\<close>\<close>

definition DurationNever :: string where "DurationNever = ''never''"

text \<open>The result carries the duration and whether it is the word never.\<close>

definition ParseDuration :: "string \<Rightarrow> derr + (duration \<times> bool)" where
  "ParseDuration d =
     (if d = [] then Inl DEmpty
      else if d = DurationNever then Inr (0, True)
      else case time_ParseDuration d of
             None \<Rightarrow> Inl DSyntax
           | Some v \<Rightarrow> if v \<le> 0 then Inl DNotPositive else Inr (v, False))"

section \<open>Instants and the text of a duration\<close>

text \<open>\<^verbatim>\<open>Time.Sub\<close> saturates, and \<^verbatim>\<open>Truncate\<close> rounds towards zero.\<close>

definition time_Sub :: "gotime \<Rightarrow> gotime \<Rightarrow> duration" where
  "time_Sub t u = max MinInt64 (min MaxInt64 (t - u))"

definition duration_Truncate :: "duration \<Rightarrow> duration \<Rightarrow> duration" where
  "duration_Truncate d m = (if m \<le> 0 then d else d - go_rem d m)"

text \<open>\<^verbatim>\<open>Duration.String\<close> of a positive whole number of seconds, the only ones the control plane
  writes.\<close>

definition duration_String :: "duration \<Rightarrow> string" where
  "duration_String d =
     (let s = nat (d div Second); h = s div 3600; m = s div 60 mod 60
      in (if h > 0 then format_nat h @ ''h'' else [])
         @ (if s \<ge> 60 then format_nat m @ ''m'' else [])
         @ format_nat (s mod 60) @ ''s'')"

section \<open>A parsed duration is positive and in range\<close>

lemma duration_terms_range:
  "duration_terms d s = Some r \<Longrightarrow> 0 \<le> d \<Longrightarrow> d \<le> 2 ^ 63 \<Longrightarrow> 0 \<le> r \<and> r \<le> 2 ^ 63"
proof (induction d s rule: duration_terms.induct)
  case (1 d s)
  show ?case
  proof (cases "s = []")
    case True
    with 1 show ?thesis by (simp add: duration_terms.simps)
  next
    case False
    with "1.prems" obtain v rest where t: "duration_term s = Some (v, rest)" "\<not> 2 ^ 63 < (d + v) mod 2 ^ 64"
      "duration_terms ((d + v) mod 2 ^ 64) rest = Some r"
      by (simp add: duration_terms.simps [of d s] Let_def split: option.splits prod.splits if_splits)
    then show ?thesis using "1.IH" [OF False t(1) refl refl t(2,3)] by simp
  qed
qed

lemma ParseDuration_positive:
  assumes "ParseDuration d = Inr (v, never)" and "\<not> never"
  shows "0 < v \<and> v \<le> MaxInt64"
proof -
  have p: "time_ParseDuration d = Some v" "0 < v"
    using assms by (auto simp: ParseDuration_def split: if_splits option.splits)
  have "v \<le> MaxInt64"
    using p by (auto simp: time_ParseDuration_def Let_def MaxInt64_def split: if_splits option.splits dest: duration_terms_range)
  with p show ?thesis by simp
qed

section \<open>A written duration parses back\<close>

lemma leading_int_digits:
  "list_all is_digit ds \<Longrightarrow> 0 \<le> x \<Longrightarrow>
   foldl (\<lambda>v c. 10 * v + digit_val c) x ds \<le> 2 ^ 63 \<Longrightarrow>
   leading_int x ds = Some (foldl (\<lambda>v c. 10 * v + digit_val c) x ds)"
proof (induction ds arbitrary: x)
  case (Cons c cs)
  let ?x = "10 * x + digit_val c"
  have b: "0 \<le> digit_val c" "0 \<le> ?x" using Cons.prems digit_val_bounds [of c] by simp_all
  have mono: "z \<le> foldl (\<lambda>v c. 10 * v + digit_val c) z ws" if "list_all is_digit ws" "0 \<le> z" for z ws
    using that
  proof (induction ws arbitrary: z)
    case (Cons w ws)
    then have "0 \<le> digit_val w" using digit_val_bounds by simp
    with Cons.prems have "0 \<le> 10 * z + digit_val w" "z \<le> 10 * z + digit_val w" by simp_all
    with Cons.prems show ?case using Cons.IH [of "10 * z + digit_val w"] by simp
  qed simp
  have "?x \<le> 2 ^ 63" using mono [of cs ?x] Cons.prems b by simp
  then have "x \<le> 2 ^ 63 div 10" and "x * 10 + digit_val c \<le> 2 ^ 63" using b Cons.prems by simp_all
  then show ?case using Cons.IH [of ?x] Cons.prems b by (simp add: Let_def mult.commute)
qed simp

lemma leading_int_format: "int n \<le> 2 ^ 63 \<Longrightarrow> leading_int 0 (format_nat n) = Some (int n)"
  using leading_int_digits [of "format_nat n" 0] format_nat_digits [of n] dec_value_format_nat [of n]
  by (simp add: dec_value_def)

text \<open>One whole term followed by text that starts with a digit, or by nothing.\<close>

lemma duration_term_whole:
  assumes "unit_map [u] = Some un" and "\<not> is_digit u" and "u \<noteq> CHR ''.''"
    and "rest = [] \<or> is_digit (hd rest)" and "int n \<le> 2 ^ 63 div un" and "0 < un"
  shows "duration_term (format_nat n @ u # rest) = Some (int n * un, rest)"
proof -
  have "2 ^ 63 div un \<le> (2 ^ 63 :: int)" using assms(6) using zdiv_mono2 [of "2 ^ 63" 1 un] by simp
  with assms(5) have n: "int n \<le> 2 ^ 63" by linarith
  have d: "\<forall>x \<in> set (format_nat n). is_digit x" using format_nat_digits [of n] by (simp add: list_all_iff)
  have tw: "takeWhile is_digit (format_nat n @ u # rest) = format_nat n"
    "dropWhile is_digit (format_nat n @ u # rest) = u # rest"
    using d assms(2) by (simp_all add: takeWhile_append2 dropWhile_append2)
  have un: "takeWhile (\<lambda>c. c \<noteq> CHR ''.'' \<and> \<not> is_digit c) rest = []"
    "dropWhile (\<lambda>c. c \<noteq> CHR ''.'' \<and> \<not> is_digit c) rest = rest"
    using assms(4) by (cases rest; simp)+
  have "(2 ^ 63 div un) * un \<le> (2 ^ 63 :: int)"
    using div_mult_mod_eq [of "2 ^ 63" un] pos_mod_sign [OF assms(6), of "2 ^ 63"] by linarith
  then have "int n * un \<le> 2 ^ 63"
    using mult_right_mono [OF assms(5), of un] assms(6) by linarith
  then show ?thesis
    using assms(1,2,3,5) leading_int_format [OF n]
    by (simp add: duration_term_def Let_def tw un)
qed

lemma hd_format_nat: "is_digit (hd (format_nat n @ xs))" "is_digit (hd (format_nat n))"
  using format_nat_digits [of n] by (cases "format_nat n"; simp)+

lemma units_not_digit: "\<not> is_digit (CHR ''h'')" "\<not> is_digit (CHR ''m'')" "\<not> is_digit (CHR ''s'')"
  by (simp_all add: is_digit_def less_eq_char_def)

lemma unit_map_units:
  "unit_map ''h'' = Some Hour" "unit_map ''m'' = Some Minute" "unit_map ''s'' = Some Second"
  by (simp_all add: unit_map_def)

text \<open>One whole term of the text adds its value to the sum.\<close>

lemma duration_terms_whole:
  assumes "unit_map [u] = Some un" and "\<not> is_digit u" and "u \<noteq> CHR ''.''" and "0 < un"
    and "rest = [] \<or> is_digit (hd rest)" and "0 \<le> d" and "d + int n * un \<le> 2 ^ 63"
  shows "duration_terms d (format_nat n @ u # rest) = duration_terms (d + int n * un) rest"
proof -
  have "int n * un \<le> 2 ^ 63" and "0 \<le> int n * un" using assms by simp_all
  then have "int n \<le> 2 ^ 63 div un" using zdiv_mono1 [of "int n * un" "2 ^ 63" un] assms(4) by simp
  then have t: "duration_term (format_nat n @ u # rest) = Some (int n * un, rest)"
    using duration_term_whole assms by blast
  have "(d + int n * un) mod 2 ^ 64 = d + int n * un"
    using assms \<open>0 \<le> int n * un\<close> by simp
  then show ?thesis
    using t assms(7) by (simp add: duration_terms.simps [of d "format_nat n @ u # rest"] Let_def)
qed

lemma duration_String_terms:
  assumes "0 < k" and "int k * Second \<le> 2 ^ 63"
  shows "duration_terms 0 (duration_String (int k * Second)) = Some (int k * Second)"
proof -
  define h m r where "h = k div 3600" and "m = k div 60 mod 60" and "r = k mod 60"
  have k: "k = h * 3600 + m * 60 + r" proof -
    have "k div 3600 = k div 60 div 60" by (simp add: div_mult2_eq [symmetric])
    then show ?thesis unfolding h_def m_def r_def
      using div_mult_mod_eq [of k 60] div_mult_mod_eq [of "k div 60" 60] by linarith
  qed
  have sec: "(int k * Second) div Second = int k" by (simp add: Second_def)
  have S: "duration_terms d (format_nat r @ ''s'') = Some (d + int r * Second)"
    if "0 \<le> d" "d + int r * Second \<le> 2 ^ 63" for d
    using duration_terms_whole [OF unit_map_units(3) units_not_digit(3) _ _ _ that, of "[]"]
    by (simp add: Second_def duration_terms.simps [of _ "[]"])
  have M: "duration_terms d (format_nat m @ ''m'' @ format_nat r @ ''s'') = Some (d + int m * Minute + int r * Second)"
    if "0 \<le> d" "d + int m * Minute + int r * Second \<le> 2 ^ 63" for d
  proof -
    have "0 \<le> int r * Second" by (simp add: Second_def)
    with that show ?thesis
      using duration_terms_whole [OF unit_map_units(2) units_not_digit(2) _ _ _ that(1), of "format_nat r @ ''s''" m] S hd_format_nat
      by (simp add: Minute_def Second_def)
  qed
  have tot: "int h * Hour + int m * Minute + int r * Second = int k * Second"
    using k by (simp add: Hour_def Minute_def Second_def)
  show ?thesis
  proof (cases "h > 0")
    case True
    then have "k \<ge> 60" using k by simp
    moreover have "0 \<le> int m * Minute + int r * Second" by (simp add: Minute_def Second_def)
    ultimately show ?thesis
      using True assms(2) tot M [of "int h * Hour"] hd_format_nat
        duration_terms_whole [OF unit_map_units(1) units_not_digit(1) _ _ _ order_refl, of "format_nat m @ ''m'' @ format_nat r @ ''s''" h]
      by (simp add: duration_String_def sec Let_def h_def [symmetric] m_def [symmetric] r_def [symmetric] Hour_def Minute_def Second_def)
  next
    case False
    then have h0: "h = 0" by simp
    show ?thesis
    proof (cases "k \<ge> 60")
      case True
      then show ?thesis using M [of 0] assms(2) tot h0
        by (simp add: duration_String_def sec Let_def h_def [symmetric] m_def [symmetric] r_def [symmetric])
    next
      case False
      then have "m = 0" by (simp add: m_def)
      with k h0 have "r = k" by simp
      with \<open>m = 0\<close> show ?thesis using S [of 0] assms(2) h0 False
        by (simp add: duration_String_def sec Let_def h_def [symmetric] m_def [symmetric] r_def [symmetric])
    qed
  qed
qed

lemma duration_String_shape:
  "is_digit (hd (duration_String d))" "2 \<le> length (duration_String d)"
  "last (duration_String d) = CHR ''s''"
proof -
  have "0 < length (format_nat n)" for n by simp
  then have "Suc 0 \<le> length (format_nat n)" for n by (simp only: Suc_le_eq)
  then show "2 \<le> length (duration_String d)"
    by (simp add: duration_String_def Let_def add_increasing)
qed (simp_all add: duration_String_def Let_def hd_format_nat)

lemma ParseDuration_String:
  assumes "0 < k" and "int k * Second \<le> MaxInt64"
  shows "ParseDuration (duration_String (int k * Second)) = Inr (int k * Second, False)"
proof -
  let ?t = "duration_String (int k * Second)"
  have le: "int k * Second \<le> 2 ^ 63 - 1" and pos: "0 < int k * Second"
    using assms by (simp_all add: MaxInt64_def Second_def)
  have "hd ?t \<noteq> CHR ''-''" "hd ?t \<noteq> CHR ''+''"
    using duration_String_shape(1) [of "int k * Second"] by (auto simp: is_digit_def less_eq_char_def)
  moreover have "?t \<noteq> []" "?t \<noteq> ''0''" "?t \<noteq> DurationNever"
    using duration_String_shape [of "int k * Second"] by (auto simp: DurationNever_def)
  ultimately show ?thesis
    using duration_String_terms [OF assms(1)] le pos
    by (simp add: ParseDuration_def time_ParseDuration_def Let_def)
qed

text \<open>The text the control plane writes for a life of whole seconds parses back to that life, for
  every positive one a duration can hold.\<close>

theorem ParseDuration_duration_String:
  assumes "0 < k" and "int k * Second \<le> MaxInt64"
  shows "ParseDuration (duration_String (int k * Second)) = Inr (int k * Second, False)"
  by (rule ParseDuration_String [OF assms])

theorem ParseDuration_duration_String_witness:
  "duration_String (int 5430 * Second) = ''1h30m30s'' \<and> ParseDuration ''1h30m30s'' = Inr (5430 * Second, False)"
proof -
  have "duration_String (int 5430 * Second) = ''1h30m30s''" by code_simp
  then show ?thesis
    using ParseDuration_duration_String [of 5430] by (simp add: MaxInt64_def Second_def)
qed

end
