(* ===== verification/HostPattern.thy ===== *)
theory HostPattern
  imports Ordering
begin

text \<open>
  \<^verbatim>\<open>manifest/v1/hostpattern.go\<close>: the algebra of host patterns that the resolver, the egress
  compiler and the gateway's map share. A pattern is an exact name or a name under one leading
  wildcard. The theory gives every pattern the set of normalized names it reaches and shows
  that the textual tests are exactly containment and intersection of those sets.
\<close>

section \<open>The operations\<close>

definition NormalizeHost :: "string \<Rightarrow> string" where
  "NormalizeHost host =
     (let host = trim_suffix (to_lower (trim_space host)) ''.''
      in case last_index_byte host (CHR '':'') of
           Some i \<Rightarrow> if index_byte host (CHR '':'') = Some i \<and> CHR '']'' \<notin> set host then take i host else host
         | None \<Rightarrow> host)"

definition SplitHostPattern :: "string \<Rightarrow> string \<times> bool" where
  "SplitHostPattern pattern =
     (let s = NormalizeHost pattern
      in if s = [] then ([], False)
         else case cut_prefix s ''*.'' of
                Some rest \<Rightarrow> (rest, True)
              | None \<Rightarrow> (s, False))"

definition HostPatternCovers :: "string \<Rightarrow> string \<Rightarrow> bool" where
  "HostPatternCovers outer inner =
     (let (od, ow) = SplitHostPattern outer; (id, iw) = SplitHostPattern inner
      in if od = [] \<or> id = [] then False
         else if \<not> ow \<and> \<not> iw then od = id
         else if ow \<and> \<not> iw then has_suffix id (''.'' @ od)
         else if ow \<and> iw then id = od \<or> has_suffix id (''.'' @ od)
         else False)"

fun HostCovers :: "string list \<Rightarrow> string \<Rightarrow> bool" where
  "HostCovers [] inner = False"
| "HostCovers (p # ps) inner = (if HostPatternCovers p inner then True else HostCovers ps inner)"

text \<open>The loop of \<^verbatim>\<open>HostMatches\<close> over an already normalized host.\<close>

fun matches_any :: "string list \<Rightarrow> string \<Rightarrow> bool" where
  "matches_any [] host = False"
| "matches_any (p # ps) host =
     (let (d, wildcard) = SplitHostPattern p
      in if d = [] then matches_any ps host
         else if wildcard then (if has_suffix host (''.'' @ d) then True else matches_any ps host)
         else if host = d then True
         else matches_any ps host)"

definition HostMatches :: "string list \<Rightarrow> string \<Rightarrow> bool" where
  "HostMatches patterns host =
     (let host = NormalizeHost host in if host = [] then False else matches_any patterns host)"

text \<open>\<^verbatim>\<open>hostsOverlap\<close> of \<^verbatim>\<open>egress/egress.go\<close>.\<close>

definition hostsOverlap :: "string \<Rightarrow> string \<Rightarrow> bool" where
  "hostsOverlap a b \<longleftrightarrow> HostPatternCovers a b \<or> HostPatternCovers b a"

section \<open>What a pattern reaches\<close>

definition pattern_reach :: "string \<Rightarrow> string set" where
  "pattern_reach p =
     (let (d, wildcard) = SplitHostPattern p
      in if d = [] then {} else if wildcard then {h. suffix (''.'' @ d) h} else {d})"

definition reach :: "string list \<Rightarrow> string set" where
  "reach ps = (\<Union>p \<in> set ps. pattern_reach p)"

lemma matches_any_reach [go_str]: "matches_any ps h \<longleftrightarrow> h \<in> reach ps"
  by (induction ps)
    (auto simp: reach_def pattern_reach_def has_suffix_iff split: prod.splits if_splits)

lemma HostMatches_reach [go_str]:
  "HostMatches ps h \<longleftrightarrow> NormalizeHost h \<noteq> [] \<and> NormalizeHost h \<in> reach ps"
  by (simp add: HostMatches_def Let_def matches_any_reach)

lemma reach_Nil [simp]: "reach [] = {}"
  by (simp add: reach_def)

lemma reach_Cons [simp]: "reach (p # ps) = pattern_reach p \<union> reach ps"
  by (simp add: reach_def)

lemma reach_append [simp]: "reach (ps @ qs) = reach ps \<union> reach qs"
  by (auto simp: reach_def)

lemma reach_set_cong: "set ps = set qs \<Longrightarrow> reach ps = reach qs"
  by (simp add: reach_def)

lemma reach_mono: "set ps \<subseteq> set qs \<Longrightarrow> reach ps \<subseteq> reach qs"
  by (auto simp: reach_def)

lemma pattern_reach_not_empty_name: "[] \<notin> pattern_reach p"
  by (auto simp: pattern_reach_def suffix_def split: prod.splits if_splits)

lemma suffix_dot: "suffix (CHR ''.'' # d) (CHR ''.'' # e) \<longleftrightarrow> d = e \<or> suffix (CHR ''.'' # d) e"
  by (auto simp: suffix_Cons)

lemma suffix_comparable:
  assumes "suffix (CHR ''.'' # d) h" and "suffix (CHR ''.'' # e) h"
  shows "d = e \<or> suffix (CHR ''.'' # d) e \<or> suffix (CHR ''.'' # e) d"
  using suffix_same_cases [OF assms] by (auto simp: suffix_Cons)

lemma wildcard_not_single: "\<not> {h. suffix (CHR ''.'' # d) h} \<subseteq> {e}"
proof
  assume "{h. suffix (CHR ''.'' # d) h} \<subseteq> {e}"
  then have "CHR ''.'' # d = e" and "CHR ''a'' # CHR ''.'' # d = e"
    by (auto simp: suffix_def subset_iff)
  then show False by simp
qed

lemma covers_iff_subset:
  "HostPatternCovers outer inner \<longleftrightarrow>
     pattern_reach inner \<noteq> {} \<and> pattern_reach inner \<subseteq> pattern_reach outer"
proof -
  obtain od ow id iw where s: "SplitHostPattern outer = (od, ow)" "SplitHostPattern inner = (id, iw)"
    by fastforce
  have ne: "{h. suffix (CHR ''.'' # id) h} \<noteq> {}" by auto
  have sub: "{h. suffix (CHR ''.'' # id) h} \<subseteq> {h. suffix (CHR ''.'' # od) h} \<longleftrightarrow> suffix (CHR ''.'' # od) (CHR ''.'' # id)"
    by (auto intro: suffix_order.trans)
  show ?thesis
    using ne sub wildcard_not_single [of id od]
    by (auto simp: HostPatternCovers_def pattern_reach_def s has_suffix_iff suffix_dot)
qed

lemma overlap_iff_common: "hostsOverlap a b \<longleftrightarrow> pattern_reach a \<inter> pattern_reach b \<noteq> {}"
proof
  assume "hostsOverlap a b"
  then show "pattern_reach a \<inter> pattern_reach b \<noteq> {}"
    by (auto simp: hostsOverlap_def covers_iff_subset)
next
  assume "pattern_reach a \<inter> pattern_reach b \<noteq> {}"
  then show "hostsOverlap a b"
    by (auto simp: hostsOverlap_def HostPatternCovers_def pattern_reach_def has_suffix_iff Let_def
        split: prod.splits if_splits dest: suffix_comparable)
qed

text \<open>C13: the textual test of the host rule is exactly containment: one pattern covers another when
  and only when the other reaches something and everything it reaches is reached by the first.
  So a wildcard covers neither its own apex nor a sibling, an exact name covers no wildcard, and
  no pair of patterns is misjudged.\<close>

theorem HostPatternCovers_iff_subset:
  "HostPatternCovers outer inner \<longleftrightarrow>
     pattern_reach inner \<noteq> {} \<and> pattern_reach inner \<subseteq> pattern_reach outer"
  by (rule covers_iff_subset)

text \<open>Two patterns overlap, in the symmetric reading of the coverage rule, exactly when some name
  is reached by both: two wildcards that do not contain one another are disjoint.\<close>

theorem hostsOverlap_iff_common_host:
  "hostsOverlap a b \<longleftrightarrow> (\<exists>h. h \<in> pattern_reach a \<and> h \<in> pattern_reach b)"
  by (auto simp: overlap_iff_common)

lemma HostCovers_iff: "HostCovers ps inner \<longleftrightarrow> (\<exists>p \<in> set ps. HostPatternCovers p inner)"
  by (induction ps) auto

lemma HostCovers_reach: "HostCovers ps inner \<Longrightarrow> pattern_reach inner \<subseteq> reach ps"
  by (fastforce simp: HostCovers_iff reach_def covers_iff_subset)

end
