(* ===== verification/Manifest_V1.thy ===== *)
theory Manifest_V1
  imports Ordering
begin

text \<open>
  The types of \<^verbatim>\<open>manifest/v1\<close>: the objects of the API contract as records, field by field.
  A pointer is an option, a Go map is an association list with distinct keys, a quantity and a
  duration are the caller's own spelling, and a word of a fixed vocabulary is the string that
  the contract spells it with.
\<close>

type_synonym Quantity = string
type_synonym Duration = string
type_synonym EgressMode = string
type_synonym Expose = string
type_synonym strmap = "(string \<times> string) list"

section \<open>The sandbox's spec (\<^verbatim>\<open>sandbox.go\<close>, \<^verbatim>\<open>network.go\<close>)\<close>

record Metadata =
  md_Name :: string
  md_Labels :: strmap
  md_Annotations :: strmap

record ResourceMax =
  mx_CPU :: Quantity
  mx_Memory :: Quantity
  mx_Disk :: Quantity

record Resources =
  rs_CPU :: Quantity
  rs_Memory :: Quantity
  rs_Disk :: Quantity
  rs_Max :: ResourceMax

record Workspace =
  ws_Path :: string
  ws_Source :: string
  ws_Host :: string

record SecretMount =
  sm_Name :: string
  sm_Env :: string

record VolumeMount =
  vm_Name :: string
  vm_Path :: string
  vm_Volume :: string
  vm_ReadOnly :: bool

record Egress =
  eg_Mode :: EgressMode
  eg_AllowedHosts :: "string list"
  eg_DeniedHosts :: "string list"

record Port =
  pt_Name :: string
  pt_Port :: int
  pt_Expose :: Expose

record Network =
  nw_Egress :: Egress
  nw_Ports :: "Port list"

record Spawn =
  sw_Budget :: int
  sw_Depth :: int

record Mesh =
  ms_Enabled :: bool
  ms_Spawn :: Spawn

record Lifecycle =
  lc_AutoStop :: Duration
  lc_TTL :: Duration
  lc_AutoDelete :: Duration

record Scheduling =
  sc_Priority :: int
  sc_Queue :: string
  sc_StartDeadline :: Duration
  sc_Preemptible :: bool

record Display =
  dp_Width :: int
  dp_Height :: int

record SandboxSpec =
  sp_Environment :: string
  sp_Image :: string
  sp_Command :: "string list"
  sp_Args :: "string list"
  sp_Workdir :: string
  sp_User :: string
  sp_Resources :: Resources
  sp_Workspace :: Workspace
  sp_Env :: strmap
  sp_Secrets :: "SecretMount list"
  sp_Volumes :: "VolumeMount list"
  sp_Network :: Network
  sp_Mesh :: Mesh
  sp_Lifecycle :: Lifecycle
  sp_Scheduling :: Scheduling
  sp_Display :: "Display option"

section \<open>The sandbox's status (\<^verbatim>\<open>sandbox.go\<close>, \<^verbatim>\<open>secret.go\<close>, \<^verbatim>\<open>volume.go\<close>)\<close>

record SpawnStatus =
  ss_Budget :: int
  ss_Used :: int
  ss_Depth :: int

record Condition =
  cd_Type :: string
  cd_Status :: string
  cd_Reason :: string
  cd_Message :: string
  cd_Since :: gotime

record SandboxPaths =
  pa_Home :: string
  pa_Tmp :: string

record PortStatus =
  ps_Name :: string
  ps_Port :: int
  ps_State :: string
  ps_URL :: string

record SecretsStatus =
  sx_Mounted :: "string list"
  sx_NotInjectable :: "string list"

record VolumeAttachment =
  va_Name :: string
  va_Volume :: string
  va_Attached :: bool

record Size =
  sz_CPU :: Quantity
  sz_Memory :: Quantity
  sz_Disk :: Quantity

record Usage =
  us_Memory :: int
  us_ReadAt :: gotime

record MountedSecret =
  mt_Name :: string
  mt_ID :: string
  mt_Env :: string
  mt_Placeholder :: string

record EgressState =
  es_Credential :: string
  es_Version :: int
  es_Secrets :: "MountedSecret list"
  es_EnvDigest :: string

record TokenState =
  tk_JTI :: string
  tk_IssuedAt :: gotime
  tk_ExpiresAt :: gotime

record SandboxStatus =
  st_ID :: string
  st_Owner :: string
  st_Environment :: string
  st_Driver :: string
  st_Isolation :: string
  st_Phase :: string
  st_Parent :: string
  st_Root :: string
  st_Mesh :: string
  st_Spawn :: SpawnStatus
  st_Conditions :: "Condition list"
  st_Paths :: "SandboxPaths option"
  st_Ports :: "PortStatus list"
  st_Secrets :: SecretsStatus
  st_Volumes :: "VolumeAttachment list"
  st_CreatedAt :: gotime
  st_StartedAt :: gotime
  st_StoppedAt :: gotime
  st_LastActivityAt :: gotime
  st_ExpiresAt :: gotime
  st_ExitCode :: "int option"
  st_Reason :: string
  st_Preemptions :: int
  st_Resources :: Size
  st_Usage :: "Usage option"
  st_Moves :: int
  st_Warnings :: "string list"
  st_EgressState :: "EgressState option"
  st_TokenState :: "TokenState option"

record Sandbox =
  sb_APIVersion :: string
  sb_Kind :: string
  sb_Metadata :: Metadata
  sb_Spec :: SandboxSpec
  sb_Status :: SandboxStatus

definition SandboxStatus0 :: SandboxStatus where
  "SandboxStatus0 = \<lparr>st_ID = [], st_Owner = [], st_Environment = [], st_Driver = [], st_Isolation = [],
     st_Phase = [], st_Parent = [], st_Root = [], st_Mesh = [],
     st_Spawn = \<lparr>ss_Budget = 0, ss_Used = 0, ss_Depth = 0\<rparr>, st_Conditions = [], st_Paths = None,
     st_Ports = [], st_Secrets = \<lparr>sx_Mounted = [], sx_NotInjectable = []\<rparr>, st_Volumes = [],
     st_CreatedAt = 0, st_StartedAt = 0, st_StoppedAt = 0, st_LastActivityAt = 0, st_ExpiresAt = 0,
     st_ExitCode = None, st_Reason = [], st_Preemptions = 0,
     st_Resources = \<lparr>sz_CPU = [], sz_Memory = [], sz_Disk = []\<rparr>, st_Usage = None, st_Moves = 0,
     st_Warnings = [], st_EgressState = None, st_TokenState = None\<rparr>"

definition SandboxSpec0 :: SandboxSpec where
  "SandboxSpec0 = \<lparr>sp_Environment = [], sp_Image = [], sp_Command = [], sp_Args = [], sp_Workdir = [],
     sp_User = [],
     sp_Resources = \<lparr>rs_CPU = [], rs_Memory = [], rs_Disk = [], rs_Max = \<lparr>mx_CPU = [], mx_Memory = [], mx_Disk = []\<rparr>\<rparr>,
     sp_Workspace = \<lparr>ws_Path = [], ws_Source = [], ws_Host = []\<rparr>, sp_Env = [], sp_Secrets = [],
     sp_Volumes = [],
     sp_Network = \<lparr>nw_Egress = \<lparr>eg_Mode = [], eg_AllowedHosts = [], eg_DeniedHosts = []\<rparr>, nw_Ports = []\<rparr>,
     sp_Mesh = \<lparr>ms_Enabled = False, ms_Spawn = \<lparr>sw_Budget = 0, sw_Depth = 0\<rparr>\<rparr>,
     sp_Lifecycle = \<lparr>lc_AutoStop = [], lc_TTL = [], lc_AutoDelete = []\<rparr>,
     sp_Scheduling = \<lparr>sc_Priority = 0, sc_Queue = [], sc_StartDeadline = [], sc_Preemptible = False\<rparr>,
     sp_Display = None\<rparr>"

section \<open>Environments (\<^verbatim>\<open>environment.go\<close>, \<^verbatim>\<open>runtime.go\<close>, \<^verbatim>\<open>host.go\<close>)\<close>

record Autosize =
  az_CPU :: bool
  az_Memory :: bool
  az_Disk :: bool

definition Autosize_And :: "Autosize \<Rightarrow> Autosize \<Rightarrow> Autosize" where
  "Autosize_And a other =
     \<lparr>az_CPU = (az_CPU a \<and> az_CPU other), az_Memory = (az_Memory a \<and> az_Memory other),
      az_Disk = (az_Disk a \<and> az_Disk other)\<rparr>"

record Capabilities =
  cp_Egress :: "EgressMode list"
  cp_Mesh :: bool
  cp_Ingress :: bool
  cp_Volumes :: bool
  cp_VolumeImages :: bool
  cp_Snapshots :: bool
  cp_Attach :: bool
  cp_Dial :: bool
  cp_Display :: bool
  cp_Input :: bool
  cp_Resize :: bool
  cp_Pool :: bool
  cp_Files :: bool
  cp_Detach :: bool
  cp_HostWorkspace :: bool
  cp_ExecStdin :: bool
  cp_EgressLocal :: bool
  cp_Autosize :: Autosize

record HostGrant =
  hg_Path :: string
  hg_Write :: bool

record HostNetwork =
  hn_Mode :: string
  hn_Hosts :: "string list"
  hn_Blocked :: "string list"

record HostInfo =
  hi_OS :: string
  hi_Arch :: string
  hi_Grants :: "HostGrant list"
  hi_Network :: HostNetwork

record HostStatus =
  hs_Worker :: string
  hs_Host :: HostInfo

record Capacity =
  ca_CPU :: Quantity
  ca_Memory :: Quantity
  ca_Disk :: Quantity
  ca_Sandboxes :: int
  ca_Auto :: bool

definition Capacity0 :: Capacity where
  "Capacity0 = \<lparr>ca_CPU = [], ca_Memory = [], ca_Disk = [], ca_Sandboxes = 0, ca_Auto = False\<rparr>"

definition Capacity_IsZero :: "Capacity \<Rightarrow> bool" where
  "Capacity_IsZero c \<longleftrightarrow>
     \<not> ca_Auto c \<and> ca_CPU c = [] \<and> ca_Memory c = [] \<and> ca_Disk c = [] \<and> ca_Sandboxes c = 0"

record SchedulingSpec =
  ds_Mode :: string
  ds_Queues :: "string list"
  ds_DefaultQueue :: string

record PoolSpec =
  pl_Size :: int
  pl_Image :: string
  pl_Resources :: Resources
  pl_Display :: "Display option"

record WorkersSpec =
  wk_Max :: int

record EnvironmentSpec =
  en_Mode :: string
  en_Isolation :: string
  en_Capacity :: Capacity
  en_Scheduling :: SchedulingSpec
  en_Pool :: PoolSpec
  en_WorkspaceClass :: string
  en_Gateway :: string
  en_Workers :: WorkersSpec

record EnvironmentStatus =
  et_ID :: string
  et_Owner :: string
  et_Phase :: string
  et_Reason :: string
  et_Driver :: string
  et_Isolation :: string
  et_Capabilities :: Capabilities
  et_Workers :: int
  et_Hosts :: "HostStatus list"
  et_Gateways :: int
  et_LastHeartbeat :: gotime
  et_Used :: Capacity
  et_Version :: int
  et_CreatedAt :: gotime
  et_UpdatedAt :: gotime

record Environment =
  ev_APIVersion :: string
  ev_Kind :: string
  ev_Metadata :: Metadata
  ev_Spec :: EnvironmentSpec
  ev_Status :: EnvironmentStatus

section \<open>Secrets and volumes (\<^verbatim>\<open>secret.go\<close>, \<^verbatim>\<open>volume.go\<close>)\<close>

record SecretScope =
  sk_Hosts :: "string list"
  sk_Ports :: "int list"

record SecretInject =
  si_Header :: string
  si_Scheme :: string
  si_Query :: string
  si_Body :: bool

record SecretOAuth =
  so_TokenURL :: string
  so_Scope :: string
  so_Audience :: string

record SecretSpec =
  se_Kind :: string
  se_Scope :: SecretScope
  se_Inject :: SecretInject
  se_OAuth :: "SecretOAuth option"
  se_Value :: string

record SecretStatus =
  su_ID :: string
  su_Owner :: string
  su_Version :: int
  su_CreatedAt :: gotime
  su_UpdatedAt :: gotime
  su_MountedBy :: int
  su_LastUsedAt :: gotime

definition SecretLastUsedResolution :: duration where "SecretLastUsedResolution = 5 * Minute"

record Secret =
  sec_APIVersion :: string
  sec_Kind :: string
  sec_Metadata :: Metadata
  sec_Spec :: SecretSpec
  sec_Status :: SecretStatus

record VolumeSource =
  vs_Kind :: string
  vs_Snapshot :: string
  vs_Image :: string
  vs_Archive :: string
  vs_SHA256 :: string

record VolumeSpec =
  vp_Environment :: string
  vp_Size :: Quantity
  vp_Class :: string
  vp_Access :: string
  vp_Source :: VolumeSource
  vp_Retain :: "bool option"

definition VolumeSpec_Retains :: "VolumeSpec \<Rightarrow> bool" where
  "VolumeSpec_Retains s = (case vp_Retain s of None \<Rightarrow> True | Some r \<Rightarrow> r)"

record VolumeStatus =
  vt_ID :: string
  vt_Owner :: string
  vt_Phase :: string
  vt_Reason :: string
  vt_Message :: string
  vt_AttachedTo :: "string list"
  vt_Capacity :: Quantity
  vt_CreatedAt :: gotime
  vt_UpdatedAt :: gotime

record Volume =
  vo_APIVersion :: string
  vo_Kind :: string
  vo_Metadata :: Metadata
  vo_Spec :: VolumeSpec
  vo_Status :: VolumeStatus

end
