(* ===== verification/Paths.thy ===== *)
theory Paths
  imports Ordering
begin

text \<open>
  Slash-separated paths: \<^verbatim>\<open>path.Clean\<close> and \<^verbatim>\<open>path.IsAbs\<close> of Go's library, the \<^verbatim>\<open>nests\<close> test of
  \<^verbatim>\<open>manifest/volumeref.go\<close> and the \<^verbatim>\<open>Within\<close> test of \<^verbatim>\<open>manifest/v1/host.go\<close>. A rooted clean path
  is determined by its components, and the textual tests are prefix tests on the components.
\<close>

section \<open>Splitting and joining\<close>

fun split_on :: "char \<Rightarrow> string \<Rightarrow> string list" where
  "split_on c [] = [[]]"
| "split_on c (x # xs) =
     (if x = c then [] # split_on c xs
      else case split_on c xs of [] \<Rightarrow> [[x]] | w # ws \<Rightarrow> (x # w) # ws)"

fun join_with :: "string \<Rightarrow> string list \<Rightarrow> string" where
  "join_with sep [] = []"
| "join_with sep [w] = w"
| "join_with sep (w # v # ws) = w @ sep @ join_with sep (v # ws)"

section \<open>Cleaning\<close>

text \<open>The components kept so far are a stack, the last one on top.\<close>

fun clean_parts :: "bool \<Rightarrow> string list \<Rightarrow> string list \<Rightarrow> string list" where
  "clean_parts rooted out [] = rev out"
| "clean_parts rooted out (p # ps) =
     (if p = [] \<or> p = ''.'' then clean_parts rooted out ps
      else if p = ''..'' then
        (if out \<noteq> [] \<and> hd out \<noteq> ''..'' then clean_parts rooted (tl out) ps
         else if rooted then clean_parts rooted out ps
         else clean_parts rooted (p # out) ps)
      else clean_parts rooted (p # out) ps)"

definition path_IsAbs :: "string \<Rightarrow> bool" where
  "path_IsAbs p = has_prefix p ''/''"

definition path_Clean :: "string \<Rightarrow> string" where
  "path_Clean p =
     (if p = [] then ''.''
      else let rooted = path_IsAbs p; out = clean_parts rooted [] (split_on (CHR ''/'') p)
           in if rooted then ''/'' @ join_with ''/'' out
              else if out = [] then ''.'' else join_with ''/'' out)"

definition absoluteCleanPath :: "string \<Rightarrow> bool" where
  "absoluteCleanPath p \<longleftrightarrow> path_IsAbs p \<and> path_Clean p = p"

definition nests :: "string \<Rightarrow> string \<Rightarrow> bool" where
  "nests a b \<longleftrightarrow> a = b \<or> has_prefix a (b @ ''/'') \<or> has_prefix b (a @ ''/'')"

definition Within :: "string \<Rightarrow> string \<Rightarrow> bool" where
  "Within root p =
     (if root = [] \<or> p = [] then False
      else let root = path_Clean root; p = path_Clean p
           in p = root \<or> root = ''/'' \<or> has_prefix p (root @ ''/''))"

section \<open>Components\<close>

text \<open>The components a rooted path names, after cleaning.\<close>

definition components :: "string \<Rightarrow> string list" where
  "components p = clean_parts True [] (split_on (CHR ''/'') p)"

text \<open>A list of components as cleaning leaves them.\<close>

definition plain_parts :: "string list \<Rightarrow> bool" where
  "plain_parts ws \<longleftrightarrow> (\<forall>w \<in> set ws. w \<noteq> [] \<and> CHR ''/'' \<notin> set w)"

lemma split_on_nonempty [simp]: "split_on c s \<noteq> []"
  by (cases s) (auto split: list.splits)

lemma split_on_free: "w \<in> set (split_on c s) \<Longrightarrow> c \<notin> set w"
  by (induction s arbitrary: w) (auto split: if_splits list.splits)

lemma clean_parts_member:
  "w \<in> set (clean_parts rooted out ps) \<Longrightarrow> w \<in> set out \<or> w \<in> set ps \<and> w \<noteq> []"
proof (induction rooted out ps rule: clean_parts.induct)
  case (2 rooted out p ps)
  consider "p = [] \<or> p = ''.''" | "p = ''..''" "out \<noteq> [] \<and> hd out \<noteq> ''..''" | "p = ''..''" "\<not> (out \<noteq> [] \<and> hd out \<noteq> ''..'')"
    | "p \<notin> {[], ''.'', ''..''}" by blast
  then show ?case
    by cases (use 2 in \<open>auto split: if_splits dest: list.set_sel(2) [rotated]\<close>)
qed simp

lemma components_plain: "plain_parts (components p)"
  by (auto simp: plain_parts_def components_def dest!: clean_parts_member split_on_free)

lemma path_Clean_rooted: "path_IsAbs p \<Longrightarrow> path_Clean p = CHR ''/'' # join_with ''/'' (components p)"
  by (auto simp: path_Clean_def components_def Let_def path_IsAbs_def has_prefix_iff)

text \<open>A joined list of plain components is read back component by component.\<close>

lemma plain_split:
  "c \<notin> set w \<Longrightarrow> split_on c (w @ c # s) = w # split_on c s"
  "c \<notin> set w \<Longrightarrow> split_on c w = [w]"
  by (induction w) auto

lemma split_join:
  "plain_parts ws \<Longrightarrow> ws \<noteq> [] \<Longrightarrow> split_on (CHR ''/'') (join_with ''/'' ws) = ws"
  by (induction ws rule: induct_list012) (auto simp: plain_parts_def plain_split)

lemma join_inj:
  assumes "plain_parts ws" and "plain_parts vs" and "join_with ''/'' ws = join_with ''/'' vs"
  shows "ws = vs"
proof -
  have ne: "plain_parts us \<Longrightarrow> us \<noteq> [] \<Longrightarrow> join_with ''/'' us \<noteq> []" for us
    by (induction us rule: induct_list012) (auto simp: plain_parts_def)
  show ?thesis
    using assms ne split_join by (metis join_with.simps(1))
qed

lemma join_append: "vs \<noteq> [] \<Longrightarrow> ws \<noteq> [] \<Longrightarrow> join_with s (ws @ vs) = join_with s ws @ s @ join_with s vs"
  by (induction s ws rule: join_with.induct) (auto simp: neq_Nil_conv)

lemma join_prefix_split:
  assumes "plain_parts ws" and "plain_parts vs" and "ws \<noteq> []"
    and "prefix (join_with ''/'' ws @ ''/'') (join_with ''/'' vs)"
  shows "prefix ws vs"
proof -
  obtain r where r: "join_with ''/'' vs = join_with ''/'' ws @ CHR ''/'' # r"
    using assms(4) by (auto simp: prefix_def)
  have "split_on (CHR ''/'') (join_with ''/'' ws @ CHR ''/'' # r) = ws @ split_on (CHR ''/'') r"
    using assms(1,3)
    by (induction ws rule: induct_list012) (auto simp: plain_parts_def plain_split)
  moreover have "vs \<noteq> []" using r by auto
  ultimately have "vs = ws @ split_on (CHR ''/'') r"
    using split_join [OF assms(2)] r by simp
  then show ?thesis by simp
qed

lemma within_iff_prefix:
  assumes "path_IsAbs root" and "path_IsAbs p"
  shows "Within root p \<longleftrightarrow> prefix (components root) (components p)"
proof -
  let ?r = "components root" and ?p = "components p"
  have ne: "root \<noteq> []" "p \<noteq> []" using assms by (auto simp: path_IsAbs_def has_prefix_iff)
  have w: "Within root p \<longleftrightarrow> join_with ''/'' ?p = join_with ''/'' ?r \<or> join_with ''/'' ?r = []
      \<or> prefix (join_with ''/'' ?r @ ''/'') (join_with ''/'' ?p)"
    using ne by (simp add: Within_def Let_def path_Clean_rooted assms has_prefix_iff)
  note plain = components_plain [of root] components_plain [of p]
  show ?thesis
  proof
    assume "Within root p"
    then show "prefix ?r ?p"
      using w join_inj [OF plain(2) plain(1)] join_inj [OF plain(1), of "[]"]
        join_prefix_split [OF plain] by (cases "?r = []") (auto simp: plain_parts_def)
  next
    assume "prefix ?r ?p"
    then obtain t where t: "?p = ?r @ t" by (auto simp: prefix_def)
    show "Within root p"
      using w t by (cases "t = []"; cases "?r = []") (auto simp: join_append)
  qed
qed

text \<open>C11: for rooted paths the textual containment test reads components: a path is within a root
  exactly when the root's cleaned components are a prefix of the path's, so a sibling that
  shares leading bytes is outside and a path that climbs out with a dot-dot has left.\<close>

theorem Within_iff_component_prefix:
  assumes "path_IsAbs root" and "path_IsAbs p"
  shows "Within root p \<longleftrightarrow> prefix (components root) (components p)"
  by (rule within_iff_prefix [OF assms])

theorem Within_iff_component_prefix_witness:
  "Within ''/srv/a'' ''/srv/./a/b/../c'' \<and> \<not> Within ''/srv/a'' ''/srv/a/../b''"
proof -
  have "Within ''/srv/a'' p \<longleftrightarrow> prefix (components ''/srv/a'') (components p)" if "path_IsAbs p" for p
    by (rule Within_iff_component_prefix) (use that in \<open>simp_all add: path_IsAbs_def has_prefix_def\<close>)
  moreover have "path_IsAbs ''/srv/./a/b/../c''" "path_IsAbs ''/srv/a/../b''"
    "prefix (components ''/srv/a'') (components ''/srv/./a/b/../c'')"
    "\<not> prefix (components ''/srv/a'') (components ''/srv/a/../b'')"
    by code_simp+
  ultimately show ?thesis by blast
qed

lemma components_clean: "absoluteCleanPath p \<Longrightarrow> p = CHR ''/'' # join_with ''/'' (components p)"
  unfolding absoluteCleanPath_def using path_Clean_rooted by metis

lemma nests_iff_prefix:
  assumes "absoluteCleanPath a" and "absoluteCleanPath b" and "a \<noteq> ''/''" and "b \<noteq> ''/''"
  shows "nests a b \<longleftrightarrow> Within a b \<or> Within b a"
proof -
  have "a \<noteq> []" "b \<noteq> []" "path_Clean a = a" "path_Clean b = b"
    using assms by (auto simp: absoluteCleanPath_def path_IsAbs_def has_prefix_iff)
  then show ?thesis
    using assms by (auto simp: nests_def Within_def Let_def)
qed

end
