(* ===== verification/HostNetworks.thy ===== *)
theory HostNetworks
  imports HostPattern Manifest_V1 Paths
begin

text \<open>
  The functions of \<^verbatim>\<open>manifest/v1/host.go\<close> and the mode order of \<^verbatim>\<open>manifest/v1/network.go\<close>: which
  folder grant decides a path, what the hosts serving an environment allow together, and what a
  sandbox's egress is narrowed to on them. Every egress rule is given the set of names it
  reaches, and the theorems are inclusions between those sets.
\<close>

section \<open>Words of the contract\<close>

definition EgressNone :: EgressMode where "EgressNone = ''none''"
definition EgressAllowlist :: EgressMode where "EgressAllowlist = ''allowlist''"
definition EgressOpen :: EgressMode where "EgressOpen = ''open''"

lemmas egress_words = EgressNone_def EgressAllowlist_def EgressOpen_def

lemma egress_words_distinct [simp]:
  "EgressNone \<noteq> EgressAllowlist" "EgressAllowlist \<noteq> EgressNone" "EgressNone \<noteq> EgressOpen"
  "EgressOpen \<noteq> EgressNone" "EgressOpen \<noteq> EgressAllowlist" "EgressAllowlist \<noteq> EgressOpen"
  "EgressNone \<noteq> []" "EgressAllowlist \<noteq> []" "EgressOpen \<noteq> []"
  by (simp_all add: egress_words)

definition EgressModeOrder :: "EgressMode list" where
  "EgressModeOrder = [EgressOpen, EgressAllowlist, EgressNone]"

fun index_of :: "'a \<Rightarrow> 'a list \<Rightarrow> int \<Rightarrow> int" where
  "index_of x [] i = -1"
| "index_of x (y # ys) i = (if y = x then i else index_of x ys (i + 1))"

definition EgressModeRank :: "EgressMode \<Rightarrow> int" where
  "EgressModeRank m = index_of m EgressModeOrder 0"

definition egress_none :: Egress where
  "egress_none = \<lparr>eg_Mode = EgressNone, eg_AllowedHosts = [], eg_DeniedHosts = []\<rparr>"

section \<open>Folder grants\<close>

fun grant_loop :: "HostGrant option \<Rightarrow> HostGrant list \<Rightarrow> string \<Rightarrow> HostGrant option" where
  "grant_loop found [] p = found"
| "grant_loop found (g # gs) p =
     (if \<not> Within (hg_Path g) p then grant_loop found gs p
      else case found of
             None \<Rightarrow> grant_loop (Some g) gs p
           | Some f \<Rightarrow> if length (hg_Path g) > length (hg_Path f) then grant_loop (Some g) gs p
                      else grant_loop found gs p)"

definition HostInfo_Grant :: "HostInfo \<Rightarrow> string \<Rightarrow> HostGrant option" where
  "HostInfo_Grant h p = grant_loop None (hi_Grants h) p"

section \<open>The network of several hosts\<close>

definition unblocked :: "string list \<Rightarrow> string list \<Rightarrow> string list" where
  "unblocked patterns blocked =
     filter (\<lambda>p. \<not> list_ex (\<lambda>b. HostPatternCovers b p \<or> HostPatternCovers p b) blocked) patterns"

text \<open>The append loop over the blocked names: each name once, in the order met.\<close>

fun append_new :: "'a list \<Rightarrow> 'a list \<Rightarrow> 'a list" where
  "append_new xs [] = xs"
| "append_new xs (b # bs) = append_new (if b \<in> set xs then xs else xs @ [b]) bs"

text \<open>The flags \<^verbatim>\<open>listed\<close> and \<^verbatim>\<open>opened\<close> are the two options being set; the result is None
  where the second result of \<^verbatim>\<open>HostNetworkOf\<close> is false.\<close>

fun host_networks :: "HostNetwork option \<Rightarrow> HostNetwork option \<Rightarrow> HostInfo list \<Rightarrow> HostNetwork option" where
  "host_networks list opn [] =
     (case (list, opn) of
        (Some l, Some o') \<Rightarrow> Some (l\<lparr>hn_Hosts := unblocked (hn_Hosts l) (hn_Blocked o')\<rparr>)
      | (Some l, None) \<Rightarrow> Some l
      | (None, Some o') \<Rightarrow> Some o'
      | (None, None) \<Rightarrow> None)"
| "host_networks list opn (h # hs) =
     (let n = hi_Network h
      in if hn_Mode n = [] then host_networks list opn hs
         else if hn_Mode n = EgressAllowlist then
           (case list of
              None \<Rightarrow> host_networks (Some \<lparr>hn_Mode = EgressAllowlist, hn_Hosts = hn_Hosts n, hn_Blocked = []\<rparr>) opn hs
            | Some l \<Rightarrow> host_networks (Some (l\<lparr>hn_Hosts := filter (\<lambda>x. x \<in> set (hn_Hosts n)) (hn_Hosts l)\<rparr>)) opn hs)
         else if hn_Mode n = EgressOpen then
           (case opn of
              None \<Rightarrow> host_networks list (Some \<lparr>hn_Mode = EgressOpen, hn_Hosts = hn_Hosts n, hn_Blocked = hn_Blocked n\<rparr>) hs
            | Some o' \<Rightarrow> host_networks list
                (Some (o'\<lparr>hn_Hosts := filter (\<lambda>x. x \<in> set (hn_Hosts n)) (hn_Hosts o'),
                         hn_Blocked := append_new (hn_Blocked o') (hn_Blocked n)\<rparr>)) hs)
         else Some \<lparr>hn_Mode = EgressNone, hn_Hosts = [], hn_Blocked = []\<rparr>)"

definition HostNetworkOf :: "HostInfo list \<Rightarrow> HostNetwork option" where
  "HostNetworkOf hosts = host_networks None None hosts"

section \<open>Narrowing an egress\<close>

definition narrowToList :: "Egress \<Rightarrow> HostNetwork \<Rightarrow> Egress" where
  "narrowToList asked host =
     (let kept = (if eg_Mode asked = EgressAllowlist
                  then filter (HostCovers (hn_Hosts host)) (eg_AllowedHosts asked)
                  else if eg_Mode asked = EgressOpen
                  then filter (\<lambda>h. \<not> HostCovers (eg_DeniedHosts asked) h) (hn_Hosts host)
                  else [])
      in if kept = [] then egress_none
         else \<lparr>eg_Mode = EgressAllowlist, eg_AllowedHosts = kept, eg_DeniedHosts = []\<rparr>)"

definition narrowToOpen :: "Egress \<Rightarrow> HostNetwork \<Rightarrow> Egress" where
  "narrowToOpen asked host =
     (if eg_Mode asked = EgressAllowlist
      then let kept = unblocked (eg_AllowedHosts asked) (hn_Blocked host)
           in if kept \<noteq> [] then \<lparr>eg_Mode = EgressAllowlist, eg_AllowedHosts = kept, eg_DeniedHosts = []\<rparr>
              else egress_none
      else if eg_Mode asked = EgressOpen
      then \<lparr>eg_Mode = EgressOpen, eg_AllowedHosts = [],
            eg_DeniedHosts = append_new (eg_DeniedHosts asked) (hn_Blocked host)\<rparr>
      else egress_none)"

definition NarrowEgress :: "Egress \<Rightarrow> HostNetwork \<Rightarrow> Egress" where
  "NarrowEgress asked host =
     (if hn_Mode host = EgressAllowlist then narrowToList asked host
      else if hn_Mode host = EgressOpen then narrowToOpen asked host
      else egress_none)"

section \<open>What a rule reaches\<close>

definition egress_reach :: "Egress \<Rightarrow> string set" where
  "egress_reach e =
     (if eg_Mode e = EgressAllowlist then reach (eg_AllowedHosts e)
      else if eg_Mode e = EgressOpen then - reach (eg_DeniedHosts e)
      else {})"

text \<open>A host that reports no network narrows nothing.\<close>

definition network_reach :: "HostNetwork \<Rightarrow> string set" where
  "network_reach n =
     (if hn_Mode n = [] then UNIV
      else if hn_Mode n = EgressAllowlist then reach (hn_Hosts n)
      else if hn_Mode n = EgressOpen then - reach (hn_Blocked n)
      else {})"

lemma egress_reach_none [simp]: "egress_reach egress_none = {}"
  by (simp add: egress_reach_def egress_none_def)

lemma set_append_new [simp]: "set (append_new xs bs) = set xs \<union> set bs"
  by (induction xs bs rule: append_new.induct) auto

lemma reach_append_new [simp]: "reach (append_new xs bs) = reach xs \<union> reach bs"
  by (simp add: reach_def)

lemma reach_unblocked: "reach (unblocked ps bs) \<subseteq> reach ps - reach bs"
  using overlap_iff_common
  by (fastforce simp: unblocked_def reach_def list_ex_iff hostsOverlap_def)

lemma reach_filter_covers: "reach (filter (HostCovers hs) ps) \<subseteq> reach ps \<inter> reach hs"
  by (auto simp: reach_def [of "filter _ _"] reach_def [of ps] dest: HostCovers_reach)

lemma reach_filter: "reach (filter P ps) \<subseteq> reach ps"
  by (rule reach_mono) auto

lemma reach_filter_mem: "reach (filter (\<lambda>x. x \<in> set qs) ps) \<subseteq> reach ps \<inter> reach qs"
  by (auto simp: reach_def)

lemma narrow_list_within: "egress_reach (narrowToList asked host) \<subseteq> reach (hn_Hosts host)"
  using reach_filter_covers [of "hn_Hosts host" "eg_AllowedHosts asked"]
    reach_filter [of "\<lambda>h. \<not> HostCovers (eg_DeniedHosts asked) h" "hn_Hosts host"]
  by (auto simp: narrowToList_def Let_def egress_reach_def egress_none_def)

lemma narrow_open_within:
  "egress_reach (narrowToOpen asked host) \<subseteq> egress_reach asked - reach (hn_Blocked host)"
  using reach_unblocked [of "eg_AllowedHosts asked" "hn_Blocked host"]
  by (auto simp: narrowToOpen_def Let_def egress_reach_def egress_none_def)

lemma narrow_list_within_asked:
  "eg_Mode asked \<noteq> EgressOpen \<Longrightarrow> egress_reach (narrowToList asked host) \<subseteq> egress_reach asked"
  using reach_filter_covers [of "hn_Hosts host" "eg_AllowedHosts asked"]
  by (auto simp: narrowToList_def Let_def egress_reach_def egress_none_def)

text \<open>What a sandbox is narrowed to on a host never reaches a name the host's own network does
  not admit, whatever the manifest asked for and whatever mode the host reports.\<close>

theorem NarrowEgress_within_host:
  "egress_reach (NarrowEgress asked host) \<subseteq> network_reach host"
  using narrow_list_within [of asked host] narrow_open_within [of asked host]
  by (auto simp: NarrowEgress_def network_reach_def)

text \<open>Narrowing never widens what was asked, for every pair of modes but one: an open request
  on a host with an allow list, where a wildcard of the host's list that holds a denied name is
  kept whole.\<close>

theorem NarrowEgress_never_widens:
  assumes "\<not> (eg_Mode asked = EgressOpen \<and> hn_Mode host = EgressAllowlist)"
  shows "egress_reach (NarrowEgress asked host) \<subseteq> egress_reach asked"
  using assms narrow_list_within_asked [of asked host] narrow_open_within [of asked host]
  by (auto simp: NarrowEgress_def)

theorem NarrowEgress_never_widens_witness:
  "egress_reach (NarrowEgress
     \<lparr>eg_Mode = EgressAllowlist, eg_AllowedHosts = [''a.example.com'', ''b.example.org''], eg_DeniedHosts = []\<rparr>
     \<lparr>hn_Mode = EgressAllowlist, hn_Hosts = [''*.example.com''], hn_Blocked = []\<rparr>)
   \<subseteq> egress_reach \<lparr>eg_Mode = EgressAllowlist, eg_AllowedHosts = [''a.example.com'', ''b.example.org''], eg_DeniedHosts = []\<rparr>"
  by (rule NarrowEgress_never_widens) simp

text \<open>The remaining pair does widen. A request that is open but for one name, on a host whose
  allow list is a wildcard over that name, is given the wildcard, and reaches the name it denied.\<close>

theorem NarrowEgress_widens_open_on_list:
  "let asked = \<lparr>eg_Mode = EgressOpen, eg_AllowedHosts = [], eg_DeniedHosts = [''a.example.com'']\<rparr>;
       host = \<lparr>hn_Mode = EgressAllowlist, hn_Hosts = [''*.example.com''], hn_Blocked = []\<rparr>
   in ''a.example.com'' \<in> egress_reach (NarrowEgress asked host) \<and> ''a.example.com'' \<notin> egress_reach asked"
proof -
  have "HostCovers [''a.example.com''] ''*.example.com'' = False"
    and "matches_any [''*.example.com''] ''a.example.com''" and "matches_any [''a.example.com''] ''a.example.com''"
    by code_simp+
  then show ?thesis
    by (simp add: NarrowEgress_def narrowToList_def egress_reach_def matches_any_reach)
qed

section \<open>The network of an environment\<close>

lemma host_networks_within:
  "host_networks list opn hosts = Some n \<Longrightarrow>
   (case list of None \<Rightarrow> True | Some l \<Rightarrow> hn_Mode l = EgressAllowlist) \<Longrightarrow>
   (case opn of None \<Rightarrow> True | Some l \<Rightarrow> hn_Mode l = EgressOpen) \<Longrightarrow>
   network_reach n \<subseteq> (case list of None \<Rightarrow> UNIV | Some l \<Rightarrow> reach (hn_Hosts l))
     \<inter> (case opn of None \<Rightarrow> UNIV | Some l \<Rightarrow> - reach (hn_Blocked l))
     \<inter> (\<Inter>h \<in> set hosts. network_reach (hi_Network h))"
proof (induction hosts arbitrary: list opn)
  case Nil
  then show ?case
    using reach_unblocked [of "hn_Hosts (the list)" "hn_Blocked (the opn)"]
    by (auto simp: network_reach_def split: option.splits)
next
  case (Cons h hs)
  let ?n = "hi_Network h"
  consider "hn_Mode ?n = []" | "hn_Mode ?n = EgressAllowlist" | "hn_Mode ?n = EgressOpen"
    | "hn_Mode ?n \<notin> {[], EgressAllowlist, EgressOpen}" by blast
  then show ?case
  proof cases
    case 1
    then show ?thesis using Cons by (simp add: network_reach_def [of ?n])
  next
    case 2
    then show ?thesis
      using Cons.prems reach_filter_mem [of "hn_Hosts ?n" "hn_Hosts (the list)"]
      by (cases list) (auto simp: Let_def network_reach_def [of ?n] dest!: Cons.IH, blast+)
  next
    case 3
    then show ?thesis
      using Cons.prems by (cases opn) (auto simp: Let_def network_reach_def [of ?n] dest!: Cons.IH)
  next
    case 4
    then show ?thesis using Cons.prems by (auto simp: Let_def network_reach_def)
  qed
qed

lemma host_networks_None:
  "host_networks list opn hosts = None \<longleftrightarrow>
     list = None \<and> opn = None \<and> filter (\<lambda>h. hn_Mode (hi_Network h) \<noteq> []) hosts = []"
  by (induction list opn hosts rule: host_networks.induct) (auto simp: Let_def split: option.splits)

text \<open>The network of several hosts admits only what every one of them admits: a name reached
  under it is reached under each host's own network. No network is reported exactly when no host
  reports one.\<close>

theorem HostNetworkOf_within_every_host:
  "(case HostNetworkOf hosts of
      None \<Rightarrow> filter (\<lambda>h. hn_Mode (hi_Network h) \<noteq> []) hosts = []
    | Some n \<Rightarrow> network_reach n \<subseteq> (\<Inter>h \<in> set hosts. network_reach (hi_Network h)))"
  using host_networks_within [of None None hosts] host_networks_None [of None None hosts]
  by (auto simp: HostNetworkOf_def split: option.splits)

section \<open>The deciding grant\<close>

lemma grant_loop_spec:
  "grant_loop found gs p = r \<Longrightarrow>
   (case r of
      None \<Rightarrow> found = None \<and> (\<forall>g \<in> set gs. \<not> Within (hg_Path g) p)
    | Some g \<Rightarrow> (found = Some g \<or> g \<in> set gs \<and> Within (hg_Path g) p)
        \<and> (\<forall>f \<in> set_option found. length (hg_Path f) \<le> length (hg_Path g))
        \<and> (\<forall>f \<in> set gs. Within (hg_Path f) p \<longrightarrow> length (hg_Path f) \<le> length (hg_Path g)))"
  by (induction found gs p rule: grant_loop.induct) (fastforce split: option.splits if_splits)+

text \<open>The grant that decides a path is one that covers it, and no covering grant is longer, so a
  read-only folder inside a writable one stays read-only; there is none exactly when no grant
  covers the path.\<close>

theorem HostInfo_Grant_longest_cover:
  "(case HostInfo_Grant h p of
      None \<Rightarrow> filter (\<lambda>g. Within (hg_Path g) p) (hi_Grants h) = []
    | Some g \<Rightarrow> g \<in> set (hi_Grants h) \<and> Within (hg_Path g) p
        \<and> filter (\<lambda>f. Within (hg_Path f) p \<and> length (hg_Path g) < length (hg_Path f)) (hi_Grants h) = [])"
  using grant_loop_spec [OF refl, of None "hi_Grants h" p]
  by (auto simp: HostInfo_Grant_def filter_empty_conv split: option.splits)

end
