(* ===== verification/Manifest_Validate.thy ===== *)
theory Manifest_Validate
  imports Quantity Durations HostNetworks
begin

text \<open>
  Stage 1 of the resolver: the field rules that need no defaults and no lookups
  (\<^verbatim>\<open>manifest/validate.go\<close>, \<^verbatim>\<open>manifest/manifest.go\<close>, and the structural halves of
  \<^verbatim>\<open>network.go\<close>, \<^verbatim>\<open>mesh.go\<close>, \<^verbatim>\<open>autosize.go\<close> and \<^verbatim>\<open>volumeref.go\<close>). A refusal carries the code and
  the paths of the contract; its sentence for a human reader is left out. The grammar of a host
  pattern is the test \<open>vp\<close>, \<^verbatim>\<open>hostmatch.ValidPattern\<close> of another module.
\<close>

section \<open>Refusals\<close>

datatype merr =
    Refusal (er_Code: string) (er_Path: string) (er_Paths: "string list")
  | ServerFault string

definition fail :: "string \<Rightarrow> merr" where "fail code = Refusal code [] []"
definition failAt :: "string \<Rightarrow> string \<Rightarrow> merr" where "failAt code path = Refusal code path []"
definition failPaths :: "string \<Rightarrow> string list \<Rightarrow> merr" where "failPaths code paths = Refusal code (hd paths) paths"

section \<open>Patterns\<close>

definition DefaultWorkspacePath :: string where "DefaultWorkspacePath = ''/workspace''"
definition ReservedPathPrefix :: string where "ReservedPathPrefix = ''/run/cella''"
definition ReservedKeyDomain :: string where "ReservedKeyDomain = ''cella.latere.ai''"
definition maxNameLength :: nat where "maxNameLength = 63"

text \<open>The regular expressions: a class for the first and last byte and one for the rest.\<close>

definition bounded_by :: "(char \<Rightarrow> bool) \<Rightarrow> (char \<Rightarrow> bool) \<Rightarrow> string \<Rightarrow> bool" where
  "bounded_by edge inner s \<longleftrightarrow> s \<noteq> [] \<and> edge (hd s) \<and> edge (last s) \<and> list_all (\<lambda>c. edge c \<or> inner c) s"

definition namePattern :: "string \<Rightarrow> bool" where
  "namePattern s = bounded_by (\<lambda>c. is_lower c \<or> is_digit c) (\<lambda>c. c = CHR ''-'') s"

definition labelPart :: "string \<Rightarrow> bool" where
  "labelPart s = bounded_by (\<lambda>c. is_upper c \<or> is_lower c \<or> is_digit c) (\<lambda>c. c \<in> {CHR ''_'', CHR ''.'', CHR ''-''}) s"

definition envPattern :: "string \<Rightarrow> bool" where
  "envPattern s \<longleftrightarrow> s \<noteq> [] \<and> (is_upper (hd s) \<or> is_lower (hd s) \<or> hd s = CHR ''_'')
     \<and> list_all (\<lambda>c. is_upper c \<or> is_lower c \<or> is_digit c \<or> c = CHR ''_'') s"

definition userNamePattern :: "string \<Rightarrow> bool" where
  "userNamePattern s \<longleftrightarrow>
     (let t = trim_suffix s ''$''
      in t \<noteq> [] \<and> (is_lower (hd t) \<or> hd t = CHR ''_'')
         \<and> list_all (\<lambda>c. is_lower c \<or> is_digit c \<or> c = CHR ''_'' \<or> c = CHR ''-'') t)"

definition dns_label :: "string \<Rightarrow> bool" where
  "dns_label s \<longleftrightarrow> \<not> (length s > maxNameLength \<or> \<not> namePattern s)"

definition sortedKeys :: "(string \<times> 'v) list \<Rightarrow> string list" where
  "sortedKeys m = sort_ordered (map fst m)"

section \<open>Metadata\<close>

definition reservedKey :: "string \<Rightarrow> bool" where
  "reservedKey key =
     (let (domain, rest, ok) = cut_byte key (CHR ''/'')
      in ok \<and> (domain = ReservedKeyDomain \<or> has_suffix domain (''.'' @ ReservedKeyDomain)))"

definition validKey :: "string \<Rightarrow> bool" where
  "validKey k =
     (let parts = split_on (CHR ''/'') k; val = last parts
      in if length parts > 2 then False
         else if length val > maxNameLength \<or> \<not> labelPart val then False
         else if length parts = 2 then length (hd parts) \<le> 253 \<and> list_all dns_label (split_on (CHR ''.'') (hd parts))
         else True)"

definition check_key :: "string \<Rightarrow> string \<Rightarrow> merr option" where
  "check_key field k =
     (if reservedKey k then Some (failAt ''reserved_prefix'' (field @ ''.'' @ k))
      else if \<not> validKey k then Some (failAt ''invalid_field'' (field @ ''.'' @ k))
      else None)"

definition entry_bytes :: "strmap \<Rightarrow> nat" where
  "entry_bytes m = sum_list (map (\<lambda>k. length k + length (map_get m k)) (sortedKeys m))"

definition validateMetadata :: "Metadata \<Rightarrow> merr option" where
  "validateMetadata md = first_err
     [if md_Name md \<noteq> [] \<and> \<not> dns_label (md_Name md) then Some (failAt ''invalid_field'' ''metadata.name'') else None,
      check_each (check_key ''metadata.labels'') (sortedKeys (md_Labels md)),
      check_each (check_key ''metadata.annotations'') (sortedKeys (md_Annotations md)),
      check_each (\<lambda>k. let v = map_get (md_Labels md) k
                      in if length v > maxNameLength \<or> (v \<noteq> [] \<and> \<not> labelPart v)
                         then Some (failAt ''invalid_field'' (''metadata.labels.'' @ k)) else None)
        (sortedKeys (md_Labels md)),
      check_each (\<lambda>k. if length (map_get (md_Annotations md) k) > 4096
                      then Some (failAt ''invalid_field'' (''metadata.annotations.'' @ k)) else None)
        (sortedKeys (md_Annotations md)),
      if entry_bytes (md_Annotations md) > 65536 then Some (failAt ''invalid_field'' ''metadata.annotations'') else None]"

section \<open>Environment variables and commands\<close>

definition ReservedEnv :: "string \<Rightarrow> bool" where
  "ReservedEnv key \<longleftrightarrow> has_prefix key ''CELLA_''
     \<or> to_upper key \<in> {''HTTP_PROXY'', ''HTTPS_PROXY'', ''NO_PROXY'', ''SSL_CERT_FILE'', ''NODE_EXTRA_CA_CERTS'',
                        ''REQUESTS_CA_BUNDLE'', ''GIT_SSL_CAINFO'', ''CURL_CA_BUNDLE''}"

definition has_nul :: "string \<Rightarrow> bool" where
  "has_nul s \<longleftrightarrow> CHR 0x00 \<in> set s"

definition validateEnv :: "strmap \<Rightarrow> merr option" where
  "validateEnv env = first_err
     [check_each (\<lambda>k. if \<not> envPattern k \<or> has_nul (map_get env k) then Some (failAt ''invalid_field'' (''spec.env.'' @ k))
                      else if ReservedEnv k then Some (failAt ''reserved_prefix'' (''spec.env.'' @ k))
                      else None) (sortedKeys env),
      if entry_bytes env > 32768 then Some (failAt ''invalid_field'' ''spec.env'') else None]"

text \<open>The loop over the environment runs in no fixed order and every refusal of it is the same.\<close>

definition validateExec :: "string list \<Rightarrow> strmap \<Rightarrow> string \<Rightarrow> string list \<Rightarrow> merr option" where
  "validateExec command env workdir roots =
     (if command = [] \<or> hd command = [] then Some (fail ''invalid_field'')
      else if list_ex has_nul command then Some (fail ''invalid_field'')
      else if list_ex (\<lambda>(k, v). \<not> envPattern k \<or> ReservedEnv k \<or> has_nul v) env then Some (fail ''invalid_field'')
      else if workdir = [] then None
      else if path_Clean workdir = workdir
              \<and> list_ex (\<lambda>root. workdir = root \<or> has_prefix workdir (trim_suffix root ''/'' @ ''/'')) roots then None
      else Some (fail ''invalid_field''))"

definition ValidateExec :: "string list \<Rightarrow> strmap \<Rightarrow> string \<Rightarrow> merr option" where
  "ValidateExec command env workdir = validateExec command env workdir [DefaultWorkspacePath]"

definition ValidateExecFor :: "Sandbox \<Rightarrow> string list \<Rightarrow> strmap \<Rightarrow> string \<Rightarrow> merr option" where
  "ValidateExecFor obj command env workdir =
     (let ws = ws_Path (sp_Workspace (sb_Spec obj));
          roots = [DefaultWorkspacePath] @ (if ws \<noteq> [] \<and> ws \<noteq> DefaultWorkspacePath then [ws] else []);
          roots = roots @ (case st_Paths (sb_Status obj) of
                             None \<Rightarrow> []
                           | Some p \<Rightarrow> filter (\<lambda>d. d \<noteq> []) [pa_Home p, pa_Tmp p])
      in validateExec command env workdir roots)"

section \<open>The fields of the spec\<close>

definition isID :: "string \<Rightarrow> bool" where
  "isID s \<longleftrightarrow> s \<noteq> [] \<and> list_all is_digit s \<and> dec_value s \<le> 4294967295 \<and> s = format_nat (nat (dec_value s))"

definition validateUser :: "string \<Rightarrow> merr option" where
  "validateUser user =
     (if user = [] then None
      else let (id, group, pair) = cut_byte user (CHR '':''); bad = Some (failAt ''invalid_field'' ''spec.user'')
           in if pair then (if \<not> isID id \<or> \<not> isID group then bad else None)
              else if isID user \<or> (length user \<le> 32 \<and> userNamePattern user) then None
              else bad)"

text \<open>A quantity field is absent, or a positive quantity.\<close>

definition check_amount :: "string \<times> Quantity \<Rightarrow> merr option" where
  "check_amount f =
     (if snd f = [] then None
      else case ParseQuantity (snd f) of
             Inl e \<Rightarrow> Some (failAt ''invalid_field'' (fst f))
           | Inr amount \<Rightarrow> if amount \<le> 0 then Some (failAt ''invalid_field'' (fst f)) else None)"

definition resourceFields :: "Resources \<Rightarrow> (string \<times> Quantity) list" where
  "resourceFields r = [(''spec.resources.cpu'', rs_CPU r), (''spec.resources.memory'', rs_Memory r),
     (''spec.resources.disk'', rs_Disk r)]"

record ceilingField =
  cf_path :: string
  cf_name :: string
  cf_max :: Quantity
  cf_floor :: Quantity
  cf_autosize :: bool

definition ceilingFields :: "Resources \<Rightarrow> Autosize \<Rightarrow> ceilingField list" where
  "ceilingFields r a =
     [\<lparr>cf_path = ''spec.resources.max.cpu'', cf_name = ''cpu'', cf_max = mx_CPU (rs_Max r), cf_floor = rs_CPU r, cf_autosize = az_CPU a\<rparr>,
      \<lparr>cf_path = ''spec.resources.max.memory'', cf_name = ''memory'', cf_max = mx_Memory (rs_Max r), cf_floor = rs_Memory r, cf_autosize = az_Memory a\<rparr>,
      \<lparr>cf_path = ''spec.resources.max.disk'', cf_name = ''disk'', cf_max = mx_Disk (rs_Max r), cf_floor = rs_Disk r, cf_autosize = az_Disk a\<rparr>]"

definition Autosize0 :: Autosize where
  "Autosize0 = \<lparr>az_CPU = False, az_Memory = False, az_Disk = False\<rparr>"

definition validateCeiling :: "Resources \<Rightarrow> merr option" where
  "validateCeiling r = check_each (\<lambda>f. check_amount (cf_path f, cf_max f)) (ceilingFields r Autosize0)"

definition validateResources :: "Resources \<Rightarrow> merr option" where
  "validateResources r = first_err [check_each check_amount (resourceFields r), validateCeiling r]"

definition validateHostWorkspace :: "Workspace \<Rightarrow> merr option" where
  "validateHostWorkspace w =
     (if ws_Host w = [] then None
      else if \<not> absoluteCleanPath (ws_Host w) \<or> ws_Host w = ''/'' then Some (failAt ''invalid_field'' ''spec.workspace.host'')
      else if ws_Source w \<noteq> [] then Some (failPaths ''exclusive_fields'' [''spec.workspace.source'', ''spec.workspace.host''])
      else if ws_Path w \<noteq> [] \<and> ws_Path w \<noteq> ws_Host w
           then Some (failPaths ''exclusive_fields'' [''spec.workspace.path'', ''spec.workspace.host''])
      else None)"

definition WorkspaceSourceEmpty :: string where "WorkspaceSourceEmpty = ''empty''"

definition validateWorkspace :: "Workspace \<Rightarrow> merr option" where
  "validateWorkspace w = first_err
     [if ws_Source w \<in> {[], WorkspaceSourceEmpty, ''git'', ''volume''} then None
      else Some (failAt ''invalid_field'' ''spec.workspace.source''),
      validateHostWorkspace w,
      if ws_Path w = [] then None
      else if \<not> absoluteCleanPath (ws_Path w) \<or> ws_Path w = ''/'' then Some (failAt ''invalid_field'' ''spec.workspace.path'')
      else if ws_Path w = ReservedPathPrefix \<or> has_prefix (ws_Path w) (ReservedPathPrefix @ ''/'')
           then Some (failAt ''invalid_field'' ''spec.workspace.path'')
      else None]"

definition lifecycleFields :: "Lifecycle \<Rightarrow> (string \<times> Duration) list" where
  "lifecycleFields l = [(''spec.lifecycle.autoStop'', lc_AutoStop l), (''spec.lifecycle.ttl'', lc_TTL l),
     (''spec.lifecycle.autoDelete'', lc_AutoDelete l)]"

definition validateLifecycle :: "Lifecycle \<Rightarrow> merr option" where
  "validateLifecycle l = check_each
     (\<lambda>f. if snd f = [] then None
          else case ParseDuration (snd f) of Inl e \<Rightarrow> Some (failAt ''invalid_field'' (fst f)) | Inr v \<Rightarrow> None)
     (lifecycleFields l)"

definition validateSandboxScheduling :: "Scheduling \<Rightarrow> merr option" where
  "validateSandboxScheduling s =
     (if sc_Priority s < 0 then Some (failAt ''invalid_field'' ''spec.scheduling.priority'')
      else if sc_Queue s \<noteq> [] \<and> \<not> dns_label (sc_Queue s) then Some (failAt ''invalid_field'' ''spec.scheduling.queue'')
      else if sc_StartDeadline s = [] then None
      else case ParseDuration (sc_StartDeadline s) of
             Inl e \<Rightarrow> Some (failAt ''invalid_field'' ''spec.scheduling.startDeadline'')
           | Inr (v, never) \<Rightarrow> if never then Some (failAt ''invalid_field'' ''spec.scheduling.startDeadline'') else None)"

definition validateDisplay :: "Display option \<Rightarrow> merr option" where
  "validateDisplay d =
     (case d of
        None \<Rightarrow> None
      | Some d \<Rightarrow>
          if (dp_Width d = 0) \<noteq> (dp_Height d = 0)
          then Some (failPaths ''invalid_field'' [''spec.display.width'', ''spec.display.height''])
          else if dp_Width d = 0 then Some (failAt ''missing_field'' ''spec.display'')
          else if dp_Width d < 320 \<or> dp_Width d > 7680 then Some (failAt ''invalid_field'' ''spec.display.width'')
          else if dp_Height d < 240 \<or> dp_Height d > 4320 then Some (failAt ''invalid_field'' ''spec.display.height'')
          else None)"

definition validateMesh :: "Mesh \<Rightarrow> merr option" where
  "validateMesh m = check_each
     (\<lambda>(path, v). if v < 0 then Some (failAt ''invalid_field'' path) else None)
     [(''spec.mesh.spawn.budget'', sw_Budget (ms_Spawn m)), (''spec.mesh.spawn.depth'', sw_Depth (ms_Spawn m))]"

section \<open>The network\<close>

text \<open>\<^verbatim>\<open>net.ParseIP\<close> on a text with no colon: four decimal fields without leading zeros.\<close>

definition is_ipv4 :: "string \<Rightarrow> bool" where
  "is_ipv4 s =
     (let parts = split_on (CHR ''.'') s
      in length parts = 4
         \<and> list_all (\<lambda>p. p \<noteq> [] \<and> list_all is_digit p \<and> dec_value p \<le> 255 \<and> (hd p = CHR ''0'' \<longrightarrow> length p = 1)) parts)"

definition isLocalName :: "string \<Rightarrow> bool" where
  "isLocalName name \<longleftrightarrow> name = ''localhost'' \<or> has_suffix name ''.localhost'' \<or> has_suffix name ''.local''"

definition ValidateHostPattern :: "(string \<Rightarrow> bool) \<Rightarrow> string \<Rightarrow> string \<Rightarrow> merr option" where
  "ValidateHostPattern vp path pattern =
     (let raw = trim_space pattern; bad = Some (failAt ''invalid_field'' path);
          normalized = NormalizeHost raw;
          bare = (case cut_prefix normalized ''*.'' of None \<Rightarrow> normalized | Some rest \<Rightarrow> rest)
      in if raw = [] then bad
         else if CHR '':'' \<in> set raw then bad
         else if CHR ''/'' \<in> set raw then bad
         else if is_ipv4 bare then bad
         else if \<not> vp normalized then bad
         else if isLocalName bare then bad
         else None)"

definition pathEgressMode :: string where "pathEgressMode = ''spec.network.egress.mode''"
definition pathAllowedHosts :: string where "pathAllowedHosts = ''spec.network.egress.allowedHosts''"
definition pathDeniedHosts :: string where "pathDeniedHosts = ''spec.network.egress.deniedHosts''"

definition index_path :: "string \<Rightarrow> nat \<Rightarrow> string" where
  "index_path path i = path @ ''['' @ format_nat i @ '']''"

definition portPath :: "nat \<Rightarrow> string \<Rightarrow> string" where
  "portPath i field = index_path ''spec.network.ports'' i @ ''.'' @ field"

definition Exposes :: "Expose list" where "Exposes = [''none'', ''mesh'', ''public'']"

text \<open>The ports before the one being checked are what the two maps of names and numbers hold.\<close>

fun check_ports :: "Port list \<Rightarrow> Port list \<Rightarrow> merr option" where
  "check_ports seen [] = None"
| "check_ports seen (p # ps) =
     (let i = length seen
      in if pt_Name p = [] then Some (failAt ''missing_field'' (portPath i ''name''))
         else if \<not> dns_label (pt_Name p) then Some (failAt ''invalid_field'' (portPath i ''name''))
         else if pt_Name p \<in> set (map pt_Name seen) then Some (failAt ''invalid_field'' (portPath i ''name''))
         else if pt_Port p < 1 \<or> pt_Port p > 65535 then Some (failAt ''invalid_field'' (portPath i ''port''))
         else if pt_Port p \<in> set (map pt_Port seen) then Some (failAt ''invalid_field'' (portPath i ''port''))
         else if pt_Expose p \<noteq> [] \<and> pt_Expose p \<notin> set Exposes then Some (failAt ''invalid_field'' (portPath i ''expose''))
         else check_ports (seen @ [p]) ps)"

definition validatePorts :: "Port list \<Rightarrow> merr option" where
  "validatePorts ports = check_ports [] ports"

definition egress_lists :: "Egress \<Rightarrow> merr option" where
  "egress_lists e =
     (if eg_Mode e = EgressAllowlist
      then (if eg_DeniedHosts e \<noteq> [] then Some (failPaths ''exclusive_fields'' [pathEgressMode, pathDeniedHosts]) else None)
      else if eg_Mode e = EgressOpen
      then (if eg_AllowedHosts e \<noteq> [] then Some (failPaths ''exclusive_fields'' [pathEgressMode, pathAllowedHosts]) else None)
      else if eg_Mode e = EgressNone
      then (if eg_AllowedHosts e \<noteq> [] \<or> eg_DeniedHosts e \<noteq> []
            then Some (failPaths ''exclusive_fields'' [pathEgressMode, pathAllowedHosts, pathDeniedHosts]) else None)
      else if eg_AllowedHosts e \<noteq> [] \<and> eg_DeniedHosts e \<noteq> []
      then Some (failPaths ''exclusive_fields'' [pathAllowedHosts, pathDeniedHosts])
      else None)"

definition validateNetwork :: "(string \<Rightarrow> bool) \<Rightarrow> Network \<Rightarrow> merr option" where
  "validateNetwork vp n =
     (let e = nw_Egress n
      in first_err
        [if eg_Mode e \<noteq> [] \<and> EgressModeRank (eg_Mode e) < 0 then Some (failAt ''invalid_field'' pathEgressMode) else None,
         egress_lists e,
         check_indexed (\<lambda>i. ValidateHostPattern vp (index_path pathAllowedHosts i)) 0 (eg_AllowedHosts e),
         check_indexed (\<lambda>i. ValidateHostPattern vp (index_path pathDeniedHosts i)) 0 (eg_DeniedHosts e),
         validatePorts (nw_Ports n)])"

section \<open>Volume mounts\<close>

definition pathVolumeAt :: "nat \<Rightarrow> string \<Rightarrow> string" where
  "pathVolumeAt i field = index_path ''spec.volumes'' i @ ''.'' @ field"

fun check_mounts :: "VolumeMount list \<Rightarrow> VolumeMount list \<Rightarrow> merr option" where
  "check_mounts seen [] = None"
| "check_mounts seen (m # ms) =
     (let i = length seen
      in if vm_Name m = [] then Some (failAt ''missing_field'' (pathVolumeAt i ''name''))
         else if \<not> dns_label (vm_Name m) then Some (failAt ''invalid_field'' (pathVolumeAt i ''name''))
         else if vm_Name m \<in> set (map vm_Name seen) then Some (failAt ''invalid_field'' (pathVolumeAt i ''name''))
         else if trim_space (vm_Volume m) = [] then Some (failAt ''missing_field'' (pathVolumeAt i ''volume''))
         else if vm_Path m = [] then Some (failAt ''missing_field'' (pathVolumeAt i ''path''))
         else if \<not> absoluteCleanPath (vm_Path m) \<or> vm_Path m = ''/'' then Some (failAt ''invalid_field'' (pathVolumeAt i ''path''))
         else if nests (vm_Path m) ReservedPathPrefix then Some (failAt ''path_conflict'' (pathVolumeAt i ''path''))
         else case find_index (\<lambda>q. nests (vm_Path m) (vm_Path q)) seen of
                Some j \<Rightarrow> Some (failPaths ''path_conflict'' [pathVolumeAt j ''path'', pathVolumeAt i ''path''])
              | None \<Rightarrow> check_mounts (seen @ [m]) ms)"

definition validateVolumes :: "VolumeMount list \<Rightarrow> merr option" where
  "validateVolumes mounts = check_mounts [] mounts"

section \<open>The whole object\<close>

definition check_args :: "string \<Rightarrow> string list \<Rightarrow> merr option" where
  "check_args field args = check_indexed
     (\<lambda>i a. if has_nul a then Some (failAt ''invalid_field'' (index_path field i)) else None) 0 args"

definition validateSpec :: "(string \<Rightarrow> bool) \<Rightarrow> SandboxSpec \<Rightarrow> merr option" where
  "validateSpec vp s = first_err
     [if sp_Environment s \<noteq> [] \<and> \<not> dns_label (sp_Environment s) then Some (failAt ''invalid_field'' ''spec.environment'') else None,
      check_args ''spec.command'' (sp_Command s),
      check_args ''spec.args'' (sp_Args s),
      if sp_Command s \<noteq> [] \<and> hd (sp_Command s) = [] then Some (failAt ''invalid_field'' ''spec.command[0]'') else None,
      if sp_Workdir s \<noteq> [] \<and> \<not> absoluteCleanPath (sp_Workdir s) then Some (failAt ''invalid_field'' ''spec.workdir'') else None,
      validateUser (sp_User s),
      validateResources (sp_Resources s),
      validateWorkspace (sp_Workspace s),
      validateLifecycle (sp_Lifecycle s),
      validateSandboxScheduling (sp_Scheduling s),
      validateNetwork vp (sp_Network s),
      validateDisplay (sp_Display s),
      validateMesh (sp_Mesh s),
      validateVolumes (sp_Volumes s),
      validateEnv (sp_Env s)]"

definition validate :: "(string \<Rightarrow> bool) \<Rightarrow> Sandbox \<Rightarrow> merr option" where
  "validate vp obj = first_err [validateMetadata (sb_Metadata obj), validateSpec vp (sb_Spec obj)]"

text \<open>The rules unfolded, for evaluating them on a concrete object.\<close>

lemmas validate_eval = Let_def SandboxSpec0_def validate_def validateSpec_def validateMetadata_def check_args_def
  validateUser_def validateResources_def resourceFields_def check_amount_def validateCeiling_def ceilingFields_def
  validateWorkspace_def validateHostWorkspace_def validateLifecycle_def lifecycleFields_def
  validateSandboxScheduling_def validateNetwork_def egress_lists_def validatePorts_def validateDisplay_def
  validateMesh_def validateVolumes_def validateEnv_def sortedKeys_def entry_bytes_def sort_ordered_sort map_get_def

section \<open>What a valid object satisfies\<close>

lemma check_ports_None:
  assumes "check_ports seen ps = None" and "distinct (map pt_Name seen)" and "distinct (map pt_Port seen)"
  shows "distinct (map pt_Name (seen @ ps)) \<and> distinct (map pt_Port (seen @ ps))
    \<and> (\<forall>p \<in> set ps. 1 \<le> pt_Port p \<and> pt_Port p \<le> 65535)"
  using assms by (induction seen ps rule: check_ports.induct) (auto simp: Let_def split: if_splits)

lemma check_mounts_None:
  "check_mounts seen ms = None \<Longrightarrow>
   (\<forall>m \<in> set ms. absoluteCleanPath (vm_Path m) \<and> vm_Path m \<noteq> ''/'' \<and> \<not> nests (vm_Path m) ReservedPathPrefix)
   \<and> (distinct (map vm_Name seen) \<longrightarrow> distinct (map vm_Name (seen @ ms)))
   \<and> (sorted_wrt (\<lambda>p q. \<not> nests (vm_Path q) (vm_Path p)) seen \<longrightarrow> sorted_wrt (\<lambda>p q. \<not> nests (vm_Path q) (vm_Path p)) (seen @ ms))"
proof (induction ms arbitrary: seen)
  case (Cons m ms)
  from Cons.prems have h: "check_mounts (seen @ [m]) ms = None" "vm_Name m \<notin> set (map vm_Name seen)"
    "absoluteCleanPath (vm_Path m)" "vm_Path m \<noteq> ''/''" "\<not> nests (vm_Path m) ReservedPathPrefix"
    "\<forall>q \<in> set seen. \<not> nests (vm_Path m) (vm_Path q)"
    by (auto simp: Let_def find_index_None split: if_splits option.splits)
  then show ?case using Cons.IH [OF h(1)] by (auto simp: sorted_wrt_append)
qed simp

lemma validate_parts [go_err]:
  assumes "validateSpec vp s = None"
  shows "validateNetwork vp (sp_Network s) = None" and "validateVolumes (sp_Volumes s) = None"
    and "validateResources (sp_Resources s) = None" and "validateLifecycle (sp_Lifecycle s) = None"
    and "validateSandboxScheduling (sp_Scheduling s) = None" and "validateMesh (sp_Mesh s) = None"
    and "validateWorkspace (sp_Workspace s) = None"
  using assms by (simp_all add: validateSpec_def first_err_None)

lemma nests_sym: "nests a b \<longleftrightarrow> nests b a"
  by (auto simp: nests_def)

lemma mounts_apart:
  assumes "validateVolumes ms = None" and "i < length ms" and "j < length ms" and "i \<noteq> j"
  shows "\<not> nests (vm_Path (ms ! i)) (vm_Path (ms ! j))"
proof -
  have "sorted_wrt (\<lambda>p q. \<not> nests (vm_Path q) (vm_Path p)) ms"
    using check_mounts_None [of "[]" ms] assms(1) by (simp add: validateVolumes_def)
  then show ?thesis
    using assms(2-4) nests_sym by (cases i j rule: linorder_cases) (auto simp: sorted_wrt_iff_nth_less)
qed



section \<open>A refusal does not depend on the order of a map\<close>

definition same_map :: "('k \<times> 'v) list \<Rightarrow> ('k \<times> 'v) list \<Rightarrow> bool" where
  "same_map m n \<longleftrightarrow> distinct (map fst m) \<and> distinct (map fst n) \<and> map_of m = map_of n"

lemma sortedKeys_cong: "same_map m n \<Longrightarrow> sortedKeys m = sortedKeys n"
proof -
  assume s: "same_map m n"
  then have e: "set (map fst m) = set (map fst n)"
    by (metis same_map_def dom_map_of_conv_image_fst set_map)
  have "sort (map fst m) = sort (map fst n)"
    by (rule sorted_distinct_set_unique) (use s e in \<open>simp_all add: same_map_def\<close>)
  then show ?thesis by (simp add: sortedKeys_def sort_ordered_sort)
qed

lemma map_get_cong: "same_map m n \<Longrightarrow> map_get m = map_get n"
  by (rule ext) (simp add: same_map_def map_get_def)

text \<open>C10: whatever order the runtime ranges over a map in, the same manifest draws the same refusal:
  two objects that differ only in the order of their labels, annotations and environment are
  answered with the same error, or both accepted.\<close>

theorem validate_map_order:
  assumes "same_map (md_Labels (sb_Metadata obj)) labels" and "same_map (md_Annotations (sb_Metadata obj)) notes"
    and "same_map (sp_Env (sb_Spec obj)) env"
  shows "validate vp obj =
     validate vp (obj\<lparr>sb_Metadata := (sb_Metadata obj)\<lparr>md_Labels := labels, md_Annotations := notes\<rparr>,
                      sb_Spec := (sb_Spec obj)\<lparr>sp_Env := env\<rparr>\<rparr>)"
  using sortedKeys_cong [OF assms(1)] sortedKeys_cong [OF assms(2)] sortedKeys_cong [OF assms(3)]
    map_get_cong [OF assms(1)] map_get_cong [OF assms(2)] map_get_cong [OF assms(3)]
  by (simp add: validate_def validateMetadata_def validateSpec_def validateEnv_def entry_bytes_def)

theorem validate_map_order_witness:
  "let env = [(''B'', ''1''), (''CELLA_X'', ''2''), (''9'', ''3'')]; obj = \<lparr>sb_APIVersion = [], sb_Kind = [],
     sb_Metadata = \<lparr>md_Name = [], md_Labels = [], md_Annotations = []\<rparr>, sb_Spec = SandboxSpec0\<lparr>sp_Env := env\<rparr>, sb_Status = SandboxStatus0\<rparr>
   in validate (\<lambda>_. True) obj = Some (failAt ''invalid_field'' ''spec.env.9'')
      \<and> validate (\<lambda>_. True) (obj\<lparr>sb_Metadata := \<lparr>md_Name = [], md_Labels = [], md_Annotations = []\<rparr>, sb_Spec := (sb_Spec obj)\<lparr>sp_Env := rev env\<rparr>\<rparr>)
        = Some (failAt ''invalid_field'' ''spec.env.9'')"
proof -
  let ?env = "[(''B'', ''1''), (''CELLA_X'', ''2''), (''9'', ''3'')]"
  let ?obj = "\<lparr>sb_APIVersion = [], sb_Kind = [], sb_Metadata = \<lparr>md_Name = [], md_Labels = [], md_Annotations = []\<rparr>,
    sb_Spec = SandboxSpec0\<lparr>sp_Env := ?env\<rparr>, sb_Status = SandboxStatus0\<rparr>"
  have "sort [''B'', ''CELLA_X'', ''9''] = [''9'', ''B'', ''CELLA_X'']" and "\<not> envPattern ''9''" by code_simp+
  then have v: "validate (\<lambda>_. True) ?obj = Some (failAt ''invalid_field'' ''spec.env.9'')" by (simp add: validate_eval)
  have "same_map ?env (rev ?env)" by (auto simp: same_map_def)
  then show ?thesis
    using v validate_map_order [of ?obj "[]" "[]" "rev ?env" "\<lambda>_. True"] by (simp add: same_map_def Let_def SandboxSpec0_def)
qed

end
