(* ===== verification/Manifest_Boundary.thy ===== *)
theory Manifest_Boundary
  imports Manifest_Validate
begin

text \<open>
  The rules that compare a resolved manifest with something it is held inside: a spawned
  child with its parent (\<^verbatim>\<open>manifest/mesh.go\<close>), an update with the stored object
  (\<^verbatim>\<open>network.go\<close>, \<^verbatim>\<open>autosize.go\<close>, \<^verbatim>\<open>scheduling.go\<close>, \<^verbatim>\<open>secretref.go\<close>, \<^verbatim>\<open>volumeref.go\<close>), and a request
  with what its environment serves (\<^verbatim>\<open>host.go\<close> and the capability halves of the same files). The
  theorems read the textual rules as inclusions of reach, amount, life and budget.
\<close>

abbreviation egress_of :: "Sandbox \<Rightarrow> Egress" where
  "egress_of obj \<equiv> nw_Egress (sp_Network (sb_Spec obj))"

section \<open>Meshes and spawning\<close>

definition MeshMember :: "Sandbox \<Rightarrow> bool" where
  "MeshMember obj \<longleftrightarrow> ms_Enabled (sp_Mesh (sb_Spec obj)) \<or> st_Mesh (sb_Status obj) \<noteq> []"

definition meshMembershipAt :: "Sandbox \<Rightarrow> Sandbox option \<Rightarrow> Sandbox option \<Rightarrow> bool" where
  "meshMembershipAt obj parent existing =
     (if ms_Enabled (sp_Mesh (sb_Spec obj)) then True
      else if (case parent of None \<Rightarrow> False | Some p \<Rightarrow> MeshMember p) then True
      else if (case existing of None \<Rightarrow> False | Some e \<Rightarrow> MeshMember e) then True
      else False)"

definition meshCapability :: "Sandbox \<Rightarrow> Environment \<Rightarrow> merr option" where
  "meshCapability obj env =
     (if ms_Enabled (sp_Mesh (sb_Spec obj)) \<and> \<not> cp_Mesh (et_Capabilities (ev_Status env))
      then Some (failAt ''capability_unsupported'' ''spec.mesh.enabled'') else None)"

definition meshNarrowing :: "Sandbox \<Rightarrow> Sandbox \<Rightarrow> string list" where
  "meshNarrowing existing obj =
     (let was = ms_Spawn (sp_Mesh (sb_Spec existing)); now = ms_Spawn (sp_Mesh (sb_Spec obj))
      in (if sw_Budget now > sw_Budget was then [''spec.mesh.spawn.budget''] else [])
         @ (if sw_Depth now > sw_Depth was then [''spec.mesh.spawn.depth''] else []))"

definition defaultChildTTL :: "Lifecycle \<Rightarrow> Sandbox option \<Rightarrow> gotime \<Rightarrow> bool \<Rightarrow> Lifecycle" where
  "defaultChildTTL l parent now namedStop =
     (case parent of
        None \<Rightarrow> l
      | Some p \<Rightarrow>
          let expires = st_ExpiresAt (sb_Status p); remaining = duration_Truncate (time_Sub expires now) Second;
              fits = (\<lambda>d. case ParseDuration d of Inl e \<Rightarrow> False | Inr (v, never) \<Rightarrow> \<not> never \<and> v \<le> remaining)
          in if expires = 0 \<or> now = 0 then l
             else if remaining \<le> 0 then l
             else if fits (lc_TTL l) then l
             else let l = l\<lparr>lc_TTL := duration_String remaining\<rparr>
                  in if namedStop then l
                     else if fits (lc_AutoStop l) then l
                     else l\<lparr>lc_AutoStop := duration_String remaining\<rparr>)"

definition inheritEgress :: "Sandbox \<Rightarrow> Sandbox option \<Rightarrow> Egress" where
  "inheritEgress obj parent =
     (let own = egress_of obj; declared = (eg_Mode own \<noteq> [] \<or> eg_AllowedHosts own \<noteq> [] \<or> eg_DeniedHosts own \<noteq> [])
      in case parent of
           None \<Rightarrow> own
         | Some p \<Rightarrow> if declared \<or> sp_Secrets (sb_Spec obj) \<noteq> [] then own else egress_of p)"

definition ttlOutlivesParent :: "Duration \<Rightarrow> gotime \<Rightarrow> gotime \<Rightarrow> bool" where
  "ttlOutlivesParent ttl parentExpiry now =
     (if parentExpiry = 0 \<or> now = 0 then False
      else case ParseDuration ttl of
             Inl e \<Rightarrow> False
           | Inr (life, never) \<Rightarrow> if never then True else now + life > parentExpiry)"

definition pathSecretAt :: "nat \<Rightarrow> string \<Rightarrow> string" where
  "pathSecretAt i field = index_path ''spec.secrets'' i @ ''.'' @ field"

definition ceilingOf :: "Quantity \<Rightarrow> Quantity \<Rightarrow> Quantity" where
  "ceilingOf mx amount = (if mx \<noteq> [] then mx else amount)"

text \<open>The two maps of rule 4, of the volumes a parent holds and of those it may write, as the
  list of references its mounts are reached by.\<close>

definition volume_refs :: "Sandbox \<Rightarrow> (string \<times> bool) list" where
  "volume_refs parent = concat (map (\<lambda>m.
     (vm_Volume m, \<not> vm_ReadOnly m)
     # map (\<lambda>b. (va_Volume b, \<not> vm_ReadOnly m))
         (filter (\<lambda>b. va_Name b = vm_Name m \<and> va_Volume b \<noteq> []) (st_Volumes (sb_Status parent))))
     (sp_Volumes (sb_Spec parent)))"

definition volumeBoundary :: "Sandbox \<Rightarrow> Sandbox \<Rightarrow> string list" where
  "volumeBoundary obj parent =
     (let refs = volume_refs parent;
          held = (\<lambda>v. v \<in> set (map fst refs)); writable = (\<lambda>v. (v, True) \<in> set refs)
      in concat (map (\<lambda>(i, m). if \<not> held (vm_Volume m) then [pathVolumeAt i ''volume'']
                               else if \<not> vm_ReadOnly m \<and> \<not> writable (vm_Volume m) then [pathVolumeAt i ''readOnly'']
                               else [])
           (enumerate 0 (sp_Volumes (sb_Spec obj)))))"

text \<open>Rules 1 and 2, and rule 5 with its early return on an amount it cannot read.\<close>

definition egressBoundary :: "Egress \<Rightarrow> Egress \<Rightarrow> string list" where
  "egressBoundary child over =
     (if EgressModeRank (eg_Mode child) < EgressModeRank (eg_Mode over) then [pathEgressMode] else [])
     @ (if eg_Mode child = EgressAllowlist \<and> eg_Mode over = EgressAllowlist
        then (if list_ex (\<lambda>p. \<not> HostCovers (eg_AllowedHosts over) p) (eg_AllowedHosts child) then [pathAllowedHosts] else [])
        else if eg_Mode child = EgressAllowlist \<and> eg_Mode over = EgressOpen
        then (if list_ex (\<lambda>p. HostCovers (eg_DeniedHosts over) p) (eg_AllowedHosts child) then [pathAllowedHosts] else [])
        else [])
     @ (if eg_Mode child = EgressOpen \<and> eg_Mode over = EgressOpen
           \<and> list_ex (\<lambda>p. \<not> HostCovers (eg_DeniedHosts child) p) (eg_DeniedHosts over)
        then [pathDeniedHosts] else [])"

fun amounts_above :: "(string \<times> Quantity \<times> Quantity) list \<Rightarrow> merr + string list" where
  "amounts_above [] = Inr []"
| "amounts_above ((path, child, bound) # fs) =
     (if child = [] \<or> bound = [] then amounts_above fs
      else case ParseQuantity child of
             Inl e \<Rightarrow> Inl (failAt ''invalid_field'' path)
           | Inr want \<Rightarrow>
               (case ParseQuantity bound of
                  Inl e \<Rightarrow> amounts_above fs
                | Inr limit \<Rightarrow>
                    rbind (amounts_above fs) (\<lambda>ps. Inr (if want > limit then path # ps else ps))))"

definition resource_bounds :: "Resources \<Rightarrow> Resources \<Rightarrow> (string \<times> Quantity \<times> Quantity) list" where
  "resource_bounds c p =
     (let cpu = ceilingOf (mx_CPU (rs_Max p)) (rs_CPU p); memory = ceilingOf (mx_Memory (rs_Max p)) (rs_Memory p);
          disk = ceilingOf (mx_Disk (rs_Max p)) (rs_Disk p)
      in [(''spec.resources.cpu'', rs_CPU c, cpu), (''spec.resources.memory'', rs_Memory c, memory),
          (''spec.resources.disk'', rs_Disk c, disk), (''spec.resources.max.cpu'', mx_CPU (rs_Max c), cpu),
          (''spec.resources.max.memory'', mx_Memory (rs_Max c), memory), (''spec.resources.max.disk'', mx_Disk (rs_Max c), disk)])"

definition secretBoundary :: "Sandbox \<Rightarrow> Sandbox \<Rightarrow> string list" where
  "secretBoundary obj parent = concat (map
     (\<lambda>(i, m). if sm_Name m \<in> set (map sm_Name (sp_Secrets (sb_Spec parent))) then [] else [pathSecretAt i ''name''])
     (enumerate 0 (sp_Secrets (sb_Spec obj))))"

definition boundary :: "Sandbox \<Rightarrow> Sandbox option \<Rightarrow> gotime \<Rightarrow> merr option" where
  "boundary obj parent now =
     (case parent of
        None \<Rightarrow> None
      | Some p \<Rightarrow>
          (case amounts_above (resource_bounds (sp_Resources (sb_Spec obj)) (sp_Resources (sb_Spec p))) of
             Inl e \<Rightarrow> Some e
           | Inr amounts \<Rightarrow>
               let spawn = st_Spawn (sb_Status p); asked = ms_Spawn (sp_Mesh (sb_Spec obj));
                   remaining = ss_Budget spawn - ss_Used spawn;
                   paths = egressBoundary (egress_of obj) (egress_of p)
                     @ secretBoundary obj p
                     @ volumeBoundary obj p
                     @ amounts
                     @ (if ttlOutlivesParent (lc_TTL (sp_Lifecycle (sb_Spec obj))) (st_ExpiresAt (sb_Status p)) now
                        then [''spec.lifecycle.ttl''] else [])
                     @ (if ss_Depth spawn \<le> 0 \<or> sw_Depth asked > ss_Depth spawn - 1 then [''spec.mesh.spawn.depth''] else [])
                     @ (if remaining > 0 \<and> sw_Budget asked > remaining - 1 then [''spec.mesh.spawn.budget''] else [])
                     @ (if sp_Environment (sb_Spec obj) \<noteq> sp_Environment (sb_Spec p) then [''spec.environment''] else [])
                     @ (if ms_Enabled (sp_Mesh (sb_Spec obj)) then [''spec.mesh.enabled''] else [])
               in if paths = [] then None else Some (failPaths ''boundary_exceeded'' paths)))"

text \<open>The error of a descendant is renamed for its reader and keeps its code and its paths; an
  error with no path list, which has none to report, would fail the renaming.\<close>

definition DescendantOutsideBoundary :: "Sandbox \<Rightarrow> Sandbox \<Rightarrow> gotime \<Rightarrow> merr option" where
  "DescendantOutsideBoundary updated child now =
     (case boundary child (Some updated) now of
        None \<Rightarrow> None
      | Some (Refusal code path paths) \<Rightarrow> Some (failPaths code paths)
      | Some e \<Rightarrow> Some e)"

section \<open>Updates\<close>

definition narrowingSecrets :: "Sandbox \<Rightarrow> Sandbox \<Rightarrow> bool" where
  "narrowingSecrets existing obj =
     (let held = map sm_Name (sp_Secrets (sb_Spec existing))
      in list_ex (\<lambda>m. sm_Name m \<notin> set held) (sp_Secrets (sb_Spec obj)))"

definition egressNarrowing :: "Egress \<Rightarrow> Egress \<Rightarrow> string list" where
  "egressNarrowing was now =
     (if EgressModeRank (eg_Mode now) < EgressModeRank (eg_Mode was) then [pathEgressMode] else [])
     @ (if eg_Mode was = EgressAllowlist \<and> eg_Mode now = EgressAllowlist
           \<and> list_ex (\<lambda>p. \<not> HostCovers (eg_AllowedHosts was) p) (eg_AllowedHosts now)
        then [pathAllowedHosts] else [])
     @ (if eg_Mode was = EgressOpen \<and> eg_Mode now = EgressOpen
           \<and> list_ex (\<lambda>p. \<not> HostCovers (eg_DeniedHosts now) p) (eg_DeniedHosts was)
        then [pathDeniedHosts] else [])"

definition narrowing :: "Sandbox \<Rightarrow> Sandbox \<Rightarrow> merr option" where
  "narrowing existing obj =
     (let paths = egressNarrowing (egress_of existing) (egress_of obj)
                  @ (if narrowingSecrets existing obj then [''spec.secrets''] else [])
                  @ meshNarrowing existing obj
      in if paths = [] then None else Some (failPaths ''boundary_widened'' paths))"

definition schedulingChanges :: "Scheduling \<Rightarrow> Scheduling \<Rightarrow> string list" where
  "schedulingChanges was now = map fst (filter snd
     [(''spec.scheduling.priority'', sc_Priority was \<noteq> sc_Priority now),
      (''spec.scheduling.queue'', sc_Queue was \<noteq> sc_Queue now),
      (''spec.scheduling.startDeadline'', sc_StartDeadline was \<noteq> sc_StartDeadline now),
      (''spec.scheduling.preemptible'', sc_Preemptible was \<noteq> sc_Preemptible now)])"

definition maps_equal :: "strmap \<Rightarrow> strmap \<Rightarrow> bool" where
  "maps_equal m n \<longleftrightarrow> length m = length n \<and> list_all (\<lambda>(k, v). map_of n k = Some v) m"

definition immutable :: "Sandbox \<Rightarrow> Sandbox \<Rightarrow> merr option" where
  "immutable existing obj =
     (let e = sb_Spec existing; s = sb_Spec obj;
          paths = map fst (filter snd
            [(''metadata.name'', md_Name (sb_Metadata existing) \<noteq> md_Name (sb_Metadata obj)),
             (''spec.environment'', sp_Environment e \<noteq> sp_Environment s),
             (''spec.image'', sp_Image e \<noteq> sp_Image s),
             (''spec.command'', sp_Command e \<noteq> sp_Command s),
             (''spec.args'', sp_Args e \<noteq> sp_Args s),
             (''spec.workdir'', sp_Workdir e \<noteq> sp_Workdir s),
             (''spec.user'', sp_User e \<noteq> sp_User s),
             (''spec.workspace.path'', ws_Path (sp_Workspace e) \<noteq> ws_Path (sp_Workspace s)),
             (''spec.workspace.source'', ws_Source (sp_Workspace e) \<noteq> ws_Source (sp_Workspace s)),
             (''spec.workspace.host'', ws_Host (sp_Workspace e) \<noteq> ws_Host (sp_Workspace s)),
             (''spec.env'', \<not> maps_equal (sp_Env e) (sp_Env s)),
             (''spec.display'', sp_Display e \<noteq> sp_Display s),
             (''spec.network.ports'', nw_Ports (sp_Network e) \<noteq> nw_Ports (sp_Network s)),
             (''spec.mesh.enabled'', ms_Enabled (sp_Mesh e) \<noteq> ms_Enabled (sp_Mesh s))])
            @ schedulingChanges (sp_Scheduling e) (sp_Scheduling s)
      in if paths = [] then None else Some (failPaths ''immutable_field'' paths))"

definition sameAmounts :: "Resources \<Rightarrow> Resources \<Rightarrow> bool" where
  "sameAmounts a b \<longleftrightarrow> rs_CPU a = rs_CPU b \<and> rs_Memory a = rs_Memory b \<and> rs_Disk a = rs_Disk b"

definition ceilingFloor :: "Resources \<Rightarrow> merr option" where
  "ceilingFloor r = check_each
     (\<lambda>f. if cf_max f = [] \<or> cf_floor f = [] then None
          else case ParseQuantity (cf_max f) of
                 Inl e \<Rightarrow> Some (failAt ''invalid_field'' (cf_path f))
               | Inr limit \<Rightarrow>
                   (case ParseQuantity (cf_floor f) of
                      Inl e \<Rightarrow> Some (failAt ''invalid_field'' (cf_path f))
                    | Inr least \<Rightarrow> if limit < least then Some (failAt ''invalid_field'' (cf_path f)) else None))
     (ceilingFields r Autosize0)"

definition ceilingHeld :: "Sandbox \<Rightarrow> Sandbox \<Rightarrow> merr option" where
  "ceilingHeld existing obj =
     (let held = st_Resources (sb_Status existing); r = sp_Resources (sb_Spec obj)
      in check_each
        (\<lambda>(path, mx, amount, h).
           let bound = (if mx = [] then amount else mx)
           in if h = [] \<or> bound = [] then None
              else case ParseQuantity bound of
                     Inl e \<Rightarrow> Some (failAt ''invalid_field'' path)
                   | Inr limit \<Rightarrow>
                       (case ParseQuantity h of
                          Inl e \<Rightarrow> None
                        | Inr now \<Rightarrow> if limit < now then Some (failAt ''ceiling_exceeded'' path) else None))
        [(''spec.resources.max.memory'', mx_Memory (rs_Max r), rs_Memory r, sz_Memory held),
         (''spec.resources.max.disk'', mx_Disk (rs_Max r), rs_Disk r, sz_Disk held)])"

section \<open>Scheduling\<close>

definition SchedulingQueued :: string where "SchedulingQueued = ''queued''"
definition DefaultQueueName :: string where "DefaultQueueName = ''default''"

definition Queued :: "Environment \<Rightarrow> bool" where
  "Queued env \<longleftrightarrow> ds_Mode (en_Scheduling (ev_Spec env)) = SchedulingQueued"

definition QueuesOf :: "Environment \<Rightarrow> string list" where
  "QueuesOf env =
     (if ds_Queues (en_Scheduling (ev_Spec env)) = [] then [DefaultQueueName] else ds_Queues (en_Scheduling (ev_Spec env)))"

definition defaultQueue :: "Scheduling \<Rightarrow> Environment \<Rightarrow> Scheduling" where
  "defaultQueue s env =
     (if \<not> Queued env \<or> sc_Queue s \<noteq> [] then s
      else let q = ds_DefaultQueue (en_Scheduling (ev_Spec env))
           in s\<lparr>sc_Queue := (if q = [] then hd (QueuesOf env) else q)\<rparr>)"

definition schedulingCapability :: "Sandbox \<Rightarrow> Environment \<Rightarrow> merr option" where
  "schedulingCapability obj env =
     (let s = sp_Scheduling (sb_Spec obj)
      in if \<not> Queued env
         then check_each (\<lambda>(path, set). if set then Some (failAt ''capability_unsupported'' path) else None)
           [(''spec.scheduling.priority'', sc_Priority s \<noteq> 0), (''spec.scheduling.queue'', sc_Queue s \<noteq> []),
            (''spec.scheduling.startDeadline'', sc_StartDeadline s \<noteq> []), (''spec.scheduling.preemptible'', sc_Preemptible s)]
         else if sc_Queue s \<notin> set (QueuesOf env) then Some (failAt ''invalid_field'' ''spec.scheduling.queue'')
         else None)"

definition priorityCeiling :: "int \<Rightarrow> int \<Rightarrow> merr option" where
  "priorityCeiling priority limit =
     (if limit < 0 \<or> (limit > 0 \<and> priority > limit) then Some (failAt ''ceiling_exceeded'' ''spec.scheduling.priority'') else None)"

section \<open>What the environment serves\<close>

definition ceilingCapability :: "Sandbox \<Rightarrow> Environment \<Rightarrow> merr option" where
  "ceilingCapability obj env = check_each
     (\<lambda>f. if cf_max f \<noteq> [] \<and> \<not> cf_autosize f then Some (failAt ''capability_unsupported'' (cf_path f)) else None)
     (ceilingFields (sp_Resources (sb_Spec obj)) (cp_Autosize (et_Capabilities (ev_Status env))))"

definition hostsOf :: "Environment \<Rightarrow> HostInfo list" where
  "hostsOf env = map hs_Host (et_Hosts (ev_Status env))"

definition hostWorkspaceCapability :: "Sandbox \<Rightarrow> Environment \<Rightarrow> merr option" where
  "hostWorkspaceCapability obj env =
     (let folder = ws_Host (sp_Workspace (sb_Spec obj)); hosts = hostsOf env
      in if folder = [] then None
         else if \<not> cp_HostWorkspace (et_Capabilities (ev_Status env))
              then Some (failAt ''capability_unsupported'' ''spec.workspace.host'')
         else if hosts = [] then Some (failAt ''workspace_not_granted'' ''spec.workspace.host'')
         else check_each (\<lambda>h. if HostInfo_Grant h folder = None
                              then Some (failAt ''workspace_not_granted'' ''spec.workspace.host'') else None) hosts)"

definition WarningEgressNotEnforced :: string where
  "WarningEgressNotEnforced = ''This environment enforces no egress rule; the boundary is recorded and status.conditions reports EgressEnforced false.''"

definition WarningEgressNarrowed :: string where
  "WarningEgressNarrowed = ''This environment's host narrows the egress boundary; the sandbox gets''"

definition egressCapability :: "Sandbox \<Rightarrow> Environment \<Rightarrow> merr + string list" where
  "egressCapability obj env =
     (let e = egress_of obj; modes = cp_Egress (et_Capabilities (ev_Status env))
      in if modes = []
         then (if eg_Mode e = EgressOpen \<and> eg_DeniedHosts e = [] then Inr [] else Inr [WarningEgressNotEnforced])
         else if eg_Mode e \<notin> set modes then Inl (failAt ''capability_unsupported'' pathEgressMode)
         else Inr [])"

text \<open>The result carries the object's egress, which the host's network replaces where it narrows.\<close>

definition egressOnHost :: "Sandbox \<Rightarrow> Environment \<Rightarrow> merr + (Egress \<times> string list)" where
  "egressOnHost obj env =
     (let asked = egress_of obj
      in case HostNetworkOf (hostsOf env) of
           None \<Rightarrow> rbind (egressCapability obj env) (\<lambda>ws. Inr (asked, ws))
         | Some network \<Rightarrow>
             let got = NarrowEgress asked network
             in if eg_Mode got = eg_Mode asked \<and> eg_AllowedHosts got = eg_AllowedHosts asked \<and> eg_DeniedHosts got = eg_DeniedHosts asked
                then Inr (asked, [])
                else Inr (got, [WarningEgressNarrowed @ '' '' @ eg_Mode got
                       @ (if eg_AllowedHosts got \<noteq> [] then '' to '' @ join_with '', '' (eg_AllowedHosts got) else [])
                       @ (if eg_DeniedHosts got \<noteq> [] then '' except '' @ join_with '', '' (eg_DeniedHosts got) else [])
                       @ ''.'']))"

definition portCapability :: "Sandbox \<Rightarrow> Environment \<Rightarrow> bool \<Rightarrow> merr option" where
  "portCapability obj env member =
     (let caps = et_Capabilities (ev_Status env)
      in check_indexed
        (\<lambda>i p. if pt_Expose p = ''mesh'' \<and> \<not> cp_Mesh caps then Some (failAt ''capability_unsupported'' (portPath i ''expose''))
               else if pt_Expose p = ''mesh'' \<and> \<not> member then Some (failAt ''invalid_field'' (portPath i ''expose''))
               else if pt_Expose p = ''public'' \<and> \<not> cp_Ingress caps
                    then Some (failAt ''capability_unsupported'' (portPath i ''expose''))
               else None)
        0 (nw_Ports (sp_Network (sb_Spec obj))))"

definition inferEgressMode :: "Egress \<Rightarrow> bool \<Rightarrow> Egress" where
  "inferEgressMode e mountsASecret =
     (if eg_Mode e \<noteq> [] then e
      else if eg_AllowedHosts e \<noteq> [] then e\<lparr>eg_Mode := EgressAllowlist\<rparr>
      else if eg_DeniedHosts e \<noteq> [] then e\<lparr>eg_Mode := EgressOpen\<rparr>
      else if mountsASecret then e\<lparr>eg_Mode := EgressAllowlist\<rparr>
      else e\<lparr>eg_Mode := EgressOpen\<rparr>)"

section \<open>A child reaches at most where its parent reaches\<close>

lemma EgressModeRank_simps [simp]:
  "EgressModeRank EgressOpen = 0" "EgressModeRank EgressAllowlist = 1" "EgressModeRank EgressNone = 2"
  by (simp_all add: EgressModeRank_def EgressModeOrder_def)

lemma EgressModeRank_nonneg:
  "0 \<le> EgressModeRank m \<longleftrightarrow> m = EgressOpen \<or> m = EgressAllowlist \<or> m = EgressNone"
  by (auto simp: EgressModeRank_def EgressModeOrder_def)

lemma allow_within:
  "\<not> list_ex (\<lambda>p. \<not> HostCovers outer p) inner \<Longrightarrow> reach inner \<subseteq> reach outer"
  by (auto simp: list_ex_iff reach_def [of inner] dest: HostCovers_reach)

text \<open>The one pair of modes the rules do not contain is an allow list held under a deny list.\<close>

lemma egressBoundary_reach:
  assumes "egressBoundary child over = []" and "0 \<le> EgressModeRank (eg_Mode over)"
    and "\<not> (eg_Mode child = EgressAllowlist \<and> eg_Mode over = EgressOpen)"
  shows "egress_reach child \<subseteq> egress_reach over"
  using assms allow_within [of "eg_AllowedHosts over" "eg_AllowedHosts child"]
    allow_within [of "eg_DeniedHosts child" "eg_DeniedHosts over"]
  by (auto simp: egressBoundary_def egress_reach_def EgressModeRank_nonneg split: if_splits)

lemma egressNarrowing_reach:
  assumes "egressNarrowing was now = []" and "0 \<le> EgressModeRank (eg_Mode was)"
    and "\<not> (eg_Mode now = EgressAllowlist \<and> eg_Mode was = EgressOpen)"
  shows "egress_reach now \<subseteq> egress_reach was"
  using assms allow_within [of "eg_AllowedHosts was" "eg_AllowedHosts now"]
    allow_within [of "eg_DeniedHosts now" "eg_DeniedHosts was"]
  by (auto simp: egressNarrowing_def egress_reach_def EgressModeRank_nonneg split: if_splits)

text \<open>Every pattern of an allow list that is refused under a deny list is one the deny list covers
  whole; a pattern that only overlaps it passes.\<close>

lemma egressBoundary_allow_under_open:
  assumes "egressBoundary child over = []" and "eg_Mode child = EgressAllowlist" and "eg_Mode over = EgressOpen"
    and "\<And>p q. p \<in> set (eg_AllowedHosts child) \<Longrightarrow> q \<in> set (eg_DeniedHosts over) \<Longrightarrow> \<not> HostPatternCovers p q"
  shows "egress_reach child \<subseteq> egress_reach over"
proof -
  have "\<not> HostPatternCovers q p" if "p \<in> set (eg_AllowedHosts child)" "q \<in> set (eg_DeniedHosts over)" for p q
    using assms(1-3) that by (auto simp: egressBoundary_def HostCovers_iff list_ex_iff split: if_splits)
  then have "pattern_reach p \<inter> pattern_reach q = {}"
    if "p \<in> set (eg_AllowedHosts child)" "q \<in> set (eg_DeniedHosts over)" for p q
    using overlap_iff_common [of p q] assms(4) that by (auto simp: hostsOverlap_def)
  then show ?thesis using assms(2,3) by (fastforce simp: egress_reach_def reach_def)
qed

lemma amounts_above_Nil:
  "amounts_above fs = Inr [] \<Longrightarrow> (path, child, bound) \<in> set fs \<Longrightarrow> child \<noteq> [] \<Longrightarrow>
   ParseQuantity bound = Inr limit \<Longrightarrow> \<exists>want. ParseQuantity child = Inr want \<and> want \<le> limit"
proof (induction fs rule: amounts_above.induct)
  case (2 p c b fs)
  have "bound \<noteq> []" using 2 by (auto simp: ParseQuantity_def)
  then show ?case
    using 2 by (auto simp: rbind_Inr split: if_splits sum.splits)
qed simp

text \<open>Rule by rule, what a child that passes is held to.\<close>

lemma boundary_None:
  assumes "boundary obj (Some p) now = None"
  shows "egressBoundary (egress_of obj) (egress_of p) = []" and "secretBoundary obj p = []" and "volumeBoundary obj p = []"
    and "amounts_above (resource_bounds (sp_Resources (sb_Spec obj)) (sp_Resources (sb_Spec p))) = Inr []"
    and "\<not> ttlOutlivesParent (lc_TTL (sp_Lifecycle (sb_Spec obj))) (st_ExpiresAt (sb_Status p)) now"
    and "0 < ss_Depth (st_Spawn (sb_Status p))"
    and "sw_Depth (ms_Spawn (sp_Mesh (sb_Spec obj))) < ss_Depth (st_Spawn (sb_Status p))"
    and "\<not> (ss_Used (st_Spawn (sb_Status p)) < ss_Budget (st_Spawn (sb_Status p))
           \<and> ss_Budget (st_Spawn (sb_Status p)) - ss_Used (st_Spawn (sb_Status p)) \<le> sw_Budget (ms_Spawn (sp_Mesh (sb_Spec obj))))"
    and "sp_Environment (sb_Spec obj) = sp_Environment (sb_Spec p)"
  using assms by (auto simp: boundary_def Let_def split: sum.splits if_splits)

lemma nth_in_enumerate: "x \<in> set xs \<Longrightarrow> \<exists>i. (i, x) \<in> set (enumerate 0 xs)"
  by (metis image_iff map_snd_enumerate prod.collapse set_map)

lemma concat_map_Nil: "concat (map f xs) = [] \<Longrightarrow> x \<in> set xs \<Longrightarrow> f x = []"
  by simp

lemma secretBoundary_Nil:
  assumes "secretBoundary obj p = []"
  shows "sm_Name ` set (sp_Secrets (sb_Spec obj)) \<subseteq> sm_Name ` set (sp_Secrets (sb_Spec p))"
proof (rule image_subsetI)
  fix m
  assume m: "m \<in> set (sp_Secrets (sb_Spec obj))"
  obtain i where "(i, m) \<in> set (enumerate 0 (sp_Secrets (sb_Spec obj)))"
    using nth_in_enumerate [OF m] by (elim exE)
  from concat_map_Nil [OF assms [unfolded secretBoundary_def] this]
  show "sm_Name m \<in> sm_Name ` set (sp_Secrets (sb_Spec p))"
    by (simp split: if_splits)
qed

lemma volumeBoundary_Nil:
  assumes "volumeBoundary obj p = []" and "m \<in> set (sp_Volumes (sb_Spec obj))"
  shows "\<exists>w. (vm_Volume m, w) \<in> set (volume_refs p) \<and> (vm_ReadOnly m \<or> (vm_Volume m, True) \<in> set (volume_refs p))"
proof -
  obtain i where "(i, m) \<in> set (enumerate 0 (sp_Volumes (sb_Spec obj)))"
    using nth_in_enumerate [OF assms(2)] by (elim exE)
  from concat_map_Nil [OF assms(1) [unfolded volumeBoundary_def Let_def] this]
  have "vm_Volume m \<in> set (map fst (volume_refs p))" "vm_ReadOnly m \<or> (vm_Volume m, True) \<in> set (volume_refs p)"
    by (simp_all split: if_splits)
  then show ?thesis by auto
qed

text \<open>A pair of objects that carry only what the boundary rules read.\<close>

definition bare_sandbox :: "SandboxSpec \<Rightarrow> SandboxStatus \<Rightarrow> Sandbox" where
  "bare_sandbox spec status = \<lparr>sb_APIVersion = ''cella.latere.ai/v1beta1'', sb_Kind = ''Sandbox'',
     sb_Metadata = \<lparr>md_Name = [], md_Labels = [], md_Annotations = []\<rparr>, sb_Spec = spec, sb_Status = status\<rparr>"

definition with_egress :: "string \<Rightarrow> string list \<Rightarrow> string list \<Rightarrow> SandboxSpec" where
  "with_egress mode allowed denied = SandboxSpec0\<lparr>sp_Network :=
     \<lparr>nw_Egress = \<lparr>eg_Mode = mode, eg_AllowedHosts = allowed, eg_DeniedHosts = denied\<rparr>, nw_Ports = []\<rparr>\<rparr>"

definition spawning :: "int \<Rightarrow> int \<Rightarrow> gotime \<Rightarrow> SandboxStatus" where
  "spawning budget depth expires = SandboxStatus0\<lparr>st_Spawn := \<lparr>ss_Budget = budget, ss_Used = 0, ss_Depth = depth\<rparr>, st_ExpiresAt := expires\<rparr>"

lemmas bare_defs = bare_sandbox_def with_egress_def spawning_def SandboxSpec0_def SandboxStatus0_def

lemmas boundary_eval = boundary_def Let_def resource_bounds_def ceilingOf_def egressBoundary_def secretBoundary_def
  volumeBoundary_def volume_refs_def ttlOutlivesParent_def



text \<open>An allow list under an open parent is contained as long as none of its patterns covers a
  name the parent denies; and that side condition is needed, because the check itself only
  refuses a pattern the deny list covers whole. A child allowed a wildcard over a denied name
  passes and reaches the name its parent may not.\<close>

theorem boundary_allow_under_deny_escapes:
  "let p = bare_sandbox (with_egress EgressOpen [] [''a.example.com'']) (spawning 2 1 0);
       obj = bare_sandbox (with_egress EgressAllowlist [''*.example.com''] []) SandboxStatus0
   in boundary obj (Some p) now = None
      \<and> ''a.example.com'' \<in> egress_reach (egress_of obj) \<and> ''a.example.com'' \<notin> egress_reach (egress_of p)"
proof -
  have "HostCovers [''a.example.com''] ''*.example.com'' = False" "matches_any [''*.example.com''] ''a.example.com''"
    "matches_any [''a.example.com''] ''a.example.com''"
    by code_simp+
  then show ?thesis
    by (simp add: boundary_eval bare_defs egress_reach_def matches_any_reach)
qed

text \<open>The compute of a child that passes is inside its parent's: every amount and every ceiling
  it names, on an axis the parent bounds, is a quantity no larger than the most the parent may
  itself hold.\<close>

theorem boundary_bounds_compute:
  assumes "boundary obj (Some p) now = None"
    and "(path, amount, bound) \<in> set (resource_bounds (sp_Resources (sb_Spec obj)) (sp_Resources (sb_Spec p)))"
    and "amount \<noteq> []" and "ParseQuantity bound = Inr limit"
  shows "\<exists>want. ParseQuantity amount = Inr want \<and> want \<le> limit"
  by (rule amounts_above_Nil [OF boundary_None(4) [OF assms(1)] assms(2-4)])

theorem boundary_bounds_compute_witness:
  "\<exists>want. ParseQuantity ''512Mi'' = Inr want \<and> want \<le> 1073741824000"
proof -
  let ?r = "\<lambda>m. SandboxSpec0\<lparr>sp_Resources := \<lparr>rs_CPU = [], rs_Memory = m, rs_Disk = [], rs_Max = \<lparr>mx_CPU = [], mx_Memory = [], mx_Disk = []\<rparr>\<rparr>\<rparr>"
  let ?p = "bare_sandbox (?r ''1Gi'') (spawning 2 1 0)" and ?obj = "bare_sandbox (?r ''512Mi'') SandboxStatus0"
  have q: "ParseQuantity ''512Mi'' = Inr 536870912000" "ParseQuantity ''1Gi'' = Inr 1073741824000" by code_simp+
  then have "boundary ?obj (Some ?p) 0 = None" by (simp add: boundary_eval bare_defs)
  then show ?thesis
    using boundary_bounds_compute [of ?obj ?p 0 "''spec.resources.memory''" "''512Mi''" "''1Gi''" 1073741824000] q
    by (simp add: resource_bounds_def ceilingOf_def bare_defs Let_def)
qed

section \<open>A child never outlives its parent\<close>

lemma truncate_second:
  assumes "0 < duration_Truncate (time_Sub t u) Second"
  shows "\<exists>k>0. duration_Truncate (time_Sub t u) Second = int k * Second" and "duration_Truncate (time_Sub t u) Second \<le> t - u"
    and "duration_Truncate (time_Sub t u) Second \<le> MaxInt64"
proof -
  let ?d = "time_Sub t u"
  have pos: "0 < ?d"
  proof (rule ccontr)
    assume "\<not> 0 < ?d"
    moreover have "go_quot ?d Second * Second \<le> 0" if "?d \<le> 0"
      using that by (simp add: go_quot_def Second_def sgn_if pos_imp_zdiv_nonneg_iff)
    ultimately show False using assms by (simp add: duration_Truncate_def go_rem_def Second_def mult.commute)
  qed
  have e: "duration_Truncate ?d Second = (?d div Second) * Second"
    using pos by (simp add: duration_Truncate_def go_rem_nonneg Second_def minus_mod_eq_div_mult)
  have "0 < ?d div Second" using assms e by (simp add: zero_less_mult_iff Second_def)
  then show "\<exists>k>0. duration_Truncate ?d Second = int k * Second"
    using e by (intro exI [of _ "nat (?d div Second)"]) simp
  have "(?d div Second) * Second \<le> ?d"
    using div_mult_mod_eq [of ?d Second] pos_mod_sign [of Second ?d] by (simp add: Second_def)
  moreover have "?d \<le> MaxInt64" "?d \<le> t - u"
    using pos by (auto simp: time_Sub_def MinInt64_def)
  ultimately show "duration_Truncate ?d Second \<le> t - u" "duration_Truncate ?d Second \<le> MaxInt64" using e by simp_all
qed

text \<open>A child that named no life of its own, under a parent with at least a second left, is given
  one that ends inside its parent's: rule 6 accepts it at the same reading of the clock,
  whatever default the operator configured.\<close>

theorem defaultChildTTL_conforms:
  assumes "st_ExpiresAt (sb_Status p) \<noteq> 0" and "now \<noteq> 0"
    and "0 < duration_Truncate (time_Sub (st_ExpiresAt (sb_Status p)) now) Second"
  shows "(\<exists>life. ParseDuration (lc_TTL (defaultChildTTL l (Some p) now named)) = Inr (life, False)
           \<and> now + life \<le> st_ExpiresAt (sb_Status p))
    \<and> \<not> ttlOutlivesParent (lc_TTL (defaultChildTTL l (Some p) now named)) (st_ExpiresAt (sb_Status p)) now"
proof -
  let ?e = "st_ExpiresAt (sb_Status p)"
  let ?rem = "duration_Truncate (time_Sub ?e now) Second"
  obtain k where k: "0 < k" "?rem = int k * Second" using truncate_second(1) [OF assms(3)] by blast
  have le: "?rem \<le> ?e - now" "?rem \<le> MaxInt64" using truncate_second(2,3) [OF assms(3)] by simp_all
  have parse: "ParseDuration (duration_String ?rem) = Inr (?rem, False)"
    using ParseDuration_String [OF k(1)] le(2) k(2) by simp
  have "\<exists>life. ParseDuration (lc_TTL (defaultChildTTL l (Some p) now named)) = Inr (life, False) \<and> life \<le> ?rem"
    using assms parse by (auto simp: defaultChildTTL_def Let_def split: sum.splits if_splits)
  then obtain life where "ParseDuration (lc_TTL (defaultChildTTL l (Some p) now named)) = Inr (life, False)" "life \<le> ?rem" by blast
  with le(1) show ?thesis by (simp add: ttlOutlivesParent_def)
qed

theorem defaultChildTTL_conforms_witness:
  "\<not> ttlOutlivesParent (lc_TTL (defaultChildTTL \<lparr>lc_AutoStop = [], lc_TTL = DurationNever, lc_AutoDelete = []\<rparr>
       (Some (bare_sandbox SandboxSpec0 (spawning 1 1 (90 * Second + 5)))) 5 False)) (90 * Second + 5) 5"
proof -
  have "0 < duration_Truncate (time_Sub (90 * Second + 5) 5) Second" by code_simp
  moreover have "st_ExpiresAt (sb_Status (bare_sandbox SandboxSpec0 (spawning 1 1 (90 * Second + 5)))) = 90 * Second + 5"
    by (simp add: bare_defs)
  ultimately show ?thesis
    using defaultChildTTL_conforms [of "bare_sandbox SandboxSpec0 (spawning 1 1 (90 * Second + 5))" 5] by (simp add: Second_def)
qed

text \<open>The clock is read again for rule 6, after the lookups and the admission step. A child that
  was given its parent's whole remaining life at the first reading is refused at a second
  reading one nanosecond later, when the parent's remaining life was a whole number of seconds.\<close>

theorem defaultChildTTL_refused_later:
  "let p = bare_sandbox (with_egress EgressOpen [] []) (spawning 2 1 (90 * Second + 5));
       l = defaultChildTTL \<lparr>lc_AutoStop = [], lc_TTL = [], lc_AutoDelete = []\<rparr> (Some p) 5 False;
       obj = bare_sandbox ((with_egress EgressOpen [] [])\<lparr>sp_Lifecycle := l\<rparr>) SandboxStatus0
   in boundary obj (Some p) 5 = None \<and> boundary obj (Some p) 6 = Some (failPaths ''boundary_exceeded'' [''spec.lifecycle.ttl''])"
proof -
  have "defaultChildTTL \<lparr>lc_AutoStop = [], lc_TTL = [], lc_AutoDelete = []\<rparr>
      (Some (bare_sandbox (with_egress EgressOpen [] []) (spawning 2 1 (90 * Second + 5)))) 5 False
    = \<lparr>lc_AutoStop = ''1m30s'', lc_TTL = ''1m30s'', lc_AutoDelete = []\<rparr>"
    and "ParseDuration ''1m30s'' = Inr (90 * Second, False)"
    by code_simp+
  then show ?thesis by (simp add: boundary_eval bare_defs Second_def)
qed

text \<open>A parent in its last second, or past its expiry, bounds nothing: a child that names no life,
  where the operator configures no default, keeps none and passes rule 6, so it has no expiry at
  all under a parent that has one.\<close>

theorem boundary_expired_parent_passes:
  "let p = bare_sandbox (with_egress EgressOpen [] []) (spawning 2 1 100);
       l = defaultChildTTL \<lparr>lc_AutoStop = [], lc_TTL = [], lc_AutoDelete = []\<rparr> (Some p) 200 False;
       obj = bare_sandbox ((with_egress EgressOpen [] [])\<lparr>sp_Lifecycle := l\<rparr>) SandboxStatus0
   in lc_TTL l = [] \<and> boundary obj (Some p) 200 = None"
proof -
  have "defaultChildTTL \<lparr>lc_AutoStop = [], lc_TTL = [], lc_AutoDelete = []\<rparr>
      (Some (bare_sandbox (with_egress EgressOpen [] []) (spawning 2 1 100))) 200 False
    = \<lparr>lc_AutoStop = [], lc_TTL = [], lc_AutoDelete = []\<rparr>"
    and "ParseDuration [] = Inl DEmpty"
    by code_simp+
  then show ?thesis by (simp add: boundary_eval bare_defs)
qed

section \<open>A workload cannot widen its own boundary\<close>

text \<open>An update a sandbox makes of itself that passes the narrowing rule leaves it reaching no
  name it did not reach, with no secret it did not mount and no more of either spawn axis. As at
  the parent's boundary, the pair left out is an allow list that replaces an open egress.\<close>

theorem narrowing_contains:
  assumes "narrowing existing obj = None" and "0 \<le> EgressModeRank (eg_Mode (egress_of existing))"
    and "\<not> (eg_Mode (egress_of obj) = EgressAllowlist \<and> eg_Mode (egress_of existing) = EgressOpen)"
  shows "egress_reach (egress_of obj) \<subseteq> egress_reach (egress_of existing)
    \<and> sm_Name ` set (sp_Secrets (sb_Spec obj)) \<subseteq> sm_Name ` set (sp_Secrets (sb_Spec existing))
    \<and> sw_Budget (ms_Spawn (sp_Mesh (sb_Spec obj))) \<le> sw_Budget (ms_Spawn (sp_Mesh (sb_Spec existing)))
    \<and> sw_Depth (ms_Spawn (sp_Mesh (sb_Spec obj))) \<le> sw_Depth (ms_Spawn (sp_Mesh (sb_Spec existing)))"
proof -
  have n: "egressNarrowing (egress_of existing) (egress_of obj) = []" "\<not> narrowingSecrets existing obj" "meshNarrowing existing obj = []"
    using assms(1) by (simp_all add: narrowing_def Let_def split: if_splits)
  then show ?thesis
    using egressNarrowing_reach [OF n(1) assms(2,3)]
    by (auto simp: narrowingSecrets_def meshNarrowing_def Let_def list_ex_iff split: if_splits)
qed

theorem narrowing_contains_witness:
  "egress_reach (egress_of (bare_sandbox (with_egress EgressAllowlist [''a.example.com''] []) SandboxStatus0))
   \<subseteq> egress_reach (egress_of (bare_sandbox (with_egress EgressAllowlist [''*.example.com''] []) SandboxStatus0))"
proof -
  let ?e = "bare_sandbox (with_egress EgressAllowlist [''*.example.com''] []) SandboxStatus0"
  let ?o = "bare_sandbox (with_egress EgressAllowlist [''a.example.com''] []) SandboxStatus0"
  have "HostCovers [''*.example.com''] ''a.example.com''" by code_simp
  then have "narrowing ?e ?o = None"
    by (simp add: narrowing_def Let_def egressNarrowing_def narrowingSecrets_def meshNarrowing_def bare_defs)
  then show ?thesis using narrowing_contains [of ?e ?o] by (simp add: bare_defs)
qed

text \<open>That pair is not refused. A sandbox that is open but for one name may replace its egress by
  an allow list of that very name, and then reaches what its owner denied it.\<close>

theorem narrowing_open_to_list_escapes:
  "let existing = bare_sandbox (with_egress EgressOpen [] [''a.example.com'']) SandboxStatus0;
       obj = bare_sandbox (with_egress EgressAllowlist [''a.example.com''] []) SandboxStatus0
   in narrowing existing obj = None
      \<and> ''a.example.com'' \<in> egress_reach (egress_of obj) \<and> ''a.example.com'' \<notin> egress_reach (egress_of existing)"
proof -
  have "matches_any [''a.example.com''] ''a.example.com''" by code_simp
  then show ?thesis
    by (simp add: narrowing_def Let_def egressNarrowing_def narrowingSecrets_def meshNarrowing_def bare_defs
        egress_reach_def matches_any_reach)
qed

end
