(* ===== verification/Manifest_Resolve.thy ===== *)
theory Manifest_Resolve
  imports Manifest_Boundary
begin

text \<open>
  \<^verbatim>\<open>manifest/resolve.go\<close> with the reference stages of \<^verbatim>\<open>secretref.go\<close> and \<^verbatim>\<open>volumeref.go\<close>: the
  pipeline every surface hands a Sandbox manifest to. The lookups and the admission step are
  the operator's; they are functions of the options, and nothing is assumed of their answers.
  The clock is read twice, once for the defaults and once for the boundary, so the options
  carry the two readings.
\<close>

section \<open>Options\<close>

text \<open>The errors a seam answers with: \<^verbatim>\<open>ErrNotFound\<close>, an error of this package, or another one.\<close>

datatype seam_err = ErrNotFound | KnownErr merr | OtherErr

record Actor =
  ac_Subject :: string
  ac_Issuer :: string
  ac_Sub :: string
  ac_Workload :: bool

record Lookup =
  lk_Environment :: "string \<Rightarrow> seam_err + Environment option"
  lk_Secret :: "string \<Rightarrow> seam_err + Secret option"
  lk_Volume :: "string \<Rightarrow> seam_err + Volume option"

record Defaults =
  df_CPU :: Quantity
  df_Memory :: Quantity
  df_Disk :: Quantity
  df_AutoStop :: Duration
  df_TTL :: Duration
  df_AutoDelete :: Duration
  df_Image :: string
  df_StartMemory :: Quantity
  df_MemoryCeiling :: Quantity

record Ceilings =
  ce_CPU :: Quantity
  ce_Memory :: Quantity
  ce_Disk :: Quantity
  ce_TTL :: Duration

record Limits =
  li_MaxPriority :: int

record AdmitRequest =
  ar_Actor :: Actor
  ar_Claims :: strmap
  ar_Workload :: "SandboxStatus option"
  ar_Action :: string
  ar_Existing :: "Sandbox option"
  ar_Environment :: Environment
  ar_RequestID :: string
  ar_Volume :: "Volume option"

type_synonym AdmitFunc = "Sandbox \<Rightarrow> AdmitRequest \<Rightarrow> seam_err + (Sandbox option \<times> string list)"

record Options =
  op_Actor :: Actor
  op_Lookup :: "Lookup option"
  op_Defaults :: Defaults
  op_Ceilings :: Ceilings
  op_Limits :: Limits
  op_Admit :: "AdmitFunc option"
  op_Claims :: strmap
  op_Workload :: "SandboxStatus option"
  op_RequestID :: string
  op_Existing :: "Sandbox option"
  op_Parent :: "Sandbox option"
  op_NowDefaulting :: gotime
  op_NowBoundary :: gotime
  op_NewName :: "string option"

record Resolved =
  re_Sandbox :: Sandbox
  re_Secrets :: "Secret list"
  re_Volumes :: "Volume list"
  re_Warnings :: "string list"

section \<open>Lookups\<close>

definition lookup_answer :: "string \<Rightarrow> seam_err + 'a option \<Rightarrow> merr + 'a" where
  "lookup_answer path ans =
     (case ans of
        Inl ErrNotFound \<Rightarrow> Inl (failAt ''not_found'' path)
      | Inl (KnownErr known) \<Rightarrow> Inl known
      | Inl OtherErr \<Rightarrow> Inl (failAt ''authorizer_unavailable'' path)
      | Inr None \<Rightarrow> Inl (failAt ''not_found'' path)
      | Inr (Some x) \<Rightarrow> Inr x)"

definition lookupEnvironment :: "Lookup \<Rightarrow> string \<Rightarrow> merr + Environment" where
  "lookupEnvironment l name = lookup_answer ''spec.environment'' (lk_Environment l name)"

definition lookupSecret :: "Lookup \<Rightarrow> nat \<Rightarrow> string \<Rightarrow> merr + Secret" where
  "lookupSecret l i nameOrID = lookup_answer (pathSecretAt i ''name'') (lk_Secret l nameOrID)"

definition lookupVolume :: "Lookup \<Rightarrow> string \<Rightarrow> string \<Rightarrow> merr + Volume" where
  "lookupVolume l path nameOrID = lookup_answer path (lk_Volume l nameOrID)"

text \<open>The lookup of one fixed environment, which knows no secret and no volume.\<close>

definition FixedEnvironment :: "Environment \<Rightarrow> Lookup" where
  "FixedEnvironment env =
     \<lparr>lk_Environment = (\<lambda>name. if name \<noteq> [] \<and> name \<noteq> md_Name (ev_Metadata env) then Inl ErrNotFound else Inr (Some env)),
      lk_Secret = (\<lambda>_. Inl ErrNotFound), lk_Volume = (\<lambda>_. Inl ErrNotFound)\<rparr>"

definition WithSecrets :: "Lookup \<Rightarrow> (string \<Rightarrow> seam_err + Secret option) option \<Rightarrow> Lookup" where
  "WithSecrets l f = l\<lparr>lk_Secret := (case f of None \<Rightarrow> (\<lambda>_. Inl ErrNotFound) | Some g \<Rightarrow> g)\<rparr>"

definition WithVolumes :: "Lookup \<Rightarrow> (string \<Rightarrow> seam_err + Volume option) option \<Rightarrow> Lookup" where
  "WithVolumes l f = l\<lparr>lk_Volume := (case f of None \<Rightarrow> (\<lambda>_. Inl ErrNotFound) | Some g \<Rightarrow> g)\<rparr>"

section \<open>Stage 2: defaults\<close>

definition lowerQuantity :: "Quantity \<Rightarrow> Quantity \<Rightarrow> Quantity" where
  "lowerQuantity a b =
     (case ParseQuantity b of
        Inl _ \<Rightarrow> a
      | Inr y \<Rightarrow> (case ParseQuantity a of Inl _ \<Rightarrow> b | Inr x \<Rightarrow> if y < x then b else a))"

definition sizeMemory :: "Resources \<Rightarrow> Environment \<Rightarrow> Options \<Rightarrow> Resources" where
  "sizeMemory r env o' =
     (let d = op_Defaults o'
      in if rs_Memory r \<noteq> [] \<or> \<not> az_Memory (cp_Autosize (et_Capabilities (ev_Status env))) then r
         else case op_Existing o' of
           Some held \<Rightarrow>
             let h = sp_Resources (sb_Spec held)
             in if mx_Memory (rs_Max h) \<noteq> []
                then let r = r\<lparr>rs_Memory := rs_Memory h\<rparr>
                     in if mx_Memory (rs_Max r) = [] then r\<lparr>rs_Max := (rs_Max r)\<lparr>mx_Memory := mx_Memory (rs_Max h)\<rparr>\<rparr> else r
                else r
         | None \<Rightarrow>
             if df_StartMemory d = [] \<or> df_MemoryCeiling d = [] then r
             else let ceil = (if mx_Memory (rs_Max r) \<noteq> [] then mx_Memory (rs_Max r)
                              else case op_Parent o' of
                                     None \<Rightarrow> df_MemoryCeiling d
                                   | Some p \<Rightarrow> lowerQuantity (df_MemoryCeiling d)
                                       (ceilingOf (mx_Memory (rs_Max (sp_Resources (sb_Spec p)))) (rs_Memory (sp_Resources (sb_Spec p)))));
                      start = lowerQuantity (df_StartMemory d) ceil;
                      r = r\<lparr>rs_Memory := start\<rparr>
                  in if mx_Memory (rs_Max r) = [] then r\<lparr>rs_Max := (rs_Max r)\<lparr>mx_Memory := ceil\<rparr>\<rparr> else r)"

definition or_default :: "string \<Rightarrow> string \<Rightarrow> string" where
  "or_default v d = (if v = [] then d else v)"

definition runsImages :: "Environment \<Rightarrow> bool" where
  "runsImages env \<longleftrightarrow> et_Isolation (ev_Status env) \<noteq> ''none'' \<and> et_Isolation (ev_Status env) \<noteq> ''process''"

definition default_lifecycle :: "Lifecycle \<Rightarrow> Options \<Rightarrow> Lifecycle" where
  "default_lifecycle l o' =
     (let d = op_Defaults o'; namedTTL = (lc_TTL l \<noteq> []); namedStop = (lc_AutoStop l \<noteq> []);
          l = l\<lparr>lc_AutoStop := or_default (lc_AutoStop l) (df_AutoStop d), lc_TTL := or_default (lc_TTL l) (df_TTL d),
                lc_AutoDelete := or_default (lc_AutoDelete l) (df_AutoDelete d)\<rparr>
      in if namedTTL then l else defaultChildTTL l (op_Parent o') (op_NowDefaulting o') namedStop)"

definition default_workspace :: "Workspace \<Rightarrow> Workspace" where
  "default_workspace w =
     (let w = (if ws_Host w \<noteq> [] then w\<lparr>ws_Path := ws_Host w\<rparr> else w);
          w = (if ws_Path w = [] then w\<lparr>ws_Path := DefaultWorkspacePath\<rparr> else w)
      in if ws_Source w = [] \<and> ws_Host w = [] then w\<lparr>ws_Source := WorkspaceSourceEmpty\<rparr> else w)"

definition default_spec :: "Sandbox \<Rightarrow> Environment \<Rightarrow> Options \<Rightarrow> SandboxSpec" where
  "default_spec obj env o' =
     (let s = sb_Spec obj; d = op_Defaults o';
          r = sizeMemory (sp_Resources s) env o';
          r = r\<lparr>rs_CPU := or_default (rs_CPU r) (df_CPU d), rs_Memory := or_default (rs_Memory r) (df_Memory d),
                rs_Disk := or_default (rs_Disk r) (df_Disk d)\<rparr>;
          w = default_workspace (sp_Workspace s)
      in s\<lparr>sp_Environment := md_Name (ev_Metadata env),
           sp_Resources := r,
           sp_Lifecycle := default_lifecycle (sp_Lifecycle s) o',
           sp_Image := (if sp_Image s = [] \<and> runsImages env then df_Image d else sp_Image s),
           sp_Workspace := w,
           sp_Workdir := or_default (sp_Workdir s) (ws_Path w),
           sp_Scheduling := defaultQueue (sp_Scheduling s) env,
           sp_Network := (sp_Network s)\<lparr>nw_Egress := inferEgressMode (inheritEgress obj (op_Parent o')) (sp_Secrets s \<noteq> [])\<rparr>\<rparr>)"

definition defaulting :: "(string \<Rightarrow> bool) \<Rightarrow> Lookup \<Rightarrow> Sandbox \<Rightarrow> Options \<Rightarrow> merr + (Environment \<times> Sandbox)" where
  "defaulting vp l obj o' =
     (let named = (case op_NewName o' of
                     None \<Rightarrow> Inr obj
                   | Some name \<Rightarrow>
                       if md_Name (sb_Metadata obj) = []
                       then let obj = obj\<lparr>sb_Metadata := (sb_Metadata obj)\<lparr>md_Name := name\<rparr>\<rparr>
                            in guard_err (validateMetadata (sb_Metadata obj)) (Inr obj)
                       else Inr obj)
      in rbind named (\<lambda>obj.
         rbind (lookupEnvironment l (sp_Environment (sb_Spec obj))) (\<lambda>env.
           let obj = obj\<lparr>sb_Spec := default_spec obj env o'\<rparr>
           in if validateSpec vp (sb_Spec obj) \<noteq> None then Inl (ServerFault ''defaults'') else Inr (env, obj))))"

section \<open>Stage 3: admission\<close>

definition admit :: "(string \<Rightarrow> bool) \<Rightarrow> Sandbox \<Rightarrow> Environment \<Rightarrow> Options \<Rightarrow> merr + (Sandbox \<times> string list)" where
  "admit vp obj env o' =
     (case op_Admit o' of
        None \<Rightarrow> Inr (obj, [])
      | Some f \<Rightarrow>
          (case f obj \<lparr>ar_Actor = op_Actor o', ar_Claims = op_Claims o', ar_Workload = op_Workload o',
                       ar_Action = (if op_Existing o' = None then ''create'' else ''update''), ar_Existing = op_Existing o',
                       ar_Environment = env, ar_RequestID = op_RequestID o', ar_Volume = None\<rparr> of
             Inl (KnownErr known) \<Rightarrow> Inl known
           | Inl _ \<Rightarrow> Inl (fail ''admission_refused'')
           | Inr (None, _) \<Rightarrow> Inl (fail ''admission_refused'')
           | Inr (Some out, warnings) \<Rightarrow>
               let nxt = out\<lparr>sb_Status := SandboxStatus0\<rparr>
               in if sb_APIVersion nxt \<noteq> sb_APIVersion obj \<or> sb_Kind nxt \<noteq> sb_Kind obj then Inl (fail ''admission_refused'')
                  else if op_Existing o' \<noteq> None \<and> md_Name (sb_Metadata nxt) \<noteq> md_Name (sb_Metadata obj)
                       then Inl (fail ''admission_refused'')
                  else guard_err (validate vp nxt) (Inr (nxt, warnings))))"

definition imageRule :: "Sandbox \<Rightarrow> Environment \<Rightarrow> merr option" where
  "imageRule obj env =
     (if \<not> runsImages env
      then (if sp_Image (sb_Spec obj) \<noteq> [] then Some (failAt ''capability_unsupported'' ''spec.image'') else None)
      else if sp_Image (sb_Spec obj) = [] then Some (failAt ''missing_field'' ''spec.image'')
      else None)"

section \<open>Stage 4: references\<close>

definition companionNames :: "string \<Rightarrow> string list" where
  "companionNames env = [env @ ''_HEADER'', env @ ''_QUERY'']"

text \<open>The keys already taken, each with the path that took it; the newest entry is first.\<close>

fun take_keys :: "string \<Rightarrow> strmap \<Rightarrow> string list \<Rightarrow> merr + strmap" where
  "take_keys path taken [] = Inr taken"
| "take_keys path taken (k # ks) =
     (case map_of taken k of
        Some holder \<Rightarrow> Inl (failPaths ''invalid_field'' [path, holder])
      | None \<Rightarrow> take_keys path ((k, path) # taken) ks)"

fun mount_env_loop :: "nat \<Rightarrow> strmap \<Rightarrow> SecretMount list \<Rightarrow> merr option" where
  "mount_env_loop i taken [] = None"
| "mount_env_loop i taken (m # ms) =
     (let path = pathSecretAt i ''env''
      in if trim_space (sm_Name m) = [] then Some (failAt ''missing_field'' (pathSecretAt i ''name''))
         else if sm_Env m = [] then Some (failAt ''missing_field'' path)
         else if \<not> envPattern (sm_Env m) then Some (failAt ''invalid_field'' path)
         else if ReservedEnv (sm_Env m) then Some (failAt ''reserved_prefix'' path)
         else case take_keys path taken (sm_Env m # companionNames (sm_Env m)) of
                Inl e \<Rightarrow> Some e
              | Inr taken \<Rightarrow> mount_env_loop (Suc i) taken ms)"

definition mountEnvRules :: "Sandbox \<Rightarrow> merr option" where
  "mountEnvRules obj =
     mount_env_loop 0 (map (\<lambda>(k, v). (k, ''spec.env.'' @ k)) (sp_Env (sb_Spec obj))) (sp_Secrets (sb_Spec obj))"

text \<open>The overlap test of \<^verbatim>\<open>secretref.go\<close> normalizes its arguments first.\<close>

definition scopesOverlap :: "string \<Rightarrow> string \<Rightarrow> bool" where
  "scopesOverlap a b = (let a = NormalizeHost a; b = NormalizeHost b in HostPatternCovers a b \<or> HostPatternCovers b a)"

abbreviation scope_hosts :: "Secret \<Rightarrow> string list" where
  "scope_hosts s \<equiv> sk_Hosts (se_Scope (sec_Spec s))"

definition refuseSharedScopes :: "Secret list \<Rightarrow> merr option" where
  "refuseSharedScopes secrets =
     (case find (\<lambda>(i, j). list_ex (\<lambda>a. list_ex (scopesOverlap a) (scope_hosts (secrets ! j))) (scope_hosts (secrets ! i)))
             [(i, j). i \<leftarrow> [0..<length secrets], j \<leftarrow> [Suc i..<length secrets]] of
        None \<Rightarrow> None
      | Some (i, j) \<Rightarrow> Some (failPaths ''secret_host_conflict'' [pathSecretAt i ''name'', pathSecretAt j ''name'']))"

fun lookup_secrets :: "Lookup \<Rightarrow> nat \<Rightarrow> SecretMount list \<Rightarrow> merr + Secret list" where
  "lookup_secrets l i [] = Inr []"
| "lookup_secrets l i (m # ms) =
     rbind (lookupSecret l i (sm_Name m)) (\<lambda>s. rbind (lookup_secrets l (Suc i) ms) (\<lambda>ss. Inr (s # ss)))"

definition references :: "Lookup \<Rightarrow> Sandbox \<Rightarrow> merr + Secret list" where
  "references l obj =
     (if sp_Secrets (sb_Spec obj) = [] then Inr []
      else guard_err (mountEnvRules obj)
        (rbind (lookup_secrets l 0 (sp_Secrets (sb_Spec obj)))
          (\<lambda>secrets. guard_err (refuseSharedScopes secrets) (Inr secrets))))"

definition volumePaths :: "Sandbox \<Rightarrow> merr option" where
  "volumePaths obj = check_indexed
     (\<lambda>i m. if nests (vm_Path m) (ws_Path (sp_Workspace (sb_Spec obj)))
            then Some (failPaths ''path_conflict'' [pathVolumeAt i ''path'', ''spec.workspace.path'']) else None)
     0 (sp_Volumes (sb_Spec obj))"

fun lookup_volumes :: "Lookup \<Rightarrow> Sandbox \<Rightarrow> Volume list \<Rightarrow> VolumeMount list \<Rightarrow> merr + Volume list" where
  "lookup_volumes l obj vs [] = Inr vs"
| "lookup_volumes l obj vs (m # ms) =
     (let i = length vs; path = pathVolumeAt i ''volume''
      in rbind (lookupVolume l path (vm_Volume m)) (\<lambda>v.
           if vp_Environment (vo_Spec v) \<noteq> sp_Environment (sb_Spec obj) then Inl (failAt ''invalid_field'' path)
           else if vt_Phase (vo_Status v) \<noteq> ''Available'' \<and> vt_Phase (vo_Status v) \<noteq> ''Pending'' then Inl (failAt ''invalid_field'' path)
           else if vp_Access (vo_Spec v) = ''shared-read'' \<and> \<not> vm_ReadOnly m then Inl (failAt ''volume_busy'' path)
           else case find_index (\<lambda>u. vt_ID (vo_Status u) = vt_ID (vo_Status v)) vs of
                  Some j \<Rightarrow> Inl (failPaths ''invalid_field'' [pathVolumeAt j ''volume'', path])
                | None \<Rightarrow> lookup_volumes l obj (vs @ [v]) ms))"

definition same_volumes :: "Sandbox \<Rightarrow> Options \<Rightarrow> bool" where
  "same_volumes obj o' =
     (case op_Existing o' of None \<Rightarrow> False | Some e \<Rightarrow> sp_Volumes (sb_Spec e) = sp_Volumes (sb_Spec obj))"

definition volumeReferences :: "Lookup \<Rightarrow> Sandbox \<Rightarrow> Environment \<Rightarrow> Options \<Rightarrow> merr + Volume list" where
  "volumeReferences l obj env o' =
     (if sp_Volumes (sb_Spec obj) = [] then Inr []
      else if same_volumes obj o' then Inr []
      else if \<not> cp_Volumes (et_Capabilities (ev_Status env)) then Inl (failAt ''capability_unsupported'' ''spec.volumes'')
      else guard_err (volumePaths obj) (lookup_volumes l obj [] (sp_Volumes (sb_Spec obj))))"

section \<open>Stage 5: semantic rules\<close>

definition ttlCeiling :: "Duration \<Rightarrow> Duration \<Rightarrow> merr option" where
  "ttlCeiling ttl ceil =
     (if ttl = [] \<or> ceil = [] then None
      else case ParseDuration ceil of
             Inl e \<Rightarrow> Some (ServerFault ''ttl ceiling'')
           | Inr (limit, unbounded) \<Rightarrow>
               if unbounded then None
               else (case ParseDuration ttl of
                       Inl e \<Rightarrow> Some (failAt ''invalid_field'' ''spec.lifecycle.ttl'')
                     | Inr (v, never) \<Rightarrow>
                         if never \<or> v > limit then Some (failAt ''ceiling_exceeded'' ''spec.lifecycle.ttl'') else None))"

definition check_ceiling :: "string \<times> Quantity \<times> Quantity \<Rightarrow> merr option" where
  "check_ceiling f =
     (case f of (path, v, ceil) \<Rightarrow>
        if v = [] \<or> ceil = [] then None
        else case ParseQuantity ceil of
               Inl e \<Rightarrow> Some (ServerFault path)
             | Inr limit \<Rightarrow>
                 (case ParseQuantity v of
                    Inl e \<Rightarrow> Some (failAt ''invalid_field'' path)
                  | Inr amount \<Rightarrow> if amount > limit then Some (failAt ''ceiling_exceeded'' path) else None))"

definition ceiling_list :: "Resources \<Rightarrow> Ceilings \<Rightarrow> (string \<times> Quantity \<times> Quantity) list" where
  "ceiling_list r c =
     [(''spec.resources.cpu'', rs_CPU r, ce_CPU c), (''spec.resources.memory'', rs_Memory r, ce_Memory c),
      (''spec.resources.disk'', rs_Disk r, ce_Disk c), (''spec.resources.max.cpu'', mx_CPU (rs_Max r), ce_CPU c),
      (''spec.resources.max.memory'', mx_Memory (rs_Max r), ce_Memory c), (''spec.resources.max.disk'', mx_Disk (rs_Max r), ce_Disk c)]"

definition ceilings :: "Sandbox \<Rightarrow> Options \<Rightarrow> merr option" where
  "ceilings obj o' = first_err
     [check_each check_ceiling (ceiling_list (sp_Resources (sb_Spec obj)) (op_Ceilings o')),
      ttlCeiling (lc_TTL (sp_Lifecycle (sb_Spec obj))) (ce_TTL (op_Ceilings o')),
      priorityCeiling (sc_Priority (sp_Scheduling (sb_Spec obj))) (li_MaxPriority (op_Limits o'))]"

definition autoStopWithinTTL :: "Lifecycle \<Rightarrow> merr option" where
  "autoStopWithinTTL l =
     (if lc_AutoStop l = [] \<or> lc_TTL l = [] then None
      else case ParseDuration (lc_AutoStop l) of
             Inl e \<Rightarrow> Some (failAt ''invalid_field'' ''spec.lifecycle.autoStop'')
           | Inr (stop, stopNever) \<Rightarrow>
               (case ParseDuration (lc_TTL l) of
                  Inl e \<Rightarrow> Some (failAt ''invalid_field'' ''spec.lifecycle.ttl'')
                | Inr (ttl, ttlNever) \<Rightarrow>
                    if stopNever \<or> ttlNever \<or> stop \<le> ttl then None
                    else Some (failAt ''invalid_field'' ''spec.lifecycle.autoStop'')))"

definition update_rules :: "Sandbox \<Rightarrow> Options \<Rightarrow> merr option" where
  "update_rules obj o' =
     (case op_Existing o' of
        None \<Rightarrow> None
      | Some e \<Rightarrow> first_err [immutable e obj, ceilingHeld e obj, if ac_Workload (op_Actor o') then narrowing e obj else None])"

definition semantic :: "Sandbox \<Rightarrow> Options \<Rightarrow> merr option" where
  "semantic obj o' = first_err
     [ceilingFloor (sp_Resources (sb_Spec obj)), ceilings obj o', update_rules obj o', autoStopWithinTTL (sp_Lifecycle (sb_Spec obj))]"

section \<open>Stage 7: capabilities\<close>

definition WarningResourcesNotEnforced :: string where
  "WarningResourcesNotEnforced = ''The native environment does not limit cpu, memory or disk; the requested resources are recorded and not enforced.''"

definition WarningUserNotApplied :: string where
  "WarningUserNotApplied = ''The native environment runs the workload as the server's own user; spec.user is not applied.''"

definition resizeCapability :: "Sandbox \<Rightarrow> Environment \<Rightarrow> Options \<Rightarrow> merr option" where
  "resizeCapability obj env o' =
     (case op_Existing o' of
        None \<Rightarrow> None
      | Some e \<Rightarrow>
          if sameAmounts (sp_Resources (sb_Spec obj)) (sp_Resources (sb_Spec e)) then None
          else if \<not> cp_Resize (et_Capabilities (ev_Status env)) then Some (failAt ''capability_unsupported'' ''spec.resources'')
          else if rs_Disk (sp_Resources (sb_Spec obj)) \<noteq> rs_Disk (sp_Resources (sb_Spec e))
               then Some (failAt ''capability_unsupported'' ''spec.resources.disk'')
          else None)"

definition displayCapability :: "Sandbox \<Rightarrow> Environment \<Rightarrow> merr option" where
  "displayCapability obj env =
     (let caps = et_Capabilities (ev_Status env)
      in if sp_Display (sb_Spec obj) \<noteq> None \<and> (\<not> cp_Display caps \<or> \<not> cp_Input caps)
         then Some (failAt ''capability_unsupported'' ''spec.display'') else None)"

definition volumeCapabilities :: "Sandbox \<Rightarrow> Options \<Rightarrow> merr option" where
  "volumeCapabilities obj o' =
     (if op_Existing o' \<noteq> None \<and> \<not> same_volumes obj o' then Some (failAt ''capability_unsupported'' ''spec.volumes'') else None)"

definition Resources0 :: Resources where
  "Resources0 = \<lparr>rs_CPU = [], rs_Memory = [], rs_Disk = [], rs_Max = \<lparr>mx_CPU = [], mx_Memory = [], mx_Disk = []\<rparr>\<rparr>"

definition capabilities :: "Sandbox \<Rightarrow> Environment \<Rightarrow> Options \<Rightarrow> merr + (Sandbox \<times> string list)" where
  "capabilities obj env o' =
     guard_err (first_err
       [if ws_Host (sp_Workspace (sb_Spec obj)) = [] \<and> ws_Source (sp_Workspace (sb_Spec obj)) \<noteq> WorkspaceSourceEmpty
        then Some (failAt ''capability_unsupported'' ''spec.workspace.source'') else None,
        hostWorkspaceCapability obj env, resizeCapability obj env o', ceilingCapability obj env, displayCapability obj env,
        meshCapability obj env, volumeCapabilities obj o', schedulingCapability obj env,
        portCapability obj env (meshMembershipAt obj (op_Parent o') (op_Existing o'))])
     (rbind (egressOnHost obj env) (\<lambda>(e, warnings).
        let obj = obj\<lparr>sb_Spec := (sb_Spec obj)\<lparr>sp_Network := (sp_Network (sb_Spec obj))\<lparr>nw_Egress := e\<rparr>\<rparr>\<rparr>
        in Inr (obj,
             if et_Isolation (ev_Status env) \<noteq> ''none'' then warnings
             else warnings @ (if sp_Resources (sb_Spec obj) \<noteq> Resources0 then [WarningResourcesNotEnforced] else [])
                  @ (if sp_User (sb_Spec obj) \<noteq> [] then [WarningUserNotApplied] else []))))"

section \<open>The pipeline\<close>

definition APIVersion :: string where "APIVersion = ''cella.latere.ai/v1beta1''"

definition Resolve :: "(string \<Rightarrow> bool) \<Rightarrow> Sandbox option \<Rightarrow> Options \<Rightarrow> merr + Resolved" where
  "Resolve vp input o' =
     (case input of
        None \<Rightarrow> Inl (ServerFault ''manifest'')
      | Some obj \<Rightarrow>
          (case op_Lookup o' of
             None \<Rightarrow> Inl (ServerFault ''lookup'')
           | Some l \<Rightarrow>
               let obj = obj\<lparr>sb_Status := SandboxStatus0\<rparr>
               in guard_err (if sb_APIVersion obj \<noteq> APIVersion then Some (failAt ''unsupported_version'' ''apiVersion'') else None)
                 (guard_err (if sb_Kind obj \<noteq> ''Sandbox'' then Some (failAt ''unsupported_kind'' ''kind'') else None)
                 (guard_err (validate vp obj)
                 (rbind (defaulting vp l obj o') (\<lambda>(env, obj).
                  rbind (admit vp obj env o') (\<lambda>(obj, warnings).
                  guard_err (imageRule obj env)
                  (rbind (references l obj) (\<lambda>secrets.
                   rbind (volumeReferences l obj env o') (\<lambda>volumes.
                   guard_err (semantic obj o')
                   (guard_err (boundary obj (op_Parent o') (op_NowBoundary o'))
                   (rbind (capabilities obj env o') (\<lambda>(obj, admitted).
                    let warnings = warnings @ admitted;
                        obj = obj\<lparr>sb_Status := (sb_Status obj)\<lparr>st_Warnings := warnings\<rparr>\<rparr>
                    in Inr \<lparr>re_Sandbox = obj, re_Secrets = secrets, re_Volumes = volumes, re_Warnings = warnings\<rparr>)))))))))))))"

section \<open>The native environment\<close>

definition Capabilities0 :: Capabilities where
  "Capabilities0 = \<lparr>cp_Egress = [], cp_Mesh = False, cp_Ingress = False, cp_Volumes = False, cp_VolumeImages = False,
     cp_Snapshots = False, cp_Attach = False, cp_Dial = False, cp_Display = False, cp_Input = False, cp_Resize = False,
     cp_Pool = False, cp_Files = False, cp_Detach = False, cp_HostWorkspace = False, cp_ExecStdin = False,
     cp_EgressLocal = False, cp_Autosize = Autosize0\<rparr>"

definition EnvironmentStatus0 :: EnvironmentStatus where
  "EnvironmentStatus0 = \<lparr>et_ID = [], et_Owner = [], et_Phase = [], et_Reason = [], et_Driver = [], et_Isolation = [],
     et_Capabilities = Capabilities0, et_Workers = 0, et_Hosts = [], et_Gateways = 0, et_LastHeartbeat = 0,
     et_Used = Capacity0, et_Version = 0, et_CreatedAt = 0, et_UpdatedAt = 0\<rparr>"

definition EnvironmentSpec0 :: EnvironmentSpec where
  "EnvironmentSpec0 = \<lparr>en_Mode = [], en_Isolation = [], en_Capacity = Capacity0,
     en_Scheduling = \<lparr>ds_Mode = [], ds_Queues = [], ds_DefaultQueue = []\<rparr>,
     en_Pool = \<lparr>pl_Size = 0, pl_Image = [], pl_Resources = Resources0, pl_Display = None\<rparr>, en_WorkspaceClass = [],
     en_Gateway = [], en_Workers = \<lparr>wk_Max = 0\<rparr>\<rparr>"

definition NativeEnvironment :: "string \<Rightarrow> Environment" where
  "NativeEnvironment name = \<lparr>ev_APIVersion = APIVersion, ev_Kind = ''Environment'',
     ev_Metadata = \<lparr>md_Name = name, md_Labels = [], md_Annotations = []\<rparr>,
     ev_Spec = EnvironmentSpec0\<lparr>en_Isolation := ''none''\<rparr>,
     ev_Status = EnvironmentStatus0\<lparr>et_Driver := ''native'', et_Isolation := ''none''\<rparr>\<rparr>"

definition Options0 :: Options where
  "Options0 = \<lparr>op_Actor = \<lparr>ac_Subject = [], ac_Issuer = [], ac_Sub = [], ac_Workload = False\<rparr>, op_Lookup = None,
     op_Defaults = \<lparr>df_CPU = [], df_Memory = [], df_Disk = [], df_AutoStop = [], df_TTL = [], df_AutoDelete = [],
       df_Image = [], df_StartMemory = [], df_MemoryCeiling = []\<rparr>,
     op_Ceilings = \<lparr>ce_CPU = [], ce_Memory = [], ce_Disk = [], ce_TTL = []\<rparr>, op_Limits = \<lparr>li_MaxPriority = 0\<rparr>,
     op_Admit = None, op_Claims = [], op_Workload = None, op_RequestID = [], op_Existing = None, op_Parent = None,
     op_NowDefaulting = 0, op_NowBoundary = 0, op_NewName = None\<rparr>"

definition DriverOptions ::
  "string \<Rightarrow> string \<Rightarrow> string \<Rightarrow> Capabilities \<Rightarrow> (string \<Rightarrow> seam_err + Secret option) option \<Rightarrow> Options" where
  "DriverOptions environment driverName isolation caps secrets =
     (let env = NativeEnvironment environment;
          env = env\<lparr>ev_Spec := (ev_Spec env)\<lparr>en_Isolation := isolation\<rparr>,
                    ev_Status := (ev_Status env)\<lparr>et_Driver := driverName, et_Isolation := isolation, et_Capabilities := caps\<rparr>\<rparr>
      in Options0\<lparr>op_Lookup := Some (WithSecrets (FixedEnvironment env) secrets)\<rparr>)"

definition NativeOptions :: "string \<Rightarrow> (string \<Rightarrow> seam_err + Secret option) option \<Rightarrow> Options" where
  "NativeOptions environment secrets = DriverOptions environment ''native'' ''none'' Capabilities0 secrets"

definition ResolveNativeWith :: "(string \<Rightarrow> bool) \<Rightarrow> Sandbox \<Rightarrow> Options \<Rightarrow> merr + (Sandbox \<times> Secret list)" where
  "ResolveNativeWith vp obj o' =
     rbind (Resolve vp (Some obj) o') (\<lambda>r.
       let out = re_Sandbox r; s = sb_Spec out;
           native = (case op_Lookup o' of
                       None \<Rightarrow> True
                     | Some l \<Rightarrow> (case lk_Environment l (sp_Environment s) of
                                   Inr (Some env) \<Rightarrow> et_Isolation (ev_Status env) = ''none''
                                 | _ \<Rightarrow> True))
       in if native \<and> sp_Command s = [] \<and> sp_Args s \<noteq> [] then Inl (failAt ''invalid_field'' ''spec.args'')
          else guard_err (if sp_Command s \<noteq> [] then ValidateExec (sp_Command s @ sp_Args s) [] [] else None)
            (if native \<and> (ws_Path (sp_Workspace s) \<noteq> DefaultWorkspacePath \<or> sp_Workdir s \<noteq> DefaultWorkspacePath)
             then Inl (failAt ''capability_unsupported'' ''spec.workspace.path'')
             else Inr (out, re_Secrets r)))"

definition ResolveNative :: "(string \<Rightarrow> bool) \<Rightarrow> Sandbox \<Rightarrow> string \<Rightarrow> merr + Sandbox" where
  "ResolveNative vp obj environment =
     rbind (ResolveNativeWith vp obj (NativeOptions environment None)) (\<lambda>(out, _). Inr out)"

lemmas resolve_eval = Resolve_def Let_def defaulting_def lookupEnvironment_def lookup_answer_def default_spec_def sizeMemory_def
  or_default_def runsImages_def default_lifecycle_def default_workspace_def defaultQueue_def Queued_def inheritEgress_def
  inferEgressMode_def admit_def imageRule_def references_def volumeReferences_def semantic_def ceilings_def update_rules_def
  ceiling_list_def check_ceiling_def ceilingFloor_def autoStopWithinTTL_def ttlCeiling_def priorityCeiling_def capabilities_def
  hostWorkspaceCapability_def resizeCapability_def ceilingCapability_def displayCapability_def meshCapability_def
  volumeCapabilities_def schedulingCapability_def portCapability_def egressOnHost_def egressCapability_def hostsOf_def
  HostNetworkOf_def defaultChildTTL_def SchedulingQueued_def APIVersion_def

lemmas native_defs = NativeOptions_def DriverOptions_def NativeEnvironment_def Options0_def FixedEnvironment_def WithSecrets_def
  EnvironmentSpec0_def EnvironmentStatus0_def Capabilities0_def Capacity0_def Resources0_def Autosize0_def

end
