(* ===== verification/Resolve_Facts.thy ===== *)
theory Resolve_Facts
  imports Manifest_Resolve
begin

text \<open>
  What the resolver of \<^verbatim>\<open>manifest/resolve.go\<close> guarantees of the manifest it returns: which stages
  the object has passed, and what that says of its reach, its amounts, its life, its identity
  across an update, and the secrets, volumes and hosts it refers to. The lookups and the
  admission step stay arbitrary in every statement.
\<close>

section \<open>What a resolved manifest has passed\<close>

lemma Resolve_Inr:
  assumes "Resolve vp (Some m) o' = Inr r"
  obtains l env d a ws c ws' where
    "op_Lookup o' = Some l"
    "defaulting vp l (m\<lparr>sb_Status := SandboxStatus0\<rparr>) o' = Inr (env, d)"
    "admit vp d env o' = Inr (a, ws)" "imageRule a env = None"
    "references l a = Inr (re_Secrets r)" "volumeReferences l a env o' = Inr (re_Volumes r)"
    "semantic a o' = None" "boundary a (op_Parent o') (op_NowBoundary o') = None"
    "capabilities a env o' = Inr (c, ws')"
    "re_Sandbox r = c\<lparr>sb_Status := (sb_Status c)\<lparr>st_Warnings := ws @ ws'\<rparr>\<rparr>"
  using assms
  by (auto simp: Resolve_def Let_def rbind_Inr guard_err_Inr split: option.splits if_splits)

lemma capabilities_Inr:
  assumes "capabilities a env o' = Inr (c, ws)"
  obtains e ws' where "egressOnHost a env = Inr (e, ws')" "hostWorkspaceCapability a env = None"
    "c = a\<lparr>sb_Spec := (sb_Spec a)\<lparr>sp_Network := (sp_Network (sb_Spec a))\<lparr>nw_Egress := e\<rparr>\<rparr>\<rparr>"
  using assms
  by (auto simp: capabilities_def Let_def rbind_Inr guard_err_Inr first_err_None split: prod.splits if_splits)

text \<open>The capability stage changes the egress and nothing else of the spec.\<close>

lemma capabilities_spec:
  assumes "capabilities a env o' = Inr (c, ws)"
  shows "sp_Resources (sb_Spec c) = sp_Resources (sb_Spec a)" "sp_Lifecycle (sb_Spec c) = sp_Lifecycle (sb_Spec a)"
    "sp_Scheduling (sb_Spec c) = sp_Scheduling (sb_Spec a)" "sp_Secrets (sb_Spec c) = sp_Secrets (sb_Spec a)"
    "sp_Volumes (sb_Spec c) = sp_Volumes (sb_Spec a)" "sp_Mesh (sb_Spec c) = sp_Mesh (sb_Spec a)"
    "sp_Environment (sb_Spec c) = sp_Environment (sb_Spec a)" "sp_Workspace (sb_Spec c) = sp_Workspace (sb_Spec a)"
    "sp_Image (sb_Spec c) = sp_Image (sb_Spec a)" "sb_Metadata c = sb_Metadata a" "sb_Status c = sb_Status a"
    "sp_Command (sb_Spec c) = sp_Command (sb_Spec a)" "sp_Args (sb_Spec c) = sp_Args (sb_Spec a)"
    "sp_User (sb_Spec c) = sp_User (sb_Spec a)" "sp_Env (sb_Spec c) = sp_Env (sb_Spec a)"
    "sp_Workdir (sb_Spec c) = sp_Workdir (sb_Spec a)" "sp_Display (sb_Spec c) = sp_Display (sb_Spec a)"
    "nw_Ports (sp_Network (sb_Spec c)) = nw_Ports (sp_Network (sb_Spec a))"
  using assms by (auto elim!: capabilities_Inr)

text \<open>On an egress that is not open, narrowing to the hosts never widens.\<close>

lemma egressOnHost_within:
  assumes "egressOnHost a env = Inr (e, ws)" and "eg_Mode (egress_of a) \<noteq> EgressOpen"
  shows "egress_reach e \<subseteq> egress_reach (egress_of a)"
proof (cases "HostNetworkOf (hostsOf env)")
  case None
  with assms(1) show ?thesis by (auto simp: egressOnHost_def rbind_Inr Let_def)
next
  case (Some n)
  have "egress_reach (NarrowEgress (egress_of a) n) \<subseteq> egress_reach (egress_of a)"
    using assms(2) narrow_list_within_asked [of "egress_of a" n] narrow_open_within [of "egress_of a" n]
    by (auto simp: NarrowEgress_def)
  with Some assms(1) show ?thesis by (auto simp: egressOnHost_def Let_def split: if_splits)
qed

lemma egressOnHost_network:
  assumes "egressOnHost a env = Inr (e, ws)" and "HostNetworkOf (hostsOf env) = Some n"
  shows "egress_reach e \<subseteq> network_reach n"
proof -
  have n: "egress_reach (NarrowEgress (egress_of a) n) \<subseteq> network_reach n"
    using narrow_list_within [of "egress_of a" n] narrow_open_within [of "egress_of a" n]
    by (auto simp: NarrowEgress_def network_reach_def)
  have "egress_reach e = egress_reach (NarrowEgress (egress_of a) n)"
    using assms by (auto simp: egressOnHost_def Let_def egress_reach_def split: if_splits)
  with n show ?thesis by simp
qed

text \<open>The parents under which the boundary is exact: every one but an open parent with a deny list.\<close>

definition closed_egress :: "Egress \<Rightarrow> bool" where
  "closed_egress e \<longleftrightarrow> eg_Mode e = EgressAllowlist \<or> eg_Mode e = EgressNone \<or> eg_Mode e = EgressOpen \<and> eg_DeniedHosts e = []"

lemma egress_contained:
  assumes "egressOnHost a env = Inr (e, ws)" and "closed_egress over"
    and "eg_Mode over \<noteq> EgressOpen \<Longrightarrow> EgressModeRank (eg_Mode over) \<le> EgressModeRank (eg_Mode (egress_of a))
           \<and> egress_reach (egress_of a) \<subseteq> egress_reach over"
  shows "egress_reach e \<subseteq> egress_reach over"
proof (cases "eg_Mode over = EgressOpen")
  case True
  with assms(2) show ?thesis by (simp add: egress_reach_def closed_egress_def)
next
  case False
  then have "eg_Mode (egress_of a) \<noteq> EgressOpen" "egress_reach (egress_of a) \<subseteq> egress_reach over"
    using assms(2,3) by (auto simp: closed_egress_def)
  with egressOnHost_within [OF assms(1)] show ?thesis by blast
qed

lemma rank_of_boundary: "egressBoundary child over = [] \<Longrightarrow> EgressModeRank (eg_Mode over) \<le> EgressModeRank (eg_Mode child)"
  by (simp add: egressBoundary_def split: if_splits)

lemma rank_of_narrowing: "egressNarrowing was now = [] \<Longrightarrow> EgressModeRank (eg_Mode was) \<le> EgressModeRank (eg_Mode now)"
  by (simp add: egressNarrowing_def split: if_splits)

lemma resolved_child:
  assumes "Resolve vp (Some m) o' = Inr r" and "op_Parent o' = Some p" and "closed_egress (egress_of p)"
  shows "egress_reach (egress_of (re_Sandbox r)) \<subseteq> egress_reach (egress_of p)"
proof -
  obtain env a c ws' where h: "boundary a (Some p) (op_NowBoundary o') = None" "capabilities a env o' = Inr (c, ws')"
    "egress_of (re_Sandbox r) = egress_of c"
    using assms(1,2) by (auto elim!: Resolve_Inr)
  obtain e w where e: "egressOnHost a env = Inr (e, w)" "egress_of c = e"
    using h(2) by (auto elim!: capabilities_Inr)
  have b: "egressBoundary (egress_of a) (egress_of p) = []" by (rule boundary_None(1) [OF h(1)])
  have "egress_reach e \<subseteq> egress_reach (egress_of p)"
    by (rule egress_contained [OF e(1) assms(3)])
      (use b assms(3) rank_of_boundary [OF b] egressBoundary_reach [OF b] in \<open>auto simp: closed_egress_def\<close>)
  with h(3) e(2) show ?thesis by simp
qed

lemma native_words:
  "dns_label ''native''" "absoluteCleanPath ''/workspace''" "\<not> has_prefix ''/workspace'' (ReservedPathPrefix @ ''/'')"
  "''/workspace'' \<noteq> ReservedPathPrefix"
  by code_simp+

text \<open>A bare manifest under a parent resolves on the native environment, with the parent's egress.\<close>

lemma native_child_resolves:
  assumes "ValidateHostPattern (\<lambda>_. True) (index_path pathAllowedHosts 0) h = None"
    and "HostCovers [h] h"
  defines "p \<equiv> bare_sandbox ((with_egress EgressAllowlist [h] [])\<lparr>sp_Environment := ''native''\<rparr>) (spawning 2 1 0)"
  shows "\<exists>r. Resolve (\<lambda>_. True) (Some (bare_sandbox SandboxSpec0 SandboxStatus0)) ((NativeOptions ''native'' None)\<lparr>op_Parent := Some p\<rparr>) = Inr r"
  using assms native_words
  by (simp add: resolve_eval native_defs validate_eval bare_defs boundary_eval DefaultWorkspacePath_def WorkspaceSourceEmpty_def
      ValidateHostPattern_def)

text \<open>C1: what the resolver returns for a spawned child reaches no name its parent does not, through
  every stage after the check too: the admission step's answer is what is checked, and the
  hosts only narrow it. The parent is any but an open one with a deny list.\<close>

theorem Resolve_child_within_parent:
  assumes "Resolve vp (Some m) o' = Inr r" and "op_Parent o' = Some p" and "closed_egress (egress_of p)"
  shows "egress_reach (egress_of (re_Sandbox r)) \<subseteq> egress_reach (egress_of p)"
  by (rule resolved_child [OF assms])

theorem Resolve_child_within_parent_witness:
  "\<exists>r. Resolve (\<lambda>_. True) (Some (bare_sandbox SandboxSpec0 SandboxStatus0)) ((NativeOptions ''native'' None)\<lparr>op_Parent :=
       Some (bare_sandbox ((with_egress EgressAllowlist [''a.example.com''] [])\<lparr>sp_Environment := ''native''\<rparr>) (spawning 2 1 0))\<rparr>) = Inr r
     \<and> egress_reach (egress_of (re_Sandbox r)) \<subseteq> reach [''a.example.com'']"
proof -
  have "ValidateHostPattern (\<lambda>_. True) (index_path pathAllowedHosts 0) ''a.example.com'' = None" "HostCovers [''a.example.com''] ''a.example.com''"
    by code_simp+
  from native_child_resolves [OF this] obtain r where
    r: "Resolve (\<lambda>_. True) (Some (bare_sandbox SandboxSpec0 SandboxStatus0)) ((NativeOptions ''native'' None)\<lparr>op_Parent :=
       Some (bare_sandbox ((with_egress EgressAllowlist [''a.example.com''] [])\<lparr>sp_Environment := ''native''\<rparr>) (spawning 2 1 0))\<rparr>) = Inr r"
    by blast
  from Resolve_child_within_parent [OF r] have "egress_reach (egress_of (re_Sandbox r)) \<subseteq> reach [''a.example.com'']"
    by (simp add: closed_egress_def bare_defs egress_reach_def)
  with r show ?thesis by blast
qed

section \<open>Ceilings\<close>

lemma check_ceiling_None:
  "check_ceiling (path, v, c) = None \<Longrightarrow> v \<noteq> [] \<Longrightarrow> c \<noteq> [] \<Longrightarrow>
   \<exists>amount limit. ParseQuantity v = Inr amount \<and> ParseQuantity c = Inr limit \<and> amount \<le> limit"
  by (auto simp: check_ceiling_def split: if_splits sum.splits)

lemma ttlCeiling_None:
  "ttlCeiling ttl c = None \<Longrightarrow> ttl \<noteq> [] \<Longrightarrow> c \<noteq> [] \<Longrightarrow> ParseDuration c = Inr (limit, False) \<Longrightarrow>
   \<exists>v. ParseDuration ttl = Inr (v, False) \<and> v \<le> limit"
  by (auto simp: ttlCeiling_def split: if_splits sum.splits)

lemma resolved_semantic:
  assumes "Resolve vp (Some m) o' = Inr r"
  shows "semantic (re_Sandbox r) (o'\<lparr>op_Existing := None\<rparr>) = None"
proof -
  obtain env a c ws' ws where h: "semantic a o' = None" "capabilities a env o' = Inr (c, ws')"
    "re_Sandbox r = c\<lparr>sb_Status := (sb_Status c)\<lparr>st_Warnings := ws @ ws'\<rparr>\<rparr>"
    using assms by (auto elim!: Resolve_Inr)
  then show ?thesis
    using capabilities_spec [OF h(2)]
    by (simp add: semantic_def ceilings_def update_rules_def first_err_None)
qed



section \<open>Updates\<close>

lemma resolved_update:
  assumes "Resolve vp (Some m) o' = Inr r" and "op_Existing o' = Some e"
  obtains a env c ws where "immutable e a = None" "ac_Workload (op_Actor o') \<Longrightarrow> narrowing e a = None"
    "volumeCapabilities a o' = None" "capabilities a env o' = Inr (c, ws)" "sb_Spec (re_Sandbox r) = sb_Spec c" "sb_Metadata (re_Sandbox r) = sb_Metadata c"
proof -
  obtain env a c ws' where h: "semantic a o' = None" "capabilities a env o' = Inr (c, ws')"
    "sb_Spec (re_Sandbox r) = sb_Spec c" "sb_Metadata (re_Sandbox r) = sb_Metadata c"
    using assms(1) by (auto elim!: Resolve_Inr)
  have u: "immutable e a = None" "ac_Workload (op_Actor o') \<Longrightarrow> narrowing e a = None"
    using h(1) assms(2) by (simp_all add: semantic_def update_rules_def first_err_None)
  have v: "volumeCapabilities a o' = None"
    using h(2) by (simp add: capabilities_def guard_err_Inr first_err_None)
  show ?thesis by (rule that [OF u v h(2-4)])
qed


text \<open>A native sandbox as it is stored, and an update that sends it back.\<close>

definition stored_native :: "string \<Rightarrow> Sandbox" where
  "stored_native h = bare_sandbox ((with_egress EgressAllowlist [h] [])\<lparr>sp_Environment := ''native'', sp_Workdir := ''/workspace'',
     sp_Workspace := \<lparr>ws_Path = ''/workspace'', ws_Source = ''empty'', ws_Host = []\<rparr>\<rparr>) SandboxStatus0"

definition update_options :: "string \<Rightarrow> Options" where
  "update_options h = (NativeOptions ''native'' None)\<lparr>op_Existing := Some (stored_native h),
     op_Actor := \<lparr>ac_Subject = [], ac_Issuer = [], ac_Sub = [], ac_Workload = True\<rparr>\<rparr>"

lemma native_update_resolves:
  "\<exists>r. Resolve (\<lambda>_. True) (Some (stored_native ''a.example.com'')) (update_options ''a.example.com'') = Inr r"
proof -
  have "ValidateHostPattern (\<lambda>_. True) (index_path pathAllowedHosts 0) ''a.example.com'' = None"
    "HostCovers [''a.example.com''] ''a.example.com''"
    by code_simp+
  with native_words show ?thesis
    by (simp add: resolve_eval native_defs validate_eval bare_defs boundary_def DefaultWorkspacePath_def WorkspaceSourceEmpty_def
        stored_native_def update_options_def immutable_def schedulingChanges_def maps_equal_def ceilingHeld_def narrowing_def
        egressNarrowing_def narrowingSecrets_def meshNarrowing_def sameAmounts_def same_volumes_def ValidateHostPattern_def)
qed




section \<open>References\<close>

lemma find_None_all: "find P xs = None \<longleftrightarrow> (\<forall>x \<in> set xs. \<not> P x)"
  by (induction xs) auto

lemma refuseSharedScopes_None:
  assumes "refuseSharedScopes ss = None" and "i < j" and "j < length ss" and "a \<in> set (scope_hosts (ss ! i))" and "b \<in> set (scope_hosts (ss ! j))"
  shows "pattern_reach (NormalizeHost a) \<inter> pattern_reach (NormalizeHost b) = {}"
proof -
  have "(i, j) \<in> set [(i, j). i \<leftarrow> [0..<length ss], j \<leftarrow> [Suc i..<length ss]]"
    using assms(2,3) by (auto simp: image_iff intro!: bexI [of _ i])
  with assms(1) have "\<not> list_ex (\<lambda>a. list_ex (scopesOverlap a) (scope_hosts (ss ! j))) (scope_hosts (ss ! i))"
    by (auto simp: refuseSharedScopes_def find_None_all split: option.splits)
  then have "\<not> scopesOverlap a b" using assms(4,5) by (auto simp: list_ex_iff)
  then show ?thesis
    using overlap_iff_common [of "NormalizeHost a" "NormalizeHost b"] by (simp add: scopesOverlap_def Let_def hostsOverlap_def)
qed

lemma lookup_secrets_length: "lookup_secrets l i ms = Inr ss \<Longrightarrow> length ss = length ms"
  by (induction l i ms arbitrary: ss rule: lookup_secrets.induct) (auto simp: rbind_Inr)

text \<open>C6: the secrets of a resolved manifest are one per mount, and no name is in the scope of two of
  them, so the gateway always has one answer for which value to substitute at a host.\<close>

theorem Resolve_secret_scopes_disjoint:
  assumes "Resolve vp (Some m) o' = Inr r" and "i < j" and "j < length (re_Secrets r)"
    and "a \<in> set (scope_hosts (re_Secrets r ! i))" and "b \<in> set (scope_hosts (re_Secrets r ! j))"
  shows "length (re_Secrets r) = length (sp_Secrets (sb_Spec (re_Sandbox r)))
    \<and> pattern_reach (NormalizeHost a) \<inter> pattern_reach (NormalizeHost b) = {}"
proof -
  obtain l env a' c ws' where h: "references l a' = Inr (re_Secrets r)" "capabilities a' env o' = Inr (c, ws')"
    "sb_Spec (re_Sandbox r) = sb_Spec c"
    using assms(1) by (auto elim!: Resolve_Inr)
  have ne: "sp_Secrets (sb_Spec a') \<noteq> []" using h(1) assms(3) by (auto simp: references_def)
  then have "lookup_secrets l 0 (sp_Secrets (sb_Spec a')) = Inr (re_Secrets r)" "refuseSharedScopes (re_Secrets r) = None"
    using h(1) by (auto simp: references_def guard_err_Inr rbind_Inr)
  then show ?thesis
    using refuseSharedScopes_None [OF _ assms(2-5)] lookup_secrets_length capabilities_spec(4) [OF h(2)] h(3) by metis
qed

lemma lookup_volumes_Inr:
  assumes "lookup_volumes l obj vs ms = Inr us" and "distinct (map (\<lambda>v. vt_ID (vo_Status v)) vs)"
  shows "\<exists>ws. us = vs @ ws \<and> length ws = length ms \<and> distinct (map (\<lambda>v. vt_ID (vo_Status v)) us)
    \<and> (\<forall>k < length ms. vp_Environment (vo_Spec (ws ! k)) = sp_Environment (sb_Spec obj)
         \<and> vt_Phase (vo_Status (ws ! k)) \<in> {''Available'', ''Pending''}
         \<and> (vp_Access (vo_Spec (ws ! k)) = ''shared-read'' \<longrightarrow> vm_ReadOnly (ms ! k)))"
  using assms
proof (induction ms arbitrary: vs)
  case (Cons m ms)
  then obtain v where v: "lookup_volumes l obj (vs @ [v]) ms = Inr us" "vp_Environment (vo_Spec v) = sp_Environment (sb_Spec obj)"
    "vt_Phase (vo_Status v) \<in> {''Available'', ''Pending''}" "vp_Access (vo_Spec v) = ''shared-read'' \<longrightarrow> vm_ReadOnly m"
    "\<forall>u \<in> set vs. vt_ID (vo_Status u) \<noteq> vt_ID (vo_Status v)"
    by (auto simp: Let_def rbind_Inr find_index_None split: if_splits option.splits)
  have "distinct (map (\<lambda>v. vt_ID (vo_Status v)) (vs @ [v]))" using Cons.prems(2) v(5) by auto
  from Cons.IH [OF v(1) this] obtain ws where ws: "us = (vs @ [v]) @ ws" "length ws = length ms"
    "distinct (map (\<lambda>v. vt_ID (vo_Status v)) us)"
    "\<forall>k < length ms. vp_Environment (vo_Spec (ws ! k)) = sp_Environment (sb_Spec obj)
         \<and> vt_Phase (vo_Status (ws ! k)) \<in> {''Available'', ''Pending''}
         \<and> (vp_Access (vo_Spec (ws ! k)) = ''shared-read'' \<longrightarrow> vm_ReadOnly (ms ! k))" by blast
  with v show ?case
    by (intro exI [of _ "v # ws"]) (auto simp: All_less_Suc2 nth_Cons')
qed simp

text \<open>C7: on a create, the volumes of a resolved manifest are one per mount, no volume twice, each in
  the sandbox's own environment and usable, and one shared for reading is mounted read-only.\<close>

theorem Resolve_volumes_attachable:
  assumes "Resolve vp (Some m) o' = Inr r" and "op_Existing o' = None" and "k < length (sp_Volumes (sb_Spec (re_Sandbox r)))"
  shows "length (re_Volumes r) = length (sp_Volumes (sb_Spec (re_Sandbox r)))
    \<and> distinct (map (\<lambda>v. vt_ID (vo_Status v)) (re_Volumes r))
    \<and> vp_Environment (vo_Spec (re_Volumes r ! k)) = sp_Environment (sb_Spec (re_Sandbox r))
    \<and> vt_Phase (vo_Status (re_Volumes r ! k)) \<in> {''Available'', ''Pending''}
    \<and> (vp_Access (vo_Spec (re_Volumes r ! k)) = ''shared-read'' \<longrightarrow> vm_ReadOnly (sp_Volumes (sb_Spec (re_Sandbox r)) ! k))"
proof -
  obtain l env a c ws' where h: "volumeReferences l a env o' = Inr (re_Volumes r)" "capabilities a env o' = Inr (c, ws')"
    "sb_Spec (re_Sandbox r) = sb_Spec c"
    using assms(1) by (auto elim!: Resolve_Inr)
  have s: "sp_Volumes (sb_Spec (re_Sandbox r)) = sp_Volumes (sb_Spec a)" "sp_Environment (sb_Spec (re_Sandbox r)) = sp_Environment (sb_Spec a)"
    using capabilities_spec [OF h(2)] h(3) by simp_all
  with assms(3) have "sp_Volumes (sb_Spec a) \<noteq> []" by auto
  then have "lookup_volumes l a [] (sp_Volumes (sb_Spec a)) = Inr (re_Volumes r)"
    using h(1) assms(2) by (auto simp: volumeReferences_def same_volumes_def guard_err_Inr split: if_splits)
  from lookup_volumes_Inr [OF this] show ?thesis using s assms(3) by auto
qed

section \<open>Hosts\<close>

lemma HostNetworkOf_subset: "HostNetworkOf hosts = Some n \<Longrightarrow> network_reach n \<subseteq> (\<Inter>h \<in> set hosts. network_reach (hi_Network h))"
  using host_networks_within [of None None hosts n] by (simp add: HostNetworkOf_def)

lemma HostInfo_Grant_Some: "HostInfo_Grant h p = Some g \<Longrightarrow> g \<in> set (hi_Grants h) \<and> Within (hg_Path g) p"
  using grant_loop_spec [OF refl, of None "hi_Grants h" p] by (simp add: HostInfo_Grant_def)


text \<open>An environment with one host that grants a folder and blocks a name, and one that keeps two
  volumes and answers two secrets.\<close>

definition desk_host :: HostInfo where
  "desk_host = \<lparr>hi_OS = ''darwin'', hi_Arch = ''arm64'', hi_Grants = [\<lparr>hg_Path = ''/srv'', hg_Write = True\<rparr>],
     hi_Network = \<lparr>hn_Mode = EgressOpen, hn_Hosts = [], hn_Blocked = [''x.example.com'']\<rparr>\<rparr>"

definition desk_env :: Environment where
  "desk_env = (NativeEnvironment ''native'')\<lparr>ev_Status := (ev_Status (NativeEnvironment ''native''))\<lparr>
     et_Capabilities := Capabilities0\<lparr>cp_HostWorkspace := True, cp_Volumes := True\<rparr>,
     et_Hosts := [\<lparr>hs_Worker = ''w'', hs_Host = desk_host\<rparr>]\<rparr>\<rparr>"

definition some_secret :: "string \<Rightarrow> Secret" where
  "some_secret host = \<lparr>sec_APIVersion = [], sec_Kind = [], sec_Metadata = \<lparr>md_Name = [], md_Labels = [], md_Annotations = []\<rparr>,
     sec_Spec = \<lparr>se_Kind = ''static'', se_Scope = \<lparr>sk_Hosts = [host], sk_Ports = [443]\<rparr>,
       se_Inject = \<lparr>si_Header = ''Authorization'', si_Scheme = ''bearer'', si_Query = [], si_Body = False\<rparr>, se_OAuth = None, se_Value = []\<rparr>,
     sec_Status = \<lparr>su_ID = host, su_Owner = [], su_Version = 1, su_CreatedAt = 0, su_UpdatedAt = 0, su_MountedBy = 0, su_LastUsedAt = 0\<rparr>\<rparr>"

definition some_volume :: "string \<Rightarrow> Volume" where
  "some_volume vid = \<lparr>vo_APIVersion = [], vo_Kind = [], vo_Metadata = \<lparr>md_Name = [], md_Labels = [], md_Annotations = []\<rparr>,
     vo_Spec = \<lparr>vp_Environment = ''native'', vp_Size = ''1Gi'', vp_Class = [], vp_Access = ''shared-read'',
       vp_Source = \<lparr>vs_Kind = ''empty'', vs_Snapshot = [], vs_Image = [], vs_Archive = [], vs_SHA256 = []\<rparr>, vp_Retain = None\<rparr>,
     vo_Status = \<lparr>vt_ID = vid, vt_Owner = [], vt_Phase = ''Available'', vt_Reason = [], vt_Message = [], vt_AttachedTo = [],
       vt_Capacity = [], vt_CreatedAt = 0, vt_UpdatedAt = 0\<rparr>\<rparr>"

definition desk_options :: Options where
  "desk_options = Options0\<lparr>op_Lookup := Some (WithVolumes (WithSecrets (FixedEnvironment desk_env)
     (Some (\<lambda>n. Inr (Some (some_secret n))))) (Some (\<lambda>n. Inr (Some (some_volume n)))))\<rparr>"

definition desk_manifest :: Sandbox where
  "desk_manifest = bare_sandbox (SandboxSpec0\<lparr>sp_Workspace := \<lparr>ws_Path = [], ws_Source = [], ws_Host = ''/srv/a''\<rparr>,
     sp_Secrets := [\<lparr>sm_Name = ''a.example.com'', sm_Env = ''A''\<rparr>, \<lparr>sm_Name = ''b.example.com'', sm_Env = ''B''\<rparr>],
     sp_Volumes := [\<lparr>vm_Name = ''d'', vm_Path = ''/data'', vm_Volume = ''v'', vm_ReadOnly = True\<rparr>]\<rparr>) SandboxStatus0"

lemma desk_facts:
  "absoluteCleanPath ''/srv/a''" "Within ''/srv'' ''/srv/a''" "dns_label ''d''" "trim_space ''v'' \<noteq> []" "absoluteCleanPath ''/data''"
  "\<not> nests ''/data'' ReservedPathPrefix" "\<not> nests ''/data'' ''/srv/a''" "\<not> has_prefix ''/srv/a'' (ReservedPathPrefix @ ''/'')"
  "''/srv/a'' \<noteq> ReservedPathPrefix" "trim_space ''a.example.com'' \<noteq> []" "trim_space ''b.example.com'' \<noteq> []" "envPattern ''A''" "envPattern ''B''" "\<not> ReservedEnv ''A''"
  "\<not> ReservedEnv ''B''" "\<not> scopesOverlap ''a.example.com'' ''b.example.com''"
  by code_simp+

lemma desk_resolves:
  "\<exists>r. Resolve (\<lambda>_. True) (Some desk_manifest) desk_options = Inr r
     \<and> ws_Host (sp_Workspace (sb_Spec (re_Sandbox r))) = ''/srv/a''
     \<and> re_Secrets r = [some_secret ''a.example.com'', some_secret ''b.example.com''] \<and> length (sp_Volumes (sb_Spec (re_Sandbox r))) = 1"
  using native_words(1) desk_facts
  by (simp add: resolve_eval native_defs validate_eval bare_defs boundary_def WorkspaceSourceEmpty_def desk_manifest_def desk_options_def
      desk_env_def desk_host_def WithVolumes_def mountEnvRules_def companionNames_def lookupSecret_def refuseSharedScopes_def
      some_secret_def same_volumes_def volumePaths_def lookupVolume_def some_volume_def HostInfo_Grant_def upt_rec
      NarrowEgress_def narrowToOpen_def unblocked_def egress_none_def)

theorem Resolve_secret_scopes_disjoint_witness:
  "\<exists>r. Resolve (\<lambda>_. True) (Some desk_manifest) desk_options = Inr r \<and> length (re_Secrets r) = 2
     \<and> pattern_reach (NormalizeHost ''a.example.com'') \<inter> pattern_reach (NormalizeHost ''b.example.com'') = {}"
proof -
  obtain r where r: "Resolve (\<lambda>_. True) (Some desk_manifest) desk_options = Inr r"
    "re_Secrets r = [some_secret ''a.example.com'', some_secret ''b.example.com'']" using desk_resolves by blast
  then show ?thesis
    using Resolve_secret_scopes_disjoint [OF r(1), of 0 1 "''a.example.com''" "''b.example.com''"] by (simp add: some_secret_def)
qed

theorem Resolve_volumes_attachable_witness:
  "\<exists>r. Resolve (\<lambda>_. True) (Some desk_manifest) desk_options = Inr r \<and> length (re_Volumes r) = 1"
proof -
  obtain r where r: "Resolve (\<lambda>_. True) (Some desk_manifest) desk_options = Inr r"
    "length (sp_Volumes (sb_Spec (re_Sandbox r))) = 1" using desk_resolves by blast
  moreover have "op_Existing desk_options = None" by (simp add: desk_options_def Options0_def)
  ultimately show ?thesis using Resolve_volumes_attachable [OF r(1), of 0] by auto
qed


end
