(* ===== verification/Runtime_Types.thy ===== *)
theory Runtime_Types
  imports Manifest_V1
begin

text \<open>
  The seams of the controller: the errors it and its drivers answer with, a driver's state of one
  sandbox (\<^verbatim>\<open>runtime/driver.go\<close>), and the two interfaces the controller acts through, a
  driver and a store. A driver and a store are records of functions over a world \<open>'w\<close>, the state
  of everything outside the process, so that each call may answer anything and change anything
  there; what a theorem needs of one is a hypothesis of it. Messages of errors are dropped; what
  \<^verbatim>\<open>errors.Is\<close> tells apart is kept.
\<close>

section \<open>Errors\<close>

datatype cerr =
    ErrNotFound | ErrNameTaken | ErrQuota | ErrPhase | ErrVersionConflict | ErrPreconditionFailed
  | ErrNotWriter | ErrNoEnvironment | ErrEnvironmentUnavailable | ErrBudgetExhausted | ErrNoGateway
  | ErrVolumeBusy | ErrNoVolumeStore | ErrVolumeQuota | ErrNoSecretKey | ErrSecretNotMounted | ErrInvalidField string
  | ErrEnvironmentReserved | ErrEnvironmentInUse | ErrNoEnvironmentStore
  | DriverNotFound | DriverAlreadyExists | DriverNotRunning | DriverUnsupported | DriverInvalid
  | DriverHostRefused | DriverHostTimeout | DriverWorkspaceNotGranted
  | FillError string string
  | ErrInvalidQuantity | ErrInvalidDuration
  | ErrOther string
  | ErrJoin "cerr list"

fun errors_Is :: "cerr \<Rightarrow> cerr \<Rightarrow> bool" where
  "errors_Is (ErrJoin es) target \<longleftrightarrow> (ErrJoin es = target \<or> list_ex (\<lambda>e. errors_Is e target) es)"
| "errors_Is e target \<longleftrightarrow> e = target"

text \<open>\<^verbatim>\<open>errors.Join\<close>: nil where every argument is nil.\<close>

fun some_errors :: "cerr option list \<Rightarrow> cerr list" where
  "some_errors [] = []"
| "some_errors (None # es) = some_errors es"
| "some_errors (Some e # es) = e # some_errors es"

definition errors_Join :: "cerr option list \<Rightarrow> cerr option" where
  "errors_Join es = (if some_errors es = [] then None else Some (ErrJoin (some_errors es)))"

lemma some_errors_Nil [go_err]: "some_errors es = [] \<longleftrightarrow> (\<forall>e \<in> set es. e = None)"
  by (induction es rule: some_errors.induct) auto

lemma errors_Join_None [go_err]: "errors_Join es = None \<longleftrightarrow> (\<forall>e \<in> set es. e = None)"
  by (simp add: errors_Join_def some_errors_Nil)

lemma set_some_errors: "e \<in> set (some_errors es) \<longleftrightarrow> Some e \<in> set es"
  by (induction es rule: some_errors.induct) auto

section \<open>A driver's state of one sandbox\<close>

definition Pending :: string where "Pending = ''Pending''"
definition Running :: string where "Running = ''Running''"
definition Stopped :: string where "Stopped = ''Stopped''"
definition DefaultWorkdir :: string where "DefaultWorkdir = ''/workspace''"

record DriverLifecycle =
  dl_TTL :: duration
  dl_AutoStop :: duration
  dl_AutoDelete :: duration

record DriverResources =
  dv_CPU :: string
  dv_Memory :: string
  dv_Disk :: string
  dv_CPULimit :: string

record Resize =
  rz_Resources :: DriverResources
  rz_Reason :: string
  rz_Message :: string

record State =
  dt_ID :: string
  dt_Name :: string
  dt_Owner :: string
  dt_Phase :: string
  dt_Reason :: string
  dt_ExitCode :: "int option"
  dt_Isolation :: string
  dt_Labels :: strmap
  dt_Ports :: "PortStatus list"
  dt_Conditions :: "Condition list"
  dt_CreatedAt :: gotime
  dt_StartedAt :: gotime
  dt_StoppedAt :: gotime
  dt_LastActivityAt :: gotime
  dt_ExpiresAt :: gotime
  dt_AutoStop :: duration
  dt_AutoDelete :: duration
  dt_Pool :: bool
  dt_MeshID :: string
  dt_Parent :: string
  dt_Resources :: DriverResources
  dt_Resize :: "Resize option"
  dt_Paths :: "SandboxPaths option"

record Filter =
  fi_Owner :: string
  fi_Phase :: string
  fi_IDs :: "string list"
  fi_MeshID :: string
  fi_Parent :: string
  fi_Pool :: "bool option"

definition Filter0 :: Filter where
  "Filter0 = \<lparr>fi_Owner = [], fi_Phase = [], fi_IDs = [], fi_MeshID = [], fi_Parent = [], fi_Pool = None\<rparr>"

definition Selects :: "Filter \<Rightarrow> State \<Rightarrow> bool" where
  "Selects f s =
     (if fi_Owner f \<noteq> [] \<and> dt_Owner s \<noteq> fi_Owner f then False
      else if fi_Phase f \<noteq> [] \<and> dt_Phase s \<noteq> fi_Phase f then False
      else if fi_Pool f \<noteq> None \<and> Some (dt_Pool s) \<noteq> fi_Pool f then False
      else if fi_MeshID f \<noteq> [] \<and> dt_MeshID s \<noteq> fi_MeshID f then False
      else if fi_Parent f \<noteq> [] \<and> dt_Parent s \<noteq> fi_Parent f then False
      else if fi_IDs f \<noteq> [] \<and> dt_ID s \<notin> set (fi_IDs f) then False
      else True)"

definition MeshObjectName :: "string \<Rightarrow> string" where
  "MeshObjectName meshID =
     (case cut_byte meshID CHR ''_'' of (_, tail, found) \<Rightarrow>
        ''mesh-'' @ to_lower (if found then tail else meshID))"

section \<open>What a driver is asked for\<close>

record DriverWorkspace =
  dw_Path :: string
  dw_Host :: string

record DriverEgress =
  de_Mode :: string
  de_AllowedHosts :: "string list"
  de_DeniedHosts :: "string list"
  de_ProxyAddr :: string
  de_ReverseAddr :: string
  de_Credential :: string
  de_CAPEM :: string

definition DriverEgress_IsZero :: "DriverEgress \<Rightarrow> bool" where
  "DriverEgress_IsZero e \<longleftrightarrow> de_Mode e = [] \<and> de_AllowedHosts e = [] \<and> de_DeniedHosts e = []
     \<and> de_ProxyAddr e = [] \<and> de_ReverseAddr e = [] \<and> de_Credential e = [] \<and> de_CAPEM e = []"

definition DriverEgress0 :: DriverEgress where
  "DriverEgress0 = \<lparr>de_Mode = [], de_AllowedHosts = [], de_DeniedHosts = [], de_ProxyAddr = [], de_ReverseAddr = [],
     de_Credential = [], de_CAPEM = []\<rparr>"

record Geometry =
  gm_Width :: int
  gm_Height :: int

record DriverPort =
  po_Name :: string
  po_Port :: int
  po_Expose :: string

record Mount =
  mo_Name :: string
  mo_VolumeID :: string
  mo_Path :: string
  mo_ReadOnly :: bool

record CreateSpec =
  cs_ID :: string
  cs_Name :: string
  cs_Owner :: string
  cs_Image :: string
  cs_Workdir :: string
  cs_Isolation :: string
  cs_Command :: "string list"
  cs_Args :: "string list"
  cs_Env :: strmap
  cs_Labels :: strmap
  cs_Annotations :: strmap
  cs_Lifecycle :: DriverLifecycle
  cs_User :: string
  cs_Resources :: DriverResources
  cs_Workspace :: DriverWorkspace
  cs_Volumes :: "Mount list"
  cs_Egress :: DriverEgress
  cs_Display :: "Geometry option"
  cs_Ports :: "DriverPort list"
  cs_Mesh :: string
  cs_Parent :: string
  cs_Token :: string
  cs_Prewarm :: bool

definition CheckPrewarm :: "CreateSpec \<Rightarrow> cerr option" where
  "CheckPrewarm s =
     (if \<not> cs_Prewarm s then None
      else if cs_Owner s \<noteq> [] \<or> cs_Name s \<noteq> [] \<or> cs_Command s \<noteq> [] \<or> cs_Args s \<noteq> [] \<or> cs_Token s \<noteq> []
           \<or> \<not> DriverEgress_IsZero (cs_Egress s) \<or> cs_Env s \<noteq> []
      then Some DriverInvalid
      else None)"

record Adoption =
  ad_Owner :: string
  ad_Name :: string
  ad_Labels :: strmap
  ad_Env :: strmap
  ad_Workspace :: DriverWorkspace
  ad_Lifecycle :: DriverLifecycle
  ad_Token :: string
  ad_Egress :: DriverEgress

record Change =
  ch_Labels :: "strmap option"
  ch_Env :: "strmap option"
  ch_Lifecycle :: "DriverLifecycle option"
  ch_Token :: string
  ch_Resources :: "DriverResources option"
  ch_Egress :: "DriverEgress option"
  ch_Adopt :: "Adoption option"

definition Change0 :: Change where
  "Change0 = \<lparr>ch_Labels = None, ch_Env = None, ch_Lifecycle = None, ch_Token = [], ch_Resources = None, ch_Egress = None,
     ch_Adopt = None\<rparr>"

definition Change_Adoption :: "Change \<Rightarrow> cerr + Adoption option" where
  "Change_Adoption c =
     (case ch_Adopt c of
        None \<Rightarrow> Inr None
      | Some a \<Rightarrow>
          if ch_Labels c \<noteq> None \<or> ch_Env c \<noteq> None \<or> ch_Lifecycle c \<noteq> None \<or> ch_Token c \<noteq> [] \<or> ch_Resources c \<noteq> None
             \<or> ch_Egress c \<noteq> None
          then Inl DriverInvalid
          else Inr (Some a))"

definition FixedSize :: "Change \<Rightarrow> cerr option" where
  "FixedSize c = (if ch_Resources c \<noteq> None then Some DriverUnsupported else None)"

record DriverVolumeSpec =
  dvs_ID :: string
  dvs_Name :: string
  dvs_Owner :: string
  dvs_Size :: string
  dvs_Access :: string
  dvs_Source_Kind :: string
  dvs_Source_Image :: string

record VolumeState =
  vst_ID :: string
  vst_Phase :: string
  vst_Reason :: string
  vst_Message :: string
  vst_Capacity :: string

section \<open>The interfaces\<close>

text \<open>A driver as the controller holds it. Each function that acts takes the world and returns it. A driver
  that also keeps volumes is one with a \<open>dr_VolumeDriver\<close>.\<close>

record 'w VolumeDriver =
  vd_CreateVolume :: "DriverVolumeSpec \<Rightarrow> 'w \<Rightarrow> cerr option \<times> 'w"
  vd_InspectVolume :: "string \<Rightarrow> 'w \<Rightarrow> (cerr + VolumeState) \<times> 'w"
  vd_DeleteVolume :: "string \<Rightarrow> 'w \<Rightarrow> cerr option \<times> 'w"

record 'w Driver =
  dr_Name :: string
  dr_Isolation :: string
  dr_Capabilities :: Capabilities
  dr_Ready :: "'w \<Rightarrow> cerr option \<times> 'w"
  dr_Create :: "CreateSpec \<Rightarrow> 'w \<Rightarrow> cerr option \<times> 'w"
  dr_Start :: "string \<Rightarrow> 'w \<Rightarrow> cerr option \<times> 'w"
  dr_Stop :: "string \<Rightarrow> 'w \<Rightarrow> cerr option \<times> 'w"
  dr_Delete :: "string \<Rightarrow> 'w \<Rightarrow> cerr option \<times> 'w"
  dr_Update :: "string \<Rightarrow> Change \<Rightarrow> 'w \<Rightarrow> cerr option \<times> 'w"
  dr_Touch :: "string \<Rightarrow> 'w \<Rightarrow> cerr option \<times> 'w"
  dr_Inspect :: "string \<Rightarrow> 'w \<Rightarrow> (cerr + State) \<times> 'w"
  dr_List :: "Filter \<Rightarrow> 'w \<Rightarrow> (cerr + State list) \<times> 'w"
  dr_VolumeDriver :: "'w VolumeDriver option"

text \<open>The spawn ledger of a store (\<^verbatim>\<open>controller/spawn.go\<close>, \<^verbatim>\<open>Spawner\<close>).\<close>

record 'w Spawner =
  sn_WriteSpawn :: "Sandbox \<Rightarrow> string \<Rightarrow> string \<Rightarrow> int \<Rightarrow> 'w \<Rightarrow> cerr option \<times> 'w"
  sn_CreditSpawn :: "string \<Rightarrow> 'w \<Rightarrow> cerr option \<times> 'w"
  sn_SpawnsUsed :: "string \<Rightarrow> 'w \<Rightarrow> (cerr + int) \<times> 'w"
  sn_ForgetSpawns :: "string \<Rightarrow> 'w \<Rightarrow> cerr option \<times> 'w"

text \<open>A store (\<^verbatim>\<open>controller/store.go\<close>, \<^verbatim>\<open>Store\<close> and \<^verbatim>\<open>Durable\<close>): one that is a Durable takes one
  conditional write per object, and one that is not takes the whole snapshot.\<close>

record 'w Durable =
  du_Durable :: bool
  du_Write :: "Sandbox \<Rightarrow> string \<Rightarrow> 'w \<Rightarrow> cerr option \<times> 'w"
  du_Remove :: "string \<Rightarrow> string \<Rightarrow> 'w \<Rightarrow> cerr option \<times> 'w"
  du_Rebuild :: "string \<Rightarrow> State list \<Rightarrow> 'w \<Rightarrow> cerr option \<times> 'w"

text \<open>The payload of a spawn's record and the seam it goes through (\<^verbatim>\<open>controller/spawn.go\<close>,
  \<^verbatim>\<open>SpawnedData\<close> and \<^verbatim>\<open>Journaller\<close>).\<close>

record SpawnedData =
  spd_Child :: string
  spd_Root :: string
  spd_BudgetLeft :: int

record 'w Store =
  so_Save :: "(string \<times> Sandbox) list \<Rightarrow> 'w \<Rightarrow> cerr option \<times> 'w"
  so_Durable :: "'w Durable option"
  so_Spawner :: "'w Spawner option"
  so_Journaller :: "(Sandbox \<Rightarrow> string \<Rightarrow> SpawnedData \<Rightarrow> 'w \<Rightarrow> cerr option \<times> 'w) option"

text \<open>The Secret kind's store (\<^verbatim>\<open>controller/secret.go\<close>, \<^verbatim>\<open>Secrets\<close>): a write with an empty plaintext leaves the stored
  value, and a read of a value answers it with its version.\<close>

record 'w Secrets =
  ks_WriteSecret :: "Secret \<Rightarrow> string \<Rightarrow> string \<Rightarrow> 'w \<Rightarrow> (cerr + int) \<times> 'w"
  ks_RemoveSecret :: "string \<Rightarrow> string \<Rightarrow> 'w \<Rightarrow> cerr option \<times> 'w"
  ks_OpenValue :: "string \<Rightarrow> 'w \<Rightarrow> (cerr + (string \<times> int)) \<times> 'w"

text \<open>The Environment kind's store (\<^verbatim>\<open>controller/environment.go\<close>, \<^verbatim>\<open>Environments\<close>).\<close>

record 'w Environments =
  nv_WriteEnvironment :: "Environment \<Rightarrow> int \<Rightarrow> string \<Rightarrow> 'w \<Rightarrow> (cerr + int) \<times> 'w"
  nv_WriteEnvironmentStatus :: "Environment \<Rightarrow> string \<Rightarrow> 'w \<Rightarrow> cerr option \<times> 'w"
  nv_RemoveEnvironment :: "string \<Rightarrow> string \<Rightarrow> 'w \<Rightarrow> cerr option \<times> 'w"

text \<open>The identities of sandboxes (\<^verbatim>\<open>controller/token.go\<close>, \<^verbatim>\<open>Tokens\<close> and \<^verbatim>\<open>TokenSweeper\<close>): a mint answers the
  token, its id and its expiry.\<close>

record 'w Tokens =
  ts_Mint :: "Sandbox \<Rightarrow> 'w \<Rightarrow> (cerr + (string \<times> string \<times> gotime)) \<times> 'w"
  ts_Revoke :: "string \<Rightarrow> gotime \<Rightarrow> 'w \<Rightarrow> cerr option \<times> 'w"
  ts_Forget :: "(gotime \<Rightarrow> 'w \<Rightarrow> cerr option \<times> 'w) option"

text \<open>The Volume kind's store (\<^verbatim>\<open>controller/volume.go\<close>, \<^verbatim>\<open>Volumes\<close>).\<close>

record VolumeAct =
  ac_Type :: string
  ac_Object :: Volume
  ac_Sandbox :: "Sandbox option"
  ac_Mode :: string

record 'w Volumes =
  vl_WriteVolume :: "VolumeAct \<Rightarrow> 'w \<Rightarrow> cerr option \<times> 'w"
  vl_RemoveVolume :: "VolumeAct \<Rightarrow> 'w \<Rightarrow> cerr option \<times> 'w"

end
