(* ===== verification/Spawn_Ledger.thy ===== *)
theory Spawn_Ledger
  imports Runtime_Types
begin

text \<open>
  The contract of the spawn ledger (\<^verbatim>\<open>controller/spawn.go\<close>, \<^verbatim>\<open>Spawner\<close>): a debit that answers nil
  found a unit left and took one, a debit that answers an error took none, a credit returns at most
  what was taken, and a forget ends the count. What a client may rely on is proved once from it:
  however debits, credits and forgets interleave, no count passes the largest budget a debit named,
  and of two debits that race for the last unit one is refused.
\<close>

datatype ledger_op =
    Debit Sandbox string int
  | Credit string
  | Forget string

fun ledger_exec :: "'w Spawner \<Rightarrow> ledger_op \<Rightarrow> 'w \<Rightarrow> cerr option \<times> 'w" where
  "ledger_exec sp (Debit obj p b) w = sn_WriteSpawn sp obj [] p b w"
| "ledger_exec sp (Credit p) w = sn_CreditSpawn sp p w"
| "ledger_exec sp (Forget p) w = sn_ForgetSpawns sp p w"

fun ledger_run :: "'w Spawner \<Rightarrow> ledger_op list \<Rightarrow> 'w \<Rightarrow> 'w" where
  "ledger_run sp [] w = w"
| "ledger_run sp (op # ops) w = ledger_run sp ops (snd (ledger_exec sp op w))"

locale spawn_ledger =
  fixes sp :: "'w Spawner" and used :: "'w \<Rightarrow> string \<Rightarrow> int"
  assumes reads: "sn_SpawnsUsed sp p w = (Inr (used w p), w)"
    and debit_nil: "sn_WriteSpawn sp obj m p b w = (None, w') \<Longrightarrow> used w p < b \<and> used w' = (used w)(p := used w p + 1)"
    and debit_err: "sn_WriteSpawn sp obj m p b w = (Some e, w') \<Longrightarrow> used w' = used w"
    and debit_spent: "p \<noteq> [] \<Longrightarrow> b \<le> used w p \<Longrightarrow> sn_WriteSpawn sp obj m p b w = (Some ErrBudgetExhausted, w)"
    and credit_law: "used (snd (sn_CreditSpawn sp p w)) = (used w)(p := (if 0 < used w p then used w p - 1 else used w p))"
    and forget_law: "used (snd (sn_ForgetSpawns sp p w)) = (used w)(p := 0)"
begin

lemma debit_used:
  "used (snd (sn_WriteSpawn sp obj m p b w)) q = used w q
   \<or> used w p < b \<and> q = p \<and> used (snd (sn_WriteSpawn sp obj m p b w)) q = used w q + 1"
  using debit_nil [of obj m p b w] debit_err [of obj m p b w]
  by (cases "sn_WriteSpawn sp obj m p b w"; cases "fst (sn_WriteSpawn sp obj m p b w)") auto

lemma exec_bounded:
  assumes "0 \<le> used w p \<and> used w p \<le> bound" and "\<And>obj b. op = Debit obj p b \<Longrightarrow> b \<le> bound"
  shows "0 \<le> used (snd (ledger_exec sp op w)) p \<and> used (snd (ledger_exec sp op w)) p \<le> bound"
proof (cases op)
  case (Debit obj q b)
  then show ?thesis using assms debit_used [of obj "[]" q b w p] by fastforce
qed (use assms in \<open>auto simp: credit_law forget_law\<close>)

lemma run_bounded:
  assumes "0 \<le> used w p \<and> used w p \<le> bound" and "\<And>obj b. Debit obj p b \<in> set ops \<Longrightarrow> b \<le> bound"
  shows "0 \<le> used (ledger_run sp ops w) p \<and> used (ledger_run sp ops w) p \<le> bound"
  using assms
proof (induction ops arbitrary: w)
  case (Cons op ops)
  have "0 \<le> used (snd (ledger_exec sp op w)) p \<and> used (snd (ledger_exec sp op w)) p \<le> bound"
    using Cons.prems(2) by (intro exec_bounded Cons.prems(1)) auto
  from Cons.IH [OF this] show ?case using Cons.prems(2) by auto
qed simp

lemma last_unit:
  assumes "sn_WriteSpawn sp a m p b w = (None, w')" and "used w p + 1 = b" and "p \<noteq> []"
  shows "sn_WriteSpawn sp c m' p b w' = (Some ErrBudgetExhausted, w')"
  using debit_nil [OF assms(1)] assms(2,3) by (intro debit_spent) auto

end

end
