(* ===== verification/Samples.thy ===== *)
theory Samples
  imports Runtime_Types
begin

text \<open>
  Concrete objects that the witnesses of the other theories evaluate on: a sandbox, an environment, a
  secret, a driver whose every call succeeds and a store that accepts every write, over a world with
  one state.
\<close>

definition sample_sandbox :: "string \<Rightarrow> string \<Rightarrow> Sandbox" where
  "sample_sandbox vid phase =
     \<lparr>sb_APIVersion = [], sb_Kind = [], sb_Metadata = \<lparr>md_Name = vid, md_Labels = [], md_Annotations = []\<rparr>,
      sb_Spec = SandboxSpec0\<lparr>sp_Environment := ''desk''\<rparr>,
      sb_Status = SandboxStatus0\<lparr>st_ID := vid, st_Owner := ''o'', st_Environment := ''desk'', st_Phase := phase\<rparr>\<rparr>"

definition sample_environment :: Environment where
  "sample_environment = \<lparr>ev_APIVersion = [], ev_Kind = [],
     ev_Metadata = \<lparr>md_Name = ''desk'', md_Labels = [], md_Annotations = []\<rparr>,
     ev_Spec = \<lparr>en_Mode = [], en_Isolation = [],
       en_Capacity = \<lparr>ca_CPU = [], ca_Memory = [], ca_Disk = [], ca_Sandboxes = 0, ca_Auto = True\<rparr>,
       en_Scheduling = \<lparr>ds_Mode = [], ds_Queues = [], ds_DefaultQueue = []\<rparr>,
       en_Pool = \<lparr>pl_Size = 0, pl_Image = [], pl_Resources = sp_Resources SandboxSpec0, pl_Display = None\<rparr>,
       en_WorkspaceClass = [], en_Gateway = [], en_Workers = \<lparr>wk_Max = 0\<rparr>\<rparr>,
     ev_Status = \<lparr>et_ID = [], et_Owner = [], et_Phase = [], et_Reason = [], et_Driver = [], et_Isolation = [],
       et_Capabilities = \<lparr>cp_Egress = [], cp_Mesh = False, cp_Ingress = False, cp_Volumes = False,
         cp_VolumeImages = False, cp_Snapshots = False, cp_Attach = False, cp_Dial = False, cp_Display = False,
         cp_Input = False, cp_Resize = False, cp_Pool = False, cp_Files = False, cp_Detach = False,
         cp_HostWorkspace = False, cp_ExecStdin = False, cp_EgressLocal = False,
         cp_Autosize = \<lparr>az_CPU = False, az_Memory = False, az_Disk = False\<rparr>\<rparr>,
       et_Workers = 0, et_Hosts = [], et_Gateways = 0, et_LastHeartbeat = 0,
       et_Used = \<lparr>ca_CPU = [], ca_Memory = [], ca_Disk = [], ca_Sandboxes = 0, ca_Auto = False\<rparr>,
       et_Version = 0, et_CreatedAt = 0, et_UpdatedAt = 0\<rparr>\<rparr>"

definition sample_secret :: Secret where
  "sample_secret = \<lparr>sec_APIVersion = [], sec_Kind = [],
     sec_Metadata = \<lparr>md_Name = ''api'', md_Labels = [], md_Annotations = []\<rparr>,
     sec_Spec = \<lparr>se_Kind = [], se_Scope = \<lparr>sk_Hosts = [], sk_Ports = []\<rparr>,
       se_Inject = \<lparr>si_Header = [], si_Scheme = [], si_Query = [], si_Body = False\<rparr>, se_OAuth = None, se_Value = ''v''\<rparr>,
     sec_Status = \<lparr>su_ID = ''sec_1'', su_Owner = [], su_Version = 0, su_CreatedAt = 0, su_UpdatedAt = 0,
       su_MountedBy = 0, su_LastUsedAt = 0\<rparr>\<rparr>"

definition sample_capabilities :: Capabilities where
  "sample_capabilities = et_Capabilities (ev_Status sample_environment)"

definition sample_state :: "string \<Rightarrow> string \<Rightarrow> State" where
  "sample_state vid phase = \<lparr>dt_ID = vid, dt_Name = [], dt_Owner = [], dt_Phase = phase, dt_Reason = [], dt_ExitCode = None,
     dt_Isolation = [], dt_Labels = [], dt_Ports = [], dt_Conditions = [], dt_CreatedAt = 0, dt_StartedAt = 0,
     dt_StoppedAt = 0, dt_LastActivityAt = 0, dt_ExpiresAt = 0, dt_AutoStop = 0, dt_AutoDelete = 0, dt_Pool = False,
     dt_MeshID = [], dt_Parent = [],
     dt_Resources = \<lparr>dv_CPU = [], dv_Memory = [], dv_Disk = [], dv_CPULimit = []\<rparr>, dt_Resize = None, dt_Paths = None\<rparr>"

definition sample_driver :: "'w Driver" where
  "sample_driver = \<lparr>dr_Name = ''sample'', dr_Isolation = ''none'', dr_Capabilities = sample_capabilities, dr_Ready = (\<lambda>w. (None, w)),
     dr_Create = (\<lambda>_ w. (None, w)),
     dr_Start = (\<lambda>_ w. (None, w)), dr_Stop = (\<lambda>_ w. (None, w)), dr_Delete = (\<lambda>_ w. (None, w)), dr_Update = (\<lambda>_ _ w. (None, w)), dr_Touch = (\<lambda>_ w. (None, w)),
     dr_Inspect = (\<lambda>vid w. (Inr (sample_state vid Stopped), w)), dr_List = (\<lambda>_ w. (Inr [], w)), dr_VolumeDriver = None\<rparr>"

definition sample_accepting :: "'w Store" where
  "sample_accepting = \<lparr>so_Save = (\<lambda>_ w. (None, w)), so_Durable = None, so_Spawner = None, so_Journaller = None\<rparr>"

lemmas sample_object_defs = sample_sandbox_def sample_environment_def sample_secret_def sample_capabilities_def
  sample_state_def sample_driver_def sample_accepting_def SandboxSpec0_def SandboxStatus0_def

end
