(* ===== verification/File_Store.thy ===== *)
theory File_Store
  imports Spawn_Ledger Samples
begin

text \<open>
  The snapshot store of \<^verbatim>\<open>controller/store.go\<close>: five collections in memory and one document on
  disk that every write replaces whole. The document is the value it encodes. A write of it may
  fail before the rename, which leaves the old document, or after it, in the sync of the
  directory, which leaves the new one and an error all the same; the faults to come are a list
  in the state that no operation reads but \<open>fs_write\<close>. The sealer is the operator's own code and
  is a parameter.
\<close>

record secretRow =
  sr_Object :: Secret
  sr_Version :: int
  sr_Wrapped :: string
  sr_Sealed :: string

record environmentRow =
  ew_Object :: Environment
  ew_Version :: int

text \<open>The document. A collection with \<^verbatim>\<open>omitempty\<close> is absent from it where it is empty.\<close>

record snapshot =
  sh_Version :: int
  sh_Objects :: "(string \<times> Sandbox) list option"
  sh_Secrets :: "(string \<times> secretRow) list option"
  sh_Ledger :: "(string \<times> int) list option"
  sh_Environments :: "(string \<times> environmentRow) list option"
  sh_Volumes :: "(string \<times> Volume) list option"

record Sealer =
  sl_Seal :: "string \<Rightarrow> cerr + (string \<times> string)"
  sl_Open :: "string \<Rightarrow> string \<Rightarrow> cerr + string"

datatype fault = NoFault | BeforeRename cerr | AfterRename cerr

record fileStore =
  fs_sealer :: "Sealer option"
  fs_objects :: "(string \<times> Sandbox) list"
  fs_secrets :: "(string \<times> secretRow) list"
  fs_ledger :: "(string \<times> int) list"
  fs_environments :: "(string \<times> environmentRow) list"
  fs_volumes :: "(string \<times> Volume) list"
  fs_disk :: "snapshot option"
  fs_faults :: "fault list"

section \<open>Reading and writing the document\<close>

definition omitempty :: "'a list \<Rightarrow> 'a list option" where
  "omitempty xs = (if xs = [] then None else Some xs)"

definition document :: "fileStore \<Rightarrow> snapshot" where
  "document s =
     \<lparr>sh_Version = 1, sh_Objects = Some (fs_objects s), sh_Secrets = omitempty (fs_secrets s),
      sh_Ledger = omitempty (fs_ledger s), sh_Environments = omitempty (fs_environments s),
      sh_Volumes = omitempty (fs_volumes s)\<rparr>"

definition fs_write :: "fileStore \<Rightarrow> cerr option \<times> fileStore" where
  "fs_write s =
     (case fs_faults s of
        [] \<Rightarrow> (None, s\<lparr>fs_disk := Some (document s)\<rparr>)
      | NoFault # fs \<Rightarrow> (None, s\<lparr>fs_disk := Some (document s), fs_faults := fs\<rparr>)
      | BeforeRename e # fs \<Rightarrow> (Some e, s\<lparr>fs_faults := fs\<rparr>)
      | AfterRename e # fs \<Rightarrow> (Some e, s\<lparr>fs_disk := Some (document s), fs_faults := fs\<rparr>))"

definition or_empty :: "'a list option \<Rightarrow> 'a list" where
  "or_empty m = (case m of None \<Rightarrow> [] | Some xs \<Rightarrow> xs)"

definition OpenSealedFileStore :: "Sealer option \<Rightarrow> snapshot option \<Rightarrow> fault list \<Rightarrow> fileStore" where
  "OpenSealedFileStore sealer disk faults =
     \<lparr>fs_sealer = sealer, fs_objects = [], fs_secrets = [], fs_ledger = [], fs_environments = [],
      fs_volumes = [], fs_disk = disk, fs_faults = faults\<rparr>"

definition Load :: "fileStore \<Rightarrow> (cerr + (string \<times> Sandbox) list) \<times> fileStore" where
  "Load s =
     (case fs_disk s of
        None \<Rightarrow> (Inr [], s)
      | Some d \<Rightarrow>
          (case sh_Objects d of
             None \<Rightarrow> (Inl (ErrOther ''snapshot''), s)
           | Some objects \<Rightarrow>
               if sh_Version d \<noteq> 1 then (Inl (ErrOther ''snapshot''), s)
               else (Inr objects,
                     s\<lparr>fs_objects := objects, fs_secrets := or_empty (sh_Secrets d),
                       fs_ledger := or_empty (sh_Ledger d), fs_environments := or_empty (sh_Environments d),
                       fs_volumes := or_empty (sh_Volumes d)\<rparr>)))"

section \<open>Sandboxes and the spawn ledger\<close>

definition Save :: "(string \<times> Sandbox) list \<Rightarrow> fileStore \<Rightarrow> cerr option \<times> fileStore" where
  "Save objects s = fs_write (s\<lparr>fs_objects := objects\<rparr>)"

text \<open>Putting a row back where a write failed, or dropping the one that was not there.\<close>

definition restore :: "'k \<Rightarrow> 'v option \<Rightarrow> ('k \<times> 'v) list \<Rightarrow> ('k \<times> 'v) list" where
  "restore k previous m = (case previous of Some v \<Rightarrow> AList.update k v m | None \<Rightarrow> AList.delete k m)"

definition ledger_of :: "fileStore \<Rightarrow> string \<Rightarrow> int" where
  "ledger_of s p = (case map_of (fs_ledger s) p of None \<Rightarrow> 0 | Some n \<Rightarrow> n)"

definition WriteSpawn :: "Sandbox \<Rightarrow> string \<Rightarrow> string \<Rightarrow> int \<Rightarrow> fileStore \<Rightarrow> cerr option \<times> fileStore" where
  "WriteSpawn obj mutation parentID budget s =
     (if parentID = [] then (Some (ErrOther ''debit''), s)
      else if ledger_of s parentID \<ge> budget then (Some ErrBudgetExhausted, s)
      else let vid = st_ID (sb_Status obj); previous = map_of (fs_objects s) vid;
               s1 = s\<lparr>fs_ledger := AList.update parentID (ledger_of s parentID + 1) (fs_ledger s),
                      fs_objects := AList.update vid obj (fs_objects s)\<rparr>
           in case fs_write s1 of
                (None, s2) \<Rightarrow> (None, s2)
              | (Some e, s2) \<Rightarrow>
                  (Some e, s2\<lparr>fs_ledger := AList.update parentID (ledger_of s2 parentID - 1) (fs_ledger s2),
                              fs_objects := restore vid previous (fs_objects s2)\<rparr>))"

definition CreditSpawn :: "string \<Rightarrow> fileStore \<Rightarrow> cerr option \<times> fileStore" where
  "CreditSpawn parentID s =
     (let n = ledger_of s parentID
      in if n > 0 then fs_write (s\<lparr>fs_ledger := AList.update parentID (n - 1) (fs_ledger s)\<rparr>) else (None, s))"

definition SpawnsUsed :: "string \<Rightarrow> fileStore \<Rightarrow> (cerr + int) \<times> fileStore" where
  "SpawnsUsed parentID s = (Inr (ledger_of s parentID), s)"

definition ForgetSpawns :: "string \<Rightarrow> fileStore \<Rightarrow> cerr option \<times> fileStore" where
  "ForgetSpawns parentID s =
     (if map_of (fs_ledger s) parentID = None then (None, s)
      else fs_write (s\<lparr>fs_ledger := AList.delete parentID (fs_ledger s)\<rparr>))"

section \<open>Secrets\<close>

definition LoadSecrets :: "fileStore \<Rightarrow> (string \<times> Secret) list" where
  "LoadSecrets s =
     map (\<lambda>(k, r). (k, (sr_Object r)\<lparr>sec_Status := (sec_Status (sr_Object r))\<lparr>su_Version := sr_Version r\<rparr>\<rparr>))
       (fs_secrets s)"

definition bare_secret :: "Secret \<Rightarrow> Secret" where
  "bare_secret obj = obj\<lparr>sec_Spec := (sec_Spec obj)\<lparr>se_Value := []\<rparr>\<rparr>"

definition secret_at :: "int \<Rightarrow> Secret \<Rightarrow> Secret" where
  "secret_at v obj = obj\<lparr>sec_Status := (sec_Status obj)\<lparr>su_Version := v\<rparr>\<rparr>"

text \<open>The row a write of a Secret stores, or the error that refuses it: the ciphertext and the version
  move only where a plaintext is given.\<close>

definition secret_row :: "Sealer option \<Rightarrow> secretRow option \<Rightarrow> Secret \<Rightarrow> string \<Rightarrow> cerr + secretRow" where
  "secret_row sealer previous obj plaintext =
     (let version = (case previous of None \<Rightarrow> 0 | Some r \<Rightarrow> sr_Version r);
          wrapped = (case previous of None \<Rightarrow> [] | Some r \<Rightarrow> sr_Wrapped r);
          sealed = (case previous of None \<Rightarrow> [] | Some r \<Rightarrow> sr_Sealed r)
      in if plaintext \<noteq> [] then
           (case sealer of
              None \<Rightarrow> Inl ErrNoSecretKey
            | Some sl \<Rightarrow>
                rbind (sl_Seal sl plaintext) (\<lambda>(wrapped, sealed).
                  Inr \<lparr>sr_Object = secret_at (version + 1) (bare_secret obj), sr_Version = version + 1,
                       sr_Wrapped = wrapped, sr_Sealed = sealed\<rparr>))
         else Inr \<lparr>sr_Object = secret_at version (bare_secret obj), sr_Version = version,
                   sr_Wrapped = wrapped, sr_Sealed = sealed\<rparr>)"

definition WriteSecret :: "Secret \<Rightarrow> string \<Rightarrow> fileStore \<Rightarrow> (cerr + int) \<times> fileStore" where
  "WriteSecret obj plaintext s =
     (let vid = su_ID (sec_Status obj); previous = map_of (fs_secrets s) vid
      in case secret_row (fs_sealer s) previous obj plaintext of
           Inl e \<Rightarrow> (Inl e, s)
         | Inr row \<Rightarrow>
             (case fs_write (s\<lparr>fs_secrets := AList.update vid row (fs_secrets s)\<rparr>) of
                (None, s2) \<Rightarrow> (Inr (sr_Version row), s2)
              | (Some e, s2) \<Rightarrow> (Inl e, s2\<lparr>fs_secrets := restore vid previous (fs_secrets s2)\<rparr>)))"

definition WriteSecretUse :: "Secret \<Rightarrow> fileStore \<Rightarrow> cerr option \<times> fileStore" where
  "WriteSecretUse obj s =
     (let vid = su_ID (sec_Status obj)
      in case map_of (fs_secrets s) vid of
           None \<Rightarrow> (Some ErrNotFound, s)
         | Some previous \<Rightarrow>
             (case fs_write (s\<lparr>fs_secrets := AList.update vid
                    (previous\<lparr>sr_Object := secret_at (sr_Version previous) (bare_secret obj)\<rparr>) (fs_secrets s)\<rparr>) of
                (None, s2) \<Rightarrow> (None, s2)
              | (Some e, s2) \<Rightarrow> (Some e, s2\<lparr>fs_secrets := restore vid (Some previous) (fs_secrets s2)\<rparr>)))"

definition RemoveSecret :: "string \<Rightarrow> fileStore \<Rightarrow> cerr option \<times> fileStore" where
  "RemoveSecret vid s =
     (let previous = map_of (fs_secrets s) vid
      in case fs_write (s\<lparr>fs_secrets := AList.delete vid (fs_secrets s)\<rparr>) of
           (None, s2) \<Rightarrow> (None, s2)
         | (Some e, s2) \<Rightarrow> (Some e, s2\<lparr>fs_secrets := restore vid previous (fs_secrets s2)\<rparr>))"

definition OpenValue :: "string \<Rightarrow> fileStore \<Rightarrow> cerr + (string \<times> int)" where
  "OpenValue secretID s =
     (case map_of (fs_secrets s) secretID of
        None \<Rightarrow> Inl ErrNotFound
      | Some row \<Rightarrow>
          if sr_Sealed row = [] then Inl ErrNotFound
          else case fs_sealer s of
                 None \<Rightarrow> Inl ErrNoSecretKey
               | Some sl \<Rightarrow> rbind (sl_Open sl (sr_Wrapped row) (sr_Sealed row)) (\<lambda>p. Inr (p, sr_Version row)))"

section \<open>Volumes\<close>

definition detached :: "Volume \<Rightarrow> Volume" where
  "detached obj = obj\<lparr>vo_Status := (vo_Status obj)\<lparr>vt_AttachedTo := []\<rparr>\<rparr>"

definition WriteVolume :: "Volume \<Rightarrow> fileStore \<Rightarrow> cerr option \<times> fileStore" where
  "WriteVolume obj s =
     (let vid = vt_ID (vo_Status obj); previous = map_of (fs_volumes s) vid
      in case fs_write (s\<lparr>fs_volumes := AList.update vid (detached obj) (fs_volumes s)\<rparr>) of
           (None, s2) \<Rightarrow> (None, s2)
         | (Some e, s2) \<Rightarrow> (Some e, s2\<lparr>fs_volumes := restore vid previous (fs_volumes s2)\<rparr>))"

definition RemoveVolume :: "Volume \<Rightarrow> fileStore \<Rightarrow> cerr option \<times> fileStore" where
  "RemoveVolume obj s =
     (let vid = vt_ID (vo_Status obj); previous = map_of (fs_volumes s) vid
      in case fs_write (s\<lparr>fs_volumes := AList.delete vid (fs_volumes s)\<rparr>) of
           (None, s2) \<Rightarrow> (None, s2)
         | (Some e, s2) \<Rightarrow> (Some e, s2\<lparr>fs_volumes := restore vid previous (fs_volumes s2)\<rparr>))"

section \<open>Environments\<close>

definition environment_at :: "int \<Rightarrow> Environment \<Rightarrow> Environment" where
  "environment_at v obj = obj\<lparr>ev_Status := (ev_Status obj)\<lparr>et_Version := v\<rparr>\<rparr>"

definition LoadEnvironments :: "fileStore \<Rightarrow> (string \<times> Environment) list" where
  "LoadEnvironments s = map (\<lambda>(k, r). (k, environment_at (ew_Version r) (ew_Object r))) (fs_environments s)"

definition version_of :: "environmentRow option \<Rightarrow> int" where
  "version_of previous = (case previous of None \<Rightarrow> 0 | Some r \<Rightarrow> ew_Version r)"

definition WriteEnvironment :: "Environment \<Rightarrow> int \<Rightarrow> fileStore \<Rightarrow> (cerr + int) \<times> fileStore" where
  "WriteEnvironment obj ifVersion s =
     (let name = md_Name (ev_Metadata obj); previous = map_of (fs_environments s) name
      in if previous \<noteq> None \<and> version_of previous \<noteq> ifVersion then (Inl ErrVersionConflict, s)
         else if previous = None \<and> ifVersion \<noteq> 0 then (Inl ErrVersionConflict, s)
         else let v = version_of previous + 1;
                  row = \<lparr>ew_Object = environment_at v obj, ew_Version = v\<rparr>
              in case fs_write (s\<lparr>fs_environments := AList.update name row (fs_environments s)\<rparr>) of
                   (None, s2) \<Rightarrow> (Inr v, s2)
                 | (Some e, s2) \<Rightarrow> (Inl e, s2\<lparr>fs_environments := restore name previous (fs_environments s2)\<rparr>))"

definition WriteEnvironmentStatus :: "Environment \<Rightarrow> fileStore \<Rightarrow> cerr option \<times> fileStore" where
  "WriteEnvironmentStatus obj s =
     (let name = md_Name (ev_Metadata obj)
      in case map_of (fs_environments s) name of
           None \<Rightarrow> (Some ErrNotFound, s)
         | Some previous \<Rightarrow>
             let row = previous\<lparr>ew_Object := (ew_Object previous)
                         \<lparr>ev_Status := (ev_Status obj)\<lparr>et_Version := ew_Version previous\<rparr>\<rparr>\<rparr>
             in case fs_write (s\<lparr>fs_environments := AList.update name row (fs_environments s)\<rparr>) of
                  (None, s2) \<Rightarrow> (None, s2)
                | (Some e, s2) \<Rightarrow> (Some e, s2\<lparr>fs_environments := restore name (Some previous) (fs_environments s2)\<rparr>))"

definition RemoveEnvironment :: "string \<Rightarrow> fileStore \<Rightarrow> cerr option \<times> fileStore" where
  "RemoveEnvironment name s =
     (let previous = map_of (fs_environments s) name
      in case fs_write (s\<lparr>fs_environments := AList.delete name (fs_environments s)\<rparr>) of
           (None, s2) \<Rightarrow> (None, s2)
         | (Some e, s2) \<Rightarrow> (Some e, s2\<lparr>fs_environments := restore name previous (fs_environments s2)\<rparr>))"

section \<open>The store as a set of maps\<close>

text \<open>What the collections hold, without the order of a map: the abstract store. \<open>store_spec\<close> is what
  each operation promises of it, None where it is refused.\<close>

record store_view =
  av_objects :: "string \<Rightarrow> Sandbox option"
  av_secrets :: "string \<Rightarrow> secretRow option"
  av_ledger :: "string \<Rightarrow> int"
  av_environments :: "string \<Rightarrow> environmentRow option"
  av_volumes :: "string \<Rightarrow> Volume option"

definition count_in :: "(string \<times> int) list \<Rightarrow> string \<Rightarrow> int" where
  "count_in m p = (case map_of m p of None \<Rightarrow> 0 | Some n \<Rightarrow> n)"

definition view :: "fileStore \<Rightarrow> store_view" where
  "view s = \<lparr>av_objects = map_of (fs_objects s), av_secrets = map_of (fs_secrets s),
     av_ledger = count_in (fs_ledger s), av_environments = map_of (fs_environments s),
     av_volumes = map_of (fs_volumes s)\<rparr>"

definition disk_view :: "snapshot option \<Rightarrow> store_view" where
  "disk_view d =
     (case d of
        None \<Rightarrow> \<lparr>av_objects = Map.empty, av_secrets = Map.empty, av_ledger = (\<lambda>_. 0),
                 av_environments = Map.empty, av_volumes = Map.empty\<rparr>
      | Some h \<Rightarrow> \<lparr>av_objects = map_of (or_empty (sh_Objects h)), av_secrets = map_of (or_empty (sh_Secrets h)),
                   av_ledger = count_in (or_empty (sh_Ledger h)),
                   av_environments = map_of (or_empty (sh_Environments h)),
                   av_volumes = map_of (or_empty (sh_Volumes h))\<rparr>)"

text \<open>What a restart would read is what the process holds.\<close>

definition synced :: "fileStore \<Rightarrow> bool" where
  "synced s \<longleftrightarrow> disk_view (fs_disk s) = view s"

datatype store_op =
    OpSave "(string \<times> Sandbox) list"
  | OpWriteSpawn Sandbox string int
  | OpCreditSpawn string
  | OpForgetSpawns string
  | OpWriteSecret Secret string
  | OpWriteSecretUse Secret
  | OpRemoveSecret string
  | OpWriteVolume Volume
  | OpRemoveVolume Volume
  | OpWriteEnvironment Environment int
  | OpWriteEnvironmentStatus Environment
  | OpRemoveEnvironment string
  | OpRestart

definition error_of :: "(cerr + 'a) \<times> 's \<Rightarrow> cerr option \<times> 's" where
  "error_of r = (case fst r of Inl e \<Rightarrow> Some e | Inr _ \<Rightarrow> None, snd r)"

fun store_exec :: "store_op \<Rightarrow> fileStore \<Rightarrow> cerr option \<times> fileStore" where
  "store_exec (OpSave objects) s = Save objects s"
| "store_exec (OpWriteSpawn obj p b) s = WriteSpawn obj [] p b s"
| "store_exec (OpCreditSpawn p) s = CreditSpawn p s"
| "store_exec (OpForgetSpawns p) s = ForgetSpawns p s"
| "store_exec (OpWriteSecret obj pt) s = error_of (WriteSecret obj pt s)"
| "store_exec (OpWriteSecretUse obj) s = WriteSecretUse obj s"
| "store_exec (OpRemoveSecret vid) s = RemoveSecret vid s"
| "store_exec (OpWriteVolume obj) s = WriteVolume obj s"
| "store_exec (OpRemoveVolume obj) s = RemoveVolume obj s"
| "store_exec (OpWriteEnvironment obj v) s = error_of (WriteEnvironment obj v s)"
| "store_exec (OpWriteEnvironmentStatus obj) s = WriteEnvironmentStatus obj s"
| "store_exec (OpRemoveEnvironment name) s = RemoveEnvironment name s"
| "store_exec OpRestart s = error_of (Load (OpenSealedFileStore (fs_sealer s) (fs_disk s) (fs_faults s)))"

fun store_spec :: "Sealer option \<Rightarrow> store_op \<Rightarrow> store_view \<Rightarrow> store_view option" where
  "store_spec sealer (OpSave objects) v = Some (v\<lparr>av_objects := map_of objects\<rparr>)"
| "store_spec sealer (OpWriteSpawn obj p b) v =
     (if p = [] \<or> b \<le> av_ledger v p then None
      else Some (v\<lparr>av_ledger := (av_ledger v)(p := av_ledger v p + 1),
                   av_objects := (av_objects v)(st_ID (sb_Status obj) \<mapsto> obj)\<rparr>))"
| "store_spec sealer (OpCreditSpawn p) v =
     Some (v\<lparr>av_ledger := (av_ledger v)(p := if 0 < av_ledger v p then av_ledger v p - 1 else av_ledger v p)\<rparr>)"
| "store_spec sealer (OpForgetSpawns p) v = Some (v\<lparr>av_ledger := (av_ledger v)(p := 0)\<rparr>)"
| "store_spec sealer (OpWriteSecret obj pt) v =
     (let k = su_ID (sec_Status obj)
      in case secret_row sealer (av_secrets v k) obj pt of
           Inl _ \<Rightarrow> None
         | Inr row \<Rightarrow> Some (v\<lparr>av_secrets := (av_secrets v)(k \<mapsto> row)\<rparr>))"
| "store_spec sealer (OpWriteSecretUse obj) v =
     (let k = su_ID (sec_Status obj)
      in case av_secrets v k of
           None \<Rightarrow> None
         | Some row \<Rightarrow> Some (v\<lparr>av_secrets := (av_secrets v)(k \<mapsto>
                          row\<lparr>sr_Object := secret_at (sr_Version row) (bare_secret obj)\<rparr>)\<rparr>))"
| "store_spec sealer (OpRemoveSecret k) v = Some (v\<lparr>av_secrets := (av_secrets v)(k := None)\<rparr>)"
| "store_spec sealer (OpWriteVolume obj) v =
     Some (v\<lparr>av_volumes := (av_volumes v)(vt_ID (vo_Status obj) \<mapsto> detached obj)\<rparr>)"
| "store_spec sealer (OpRemoveVolume obj) v = Some (v\<lparr>av_volumes := (av_volumes v)(vt_ID (vo_Status obj) := None)\<rparr>)"
| "store_spec sealer (OpWriteEnvironment obj n) v =
     (let k = md_Name (ev_Metadata obj); held = av_environments v k
      in if (held = None \<and> n \<noteq> 0) \<or> (held \<noteq> None \<and> version_of held \<noteq> n) then None
         else Some (v\<lparr>av_environments := (av_environments v)(k \<mapsto>
                \<lparr>ew_Object = environment_at (version_of held + 1) obj, ew_Version = version_of held + 1\<rparr>)\<rparr>))"
| "store_spec sealer (OpWriteEnvironmentStatus obj) v =
     (let k = md_Name (ev_Metadata obj)
      in case av_environments v k of
           None \<Rightarrow> None
         | Some row \<Rightarrow> Some (v\<lparr>av_environments := (av_environments v)(k \<mapsto>
                row\<lparr>ew_Object := (ew_Object row)\<lparr>ev_Status := (ev_Status obj)\<lparr>et_Version := ew_Version row\<rparr>\<rparr>\<rparr>)\<rparr>))"
| "store_spec sealer (OpRemoveEnvironment k) v = Some (v\<lparr>av_environments := (av_environments v)(k := None)\<rparr>)"
| "store_spec sealer OpRestart v = Some v"

subsection \<open>One write\<close>

lemma or_empty_omitempty [simp]: "or_empty (omitempty xs) = xs"
  by (simp add: or_empty_def omitempty_def)

lemma disk_view_document [simp]: "disk_view (Some (document s)) = view s"
  by (simp add: disk_view_def view_def document_def) (simp add: or_empty_def)

lemma ledger_of_count: "ledger_of s = count_in (fs_ledger s)"
  by (rule ext) (simp add: ledger_of_def count_in_def)

lemma count_in_update [simp]: "count_in (AList.update p n m) = (count_in m)(p := n)"
  by (rule ext) (simp add: count_in_def map_of_update)

lemma count_in_delete [simp]: "count_in (AList.delete p m) = (count_in m)(p := 0)"
  by (rule ext) (simp add: count_in_def map_of_delete)

lemma count_in_Nil [simp]: "count_in [] = (\<lambda>_. 0)"
  by (rule ext) (simp add: count_in_def)

lemma count_in_absent: "map_of m p = None \<Longrightarrow> (count_in m)(p := 0) = count_in m"
  by (rule ext) (simp add: count_in_def)

lemma fs_write_None:
  "fs_write s = (None, s') \<Longrightarrow> view s' = view s \<and> synced s' \<and> fs_sealer s' = fs_sealer s"
  by (auto simp: fs_write_def synced_def view_def split: list.splits fault.splits)

lemma fs_write_frame:
  "fs_write s = (e, s') \<Longrightarrow> fs_objects s' = fs_objects s \<and> fs_secrets s' = fs_secrets s \<and> fs_ledger s' = fs_ledger s
     \<and> fs_environments s' = fs_environments s \<and> fs_volumes s' = fs_volumes s \<and> fs_sealer s' = fs_sealer s
     \<and> (fs_disk s' = fs_disk s \<or> fs_disk s' = Some (document s))"
  by (auto simp: fs_write_def split: list.splits fault.splits)

lemma fs_write_early:
  "fs_write s = (Some e, s') \<Longrightarrow> (\<forall>e fs. fs_faults s \<noteq> AfterRename e # fs) \<Longrightarrow> s' = s\<lparr>fs_faults := tl (fs_faults s)\<rparr>"
  by (auto simp: fs_write_def split: list.splits fault.splits)

lemma map_of_restore_update [simp]: "map_of m k = p \<Longrightarrow> map_of (restore k p (AList.update k v m)) = map_of m"
  by (rule ext) (auto simp: restore_def map_of_update map_of_delete split: option.splits)

lemma map_of_restore_delete [simp]: "map_of m k = p \<Longrightarrow> map_of (restore k p (AList.delete k m)) = map_of m"
  by (rule ext) (auto simp: restore_def map_of_update map_of_delete split: option.splits)

lemma restart_view:
  assumes "Load (OpenSealedFileStore (fs_sealer s) (fs_disk s) (fs_faults s)) = (Inr objects, s')" and "synced s"
  shows "view s' = view s \<and> synced s'"
proof -
  have "view s' = disk_view (fs_disk s) \<and> fs_disk s' = fs_disk s"
  proof (cases "fs_disk s")
    case None
    with assms(1) show ?thesis
      by (auto simp: Load_def OpenSealedFileStore_def view_def disk_view_def count_in_def)
  next
    case (Some d)
    with assms(1) show ?thesis
      by (cases "sh_Objects d")
        (auto simp: Load_def OpenSealedFileStore_def view_def disk_view_def or_empty_def [of "Some _"] split: if_splits)
  qed
  with assms(2) show ?thesis by (simp add: synced_def)
qed

lemmas store_op_defs = Save_def WriteSpawn_def CreditSpawn_def ForgetSpawns_def WriteSecret_def WriteSecretUse_def
  RemoveSecret_def WriteVolume_def RemoveVolume_def WriteEnvironment_def WriteEnvironmentStatus_def
  RemoveEnvironment_def Load_def OpenSealedFileStore_def error_of_def

subsection \<open>Every operation implements its specification\<close>

text \<open>C17: every operation of the snapshot store that answers without an error has the effect its
  specification gives on the maps the store stands for, and leaves on disk exactly what the process
  holds, so a restart reads the same store.\<close>

theorem store_exec_refines:
  assumes "store_exec op s = (None, s')" and "synced s"
  shows "store_spec (fs_sealer s) op (view s) = Some (view s') \<and> synced s'"
proof (cases op)
  case (OpWriteSpawn obj p b)
  then show ?thesis using assms
    by (auto simp: WriteSpawn_def Let_def ledger_of_count view_def map_of_update split: if_splits option.splits prod.splits
        dest!: fs_write_None)
next
  case OpRestart
  then show ?thesis using assms restart_view [of s _ s']
    by (cases "Load (OpenSealedFileStore (fs_sealer s) (fs_disk s) (fs_faults s))")
      (auto simp: error_of_def split: sum.splits)
qed (insert assms, auto simp: store_op_defs Let_def view_def map_of_update map_of_delete ledger_of_count synced_def
  count_in_absent split: if_splits option.splits prod.splits sum.splits dest!: fs_write_None)

text \<open>The operations that put back what they found where the document could not be written.\<close>

fun restores :: "store_op \<Rightarrow> bool" where
  "restores (OpSave _) = False"
| "restores (OpCreditSpawn _) = False"
| "restores (OpForgetSpawns _) = False"
| "restores OpRestart = False"
| "restores _ = True"

text \<open>An operation that writes one object and is refused or fails before the rename changes
  nothing: neither what the process holds nor what is on disk.\<close>

theorem store_exec_error_keeps:
  assumes "store_exec op s = (Some e, s')" and "restores op" and "\<forall>x fs. fs_faults s \<noteq> AfterRename x # fs"
  shows "view s' = view s \<and> fs_disk s' = fs_disk s"
proof -
  have early: "t' = t\<lparr>fs_faults := tl (fs_faults t)\<rparr>"
    if "fs_write t = (Some x, t')" "fs_faults t = fs_faults s" for t t' x
    using fs_write_early [OF that(1)] assms(3) that(2) by simp
  show ?thesis
    using assms(1,2)
    by (cases op) (auto simp: store_op_defs Let_def view_def ledger_of_count
        split: if_splits option.splits prod.splits sum.splits dest!: early)
qed

text \<open>\<open>Save\<close> keeps the objects it was given where the document could not be written, and the next write
  of any other collection puts them on disk: the caller was told that the write failed.\<close>

theorem Save_failure_is_published_later:
  assumes "Save objects s = (Some e, s1)" and "WriteVolume v s1 = (None, s2)"
  shows "av_objects (disk_view (fs_disk s2)) = map_of objects"
proof -
  have "fs_objects s1 = objects"
    using fs_write_frame [OF assms(1) [unfolded Save_def]] by simp
  then have "av_objects (view s2) = map_of objects" and "synced s2"
    using assms(2) by (auto simp: WriteVolume_def Let_def view_def split: prod.splits option.splits dest!: fs_write_None)
  then show ?thesis by (simp add: synced_def)
qed

section \<open>Runs\<close>

text \<open>A run is a sequence of operations and restarts, whatever each answers.\<close>

fun store_run :: "store_op list \<Rightarrow> fileStore \<Rightarrow> fileStore" where
  "store_run [] s = s"
| "store_run (op # ops) s = store_run ops (snd (store_exec op s))"

lemma store_run_invariant:
  assumes "\<And>op s. op \<in> set ops \<Longrightarrow> P s \<Longrightarrow> P (snd (store_exec op s))" and "P s"
  shows "P (store_run ops s)"
  using assms by (induction ops arbitrary: s) auto

subsection \<open>No plaintext is stored\<close>

definition bare_rows :: "(string \<times> secretRow) list \<Rightarrow> bool" where
  "bare_rows rows = list_all (\<lambda>(k, r). se_Value (sec_Spec (sr_Object r)) = []) rows"

definition bare_disk :: "snapshot option \<Rightarrow> bool" where
  "bare_disk d = (case d of None \<Rightarrow> True | Some h \<Rightarrow> bare_rows (or_empty (sh_Secrets h)))"

definition no_plaintext :: "fileStore \<Rightarrow> bool" where
  "no_plaintext s \<longleftrightarrow> bare_rows (fs_secrets s) \<and> bare_disk (fs_disk s)"

lemma bare_rows_update: "bare_rows m \<Longrightarrow> se_Value (sec_Spec (sr_Object r)) = [] \<Longrightarrow> bare_rows (AList.update k r m)"
  by (induction m) (auto simp: bare_rows_def)

lemma bare_rows_delete: "bare_rows m \<Longrightarrow> bare_rows (AList.delete k m)"
  by (induction m) (auto simp: bare_rows_def)

lemma bare_rows_restore: "bare_rows m' \<Longrightarrow> bare_rows m \<Longrightarrow> map_of m' k = p \<Longrightarrow> bare_rows (restore k p m)"
  by (auto simp: restore_def bare_rows_delete intro!: bare_rows_update split: option.splits)
    (auto simp: bare_rows_def list_all_iff dest: map_of_SomeD)

lemma bare_secret_value [simp]: "se_Value (sec_Spec (secret_at v (bare_secret obj))) = []"
  by (simp add: secret_at_def bare_secret_def)

lemma secret_row_bare: "secret_row sl p obj pt = Inr r \<Longrightarrow> se_Value (sec_Spec (sr_Object r)) = []"
  by (auto simp: secret_row_def Let_def rbind_Inr split: if_splits option.splits)

lemma bare_disk_document [simp]: "bare_disk (Some (document t)) = bare_rows (fs_secrets t)"
  by (simp add: bare_disk_def document_def)

lemma bare_fs_write:
  "fs_write t = (e, t') \<Longrightarrow> bare_rows (fs_secrets t) \<Longrightarrow> bare_disk (fs_disk t) \<Longrightarrow> bare_disk (fs_disk t')"
  "fs_write t = (e, t') \<Longrightarrow> fs_secrets t' = fs_secrets t"
  "bare_rows (fs_secrets t) \<Longrightarrow> bare_disk (fs_disk t) \<Longrightarrow> bare_disk (fs_disk (snd (fs_write t)))"
  "fs_secrets (snd (fs_write t)) = fs_secrets t"
  using fs_write_frame [of t e t'] fs_write_frame [of t "fst (fs_write t)" "snd (fs_write t)"] by auto

lemma no_plaintext_restart:
  assumes "no_plaintext s"
  shows "no_plaintext (snd (store_exec OpRestart s))"
proof (cases "fs_disk s")
  case None
  with assms show ?thesis
    by (simp add: store_op_defs no_plaintext_def bare_rows_def)
next
  case (Some d)
  with assms show ?thesis
    by (cases "sh_Objects d") (auto simp: store_op_defs no_plaintext_def bare_disk_def bare_rows_def)
qed

lemma no_plaintext_exec:
  assumes "no_plaintext s"
  shows "no_plaintext (snd (store_exec op s))"
proof (cases op)
  case OpRestart
  then show ?thesis using no_plaintext_restart [OF assms] by simp
qed (insert assms, simp_all add: store_op_defs Let_def no_plaintext_def bare_fs_write bare_rows_update bare_rows_delete
  secret_row_bare bare_rows_restore [of "fs_secrets s"] split: option.split prod.split sum.split)

text \<open>C19: no run of the snapshot store, with whatever faults and restarts, ever holds or writes the
  plaintext of a secret in an object: the value leaves the object before it is stored, and only the
  sealer's ciphertext is kept.\<close>

theorem store_run_no_plaintext:
  assumes "no_plaintext s"
  shows "no_plaintext (store_run ops s)"
  using no_plaintext_exec assms by (rule store_run_invariant)

section \<open>The ledger\<close>

definition fileSpawner :: "fileStore Spawner" where
  "fileSpawner = \<lparr>sn_WriteSpawn = WriteSpawn, sn_CreditSpawn = CreditSpawn, sn_SpawnsUsed = SpawnsUsed,
     sn_ForgetSpawns = ForgetSpawns\<rparr>"

lemma ledger_write [simp]: "fs_ledger (snd (fs_write s)) = fs_ledger s"
  using fs_write_frame [of s "fst (fs_write s)" "snd (fs_write s)"] by auto

lemma count_in_write: "fs_write s = (e, s') \<Longrightarrow> count_in (fs_ledger s') = count_in (fs_ledger s)"
  using fs_write_frame [of s e s'] by simp

interpretation snapshot_ledger: spawn_ledger fileSpawner ledger_of
proof (unfold_locales, goal_cases)
  case (1 p w)
  show ?case by (simp add: fileSpawner_def SpawnsUsed_def)
next
  case (2 obj m p b w w')
  then show ?case
    by (auto simp: fileSpawner_def WriteSpawn_def Let_def ledger_of_count split: if_splits prod.splits option.splits
        dest!: count_in_write)
next
  case (3 obj m p b w e w')
  then show ?case
    by (auto simp: fileSpawner_def WriteSpawn_def Let_def ledger_of_count split: if_splits prod.splits option.splits
        dest!: count_in_write)
next
  case (4 p b w obj m)
  then show ?case by (simp add: fileSpawner_def WriteSpawn_def)
next
  case (5 p w)
  show ?case by (simp add: fileSpawner_def CreditSpawn_def Let_def ledger_of_count)
next
  case (6 p w)
  show ?case by (simp add: fileSpawner_def ForgetSpawns_def count_in_absent ledger_of_count)
qed

text \<open>C18: however debits, credits and deletes of the snapshot store's ledger interleave and whatever
  writes of the document fail, a sandbox has never created more children than the largest budget a
  debit of it named.\<close>

theorem snapshot_ledger_within_budget:
  assumes "0 \<le> ledger_of s p" and "ledger_of s p \<le> bound"
    and "\<forall>obj b. Debit obj p b \<in> set ops \<longrightarrow> b \<le> bound"
  shows "0 \<le> ledger_of (ledger_run fileSpawner ops s) p \<and> ledger_of (ledger_run fileSpawner ops s) p \<le> bound"
  using assms by (intro snapshot_ledger.run_bounded) auto

section \<open>Conditional writes of an environment\<close>

definition newer :: "int \<Rightarrow> string \<Rightarrow> (string \<times> environmentRow) list \<Rightarrow> bool" where
  "newer v name rows \<longleftrightarrow> v < version_of (map_of rows name)"

definition newer_disk :: "int \<Rightarrow> string \<Rightarrow> snapshot option \<Rightarrow> bool" where
  "newer_disk v name d =
     (case d of None \<Rightarrow> False
      | Some h \<Rightarrow> sh_Version h = 1 \<and> sh_Objects h \<noteq> None \<and> newer v name (or_empty (sh_Environments h)))"

lemma newer_disk_document [simp]: "newer_disk v name (Some (document t)) = newer v name (fs_environments t)"
  by (simp add: newer_disk_def document_def)

lemma newer_fs_write:
  "fs_write t = (e, t') \<Longrightarrow> newer v name (fs_environments t) \<Longrightarrow> newer_disk v name (fs_disk t) \<Longrightarrow> newer_disk v name (fs_disk t')"
  "fs_write t = (e, t') \<Longrightarrow> fs_environments t' = fs_environments t"
  "newer v name (fs_environments t) \<Longrightarrow> newer_disk v name (fs_disk t) \<Longrightarrow> newer_disk v name (fs_disk (snd (fs_write t)))"
  "fs_environments (snd (fs_write t)) = fs_environments t"
  using fs_write_frame [of t e t'] fs_write_frame [of t "fst (fs_write t)" "snd (fs_write t)"] by auto

lemma newer_update: "newer v name rows \<Longrightarrow> version_of (map_of rows k) \<le> ew_Version r \<Longrightarrow> newer v name (AList.update k r rows)"
  by (auto simp: newer_def map_of_update version_of_def)

lemma newer_delete: "newer v name rows \<Longrightarrow> k \<noteq> name \<Longrightarrow> newer v name (AList.delete k rows)"
  by (simp add: newer_def map_of_delete)

lemma newer_restore:
  "newer v name rows \<Longrightarrow> map_of rows k = p \<Longrightarrow> newer v name (restore k p (AList.update k r rows))"
  "newer v name rows \<Longrightarrow> map_of rows k = p \<Longrightarrow> newer v name (restore k p (AList.delete k rows))"
  by (simp_all add: newer_def)

lemma newer_exec:
  assumes "newer v name (fs_environments s)" and "newer_disk v name (fs_disk s)" and "op \<noteq> OpRemoveEnvironment name"
  shows "newer v name (fs_environments (snd (store_exec op s))) \<and> newer_disk v name (fs_disk (snd (store_exec op s)))"
proof (cases op)
  case OpRestart
  obtain h where h: "fs_disk s = Some h" "newer_disk v name (Some h)"
    using assms(2) by (cases "fs_disk s") (auto simp: newer_disk_def)
  then obtain objects where "sh_Objects h = Some objects" "sh_Version h = 1" "newer v name (or_empty (sh_Environments h))"
    by (auto simp: newer_disk_def)
  with OpRestart h show ?thesis by (simp add: store_op_defs)
qed (insert assms, simp_all add: store_op_defs Let_def newer_fs_write newer_update newer_delete newer_restore version_of_def
  split: option.split prod.split sum.split)

text \<open>C20: two conditional writes of one environment that name the same version do not both succeed,
  whatever is written, fails or restarts in between, unless the environment is removed in between: the
  second is refused as a version conflict, so no applied change is overwritten unseen.\<close>

theorem WriteEnvironment_no_lost_update:
  assumes "WriteEnvironment a v s = (Inr n, s1)" and "OpRemoveEnvironment (md_Name (ev_Metadata a)) \<notin> set ops"
    and "md_Name (ev_Metadata b) = md_Name (ev_Metadata a)"
  shows "WriteEnvironment b v (store_run ops s1) = (Inl ErrVersionConflict, store_run ops s1)"
proof -
  let ?name = "md_Name (ev_Metadata a)"
  have v: "version_of (map_of (fs_environments s) ?name) = v"
    using assms(1) by (auto simp: WriteEnvironment_def Let_def version_of_def split: if_splits option.splits)
  obtain row t where t: "fs_write t = (None, s1)" "fs_environments t = AList.update ?name row (fs_environments s)"
      "ew_Version row = v + 1"
    using assms(1) v by (auto simp: WriteEnvironment_def Let_def split: if_splits prod.splits option.splits)
  let ?P = "\<lambda>s. newer v ?name (fs_environments s) \<and> newer_disk v ?name (fs_disk s)"
  from t have "?P s1"
    by (auto simp: fs_write_def newer_def map_of_update version_of_def split: list.splits fault.splits)
  moreover have "?P (snd (store_exec op x))" if "op \<in> set ops" "?P x" for op x
    using that assms(2) newer_exec [of v ?name x op] by auto
  ultimately have "?P (store_run ops s1)"
    by (intro store_run_invariant [of ops ?P]) simp_all
  then show ?thesis
    using assms(3) by (auto simp: WriteEnvironment_def Let_def newer_def version_of_def split: option.splits)
qed

section \<open>A value survives a restart\<close>

lemma secret_row_sealed:
  assumes "secret_row (Some sl) p obj plaintext = Inr row" and "plaintext \<noteq> []"
  shows "sl_Seal sl plaintext = Inr (sr_Wrapped row, sr_Sealed row)"
  using assms by (cases "sl_Seal sl plaintext") (auto simp: secret_row_def Let_def)

text \<open>C21: a value the store accepted is the value it opens, at the version the write answered, in the
  process that wrote it and in the one that restarts on its document. What is relied on of the sealer
  is what its interface documents: opening reverses sealing, and a sealed value is not empty.\<close>

theorem WriteSecret_OpenValue:
  assumes "WriteSecret obj plaintext s = (Inr n, s1)" and "plaintext \<noteq> []" and "fs_sealer s = Some sl"
    and "\<forall>x w c. sl_Seal sl x = Inr (w, c) \<longrightarrow> sl_Open sl w c = Inr x \<and> c \<noteq> []"
  shows "OpenValue (su_ID (sec_Status obj)) s1 = Inr (plaintext, n)
    \<and> OpenValue (su_ID (sec_Status obj)) (snd (store_exec OpRestart s1)) = Inr (plaintext, n)"
proof -
  let ?k = "su_ID (sec_Status obj)"
  obtain row where row: "secret_row (Some sl) (map_of (fs_secrets s) ?k) obj plaintext = Inr row" "n = sr_Version row"
    and w: "fs_write (s\<lparr>fs_secrets := AList.update ?k row (fs_secrets s)\<rparr>) = (None, s1)"
    using assms(1,3) by (auto simp: WriteSecret_def Let_def split: sum.splits prod.splits option.splits)
  have held: "map_of (fs_secrets s1) ?k = Some row" "fs_sealer s1 = Some sl"
    and disk: "\<exists>t. fs_disk s1 = Some (document t) \<and> fs_secrets t = fs_secrets s1"
    using w assms(3) by (auto simp: fs_write_def map_of_update split: list.splits fault.splits)
  have opens: "sl_Open sl (sr_Wrapped row) (sr_Sealed row) = Inr plaintext \<and> sr_Sealed row \<noteq> []"
    using assms(4) secret_row_sealed [OF row(1) assms(2)] by blast
  with disk held row(2) show ?thesis
    by (auto simp: OpenValue_def store_op_defs document_def)
qed

subsection \<open>Witnesses\<close>

definition sample_sealer :: Sealer where
  "sample_sealer = \<lparr>sl_Seal = (\<lambda>x. Inr (''k'', x @ ''.'')), sl_Open = (\<lambda>w c. Inr (butlast c))\<rparr>"

definition sample_store :: "fault list \<Rightarrow> fileStore" where
  "sample_store faults = OpenSealedFileStore (Some sample_sealer) None faults"

lemmas sample_defs = sample_sealer_def sample_secret_def sample_store_def OpenSealedFileStore_def

lemma sample_synced: "synced (sample_store faults)"
  by (simp add: synced_def view_def disk_view_def sample_defs count_in_def)

theorem store_exec_refines_witness:
  "synced (sample_store [NoFault])
   \<and> store_spec (Some sample_sealer) (OpWriteSecret sample_secret ''v'') (view (sample_store [NoFault]))
       = Some (view (snd (store_exec (OpWriteSecret sample_secret ''v'') (sample_store [NoFault]))))
   \<and> synced (snd (store_exec (OpWriteSecret sample_secret ''v'') (sample_store [NoFault])))"
proof -
  have "store_exec (OpWriteSecret sample_secret ''v'') (sample_store [NoFault])
      = (None, snd (store_exec (OpWriteSecret sample_secret ''v'') (sample_store [NoFault])))"
    by (simp add: store_op_defs sample_defs secret_row_def fs_write_def Let_def)
  from store_exec_refines [OF this sample_synced] show ?thesis
    using sample_synced by (simp add: sample_defs)
qed

theorem store_exec_error_keeps_witness:
  "fst (store_exec (OpWriteSecret sample_secret ''v'') (sample_store [BeforeRename ErrNotWriter])) = Some ErrNotWriter
   \<and> view (snd (store_exec (OpWriteSecret sample_secret ''v'') (sample_store [BeforeRename ErrNotWriter])))
       = view (sample_store [BeforeRename ErrNotWriter])"
proof -
  let ?s = "sample_store [BeforeRename ErrNotWriter]"
  have e: "store_exec (OpWriteSecret sample_secret ''v'') ?s
      = (Some ErrNotWriter, snd (store_exec (OpWriteSecret sample_secret ''v'') (sample_store [BeforeRename ErrNotWriter])))"
    by (simp add: store_op_defs sample_defs secret_row_def fs_write_def Let_def)
  have "view (snd (store_exec (OpWriteSecret sample_secret ''v'') ?s)) = view ?s"
    using store_exec_error_keeps [OF e] by (simp add: sample_store_def OpenSealedFileStore_def)
  with arg_cong [OF e, of fst] show ?thesis by simp
qed

theorem store_run_no_plaintext_witness:
  "no_plaintext (store_run [OpWriteSecret sample_secret ''v'', OpRestart, OpRemoveSecret ''sec_1'']
      (sample_store [AfterRename ErrNotWriter, BeforeRename ErrNotWriter]))"
  by (rule store_run_no_plaintext) (simp add: no_plaintext_def bare_rows_def bare_disk_def sample_defs)

theorem snapshot_ledger_within_budget_witness:
  "ledger_of (ledger_run fileSpawner [Debit (sample_sandbox ''sbx_2'' []) ''sbx_1'' 1, Debit (sample_sandbox ''sbx_2'' []) ''sbx_1'' 1] (sample_store []))
     ''sbx_1'' \<le> 1"
  using snapshot_ledger_within_budget [of "sample_store []" "''sbx_1''" 1
      "[Debit (sample_sandbox ''sbx_2'' []) ''sbx_1'' 1, Debit (sample_sandbox ''sbx_2'' []) ''sbx_1'' 1]"]
  by (simp add: ledger_of_def sample_defs)

theorem WriteEnvironment_no_lost_update_witness:
  "fst (WriteEnvironment sample_environment 0
     (store_run [OpRestart] (snd (WriteEnvironment sample_environment 0 (sample_store []))))) = Inl ErrVersionConflict"
proof -
  have "WriteEnvironment sample_environment 0 (sample_store [])
      = (Inr 1, snd (WriteEnvironment sample_environment 0 (sample_store [])))"
    by (simp add: WriteEnvironment_def sample_defs version_of_def fs_write_def Let_def)
  from WriteEnvironment_no_lost_update [OF this, of "[OpRestart]" sample_environment] show ?thesis
    by simp
qed

theorem WriteSecret_OpenValue_witness:
  "OpenValue ''sec_1'' (snd (store_exec OpRestart (snd (WriteSecret sample_secret ''v'' (sample_store []))))) = Inr (''v'', 1)"
proof -
  have "WriteSecret sample_secret ''v'' (sample_store []) = (Inr 1, snd (WriteSecret sample_secret ''v'' (sample_store [])))"
    by (simp add: WriteSecret_def sample_defs secret_row_def fs_write_def Let_def)
  from WriteSecret_OpenValue [OF this, of sample_sealer] show ?thesis
    by (simp add: sample_defs)
qed

end
