(* ===== verification/Egress_Map.thy ===== *)
theory Egress_Map
  imports HostNetworks
begin

text \<open>
  \<^verbatim>\<open>egress/egress.go\<close>: the compiler of a sandbox's boundary into the map its gateway holds, and the two
  questions a gateway asks of the map. The shape of a minted placeholder belongs to a package outside
  the repository and is the parameter \<open>is_placeholder\<close>. The theorems say that the map admits what the
  manifest admits and the scopes of the mounted secrets and nothing else, that a secret is substituted
  only inside its own scope and never toward a denied name, that at most one secret is substituted
  toward a name, and that the map does not depend on the order the secrets were mounted in.
\<close>

section \<open>Principals\<close>

definition PrincipalPrefix :: string where "PrincipalPrefix = ''sandbox:''"

definition Principal :: "string \<Rightarrow> string" where
  "Principal sandboxID = PrincipalPrefix @ sandboxID"

definition SandboxOf :: "string \<Rightarrow> string" where
  "SandboxOf who = (case cut_prefix who PrincipalPrefix of None \<Rightarrow> [] | Some vid \<Rightarrow> vid)"

section \<open>The map\<close>

record OAuth =
  oa_TokenURL :: string
  oa_Scope :: string
  oa_Audience :: string

record Inject =
  in_Header :: string
  in_Query :: string
  in_Scheme :: string
  in_Body :: bool

record SecretView =
  sv_ID :: string
  sv_Name :: string
  sv_Kind :: string
  sv_Placeholder :: string
  sv_Hosts :: "string list"
  sv_Ports :: "int list"
  sv_Inject :: Inject
  sv_Value :: string
  sv_OAuth :: "OAuth option"

record Entry =
  ey_ID :: string
  ey_Secret :: string
  ey_Kind :: string
  ey_Placeholder :: string
  ey_Hosts :: "string list"
  ey_Ports :: "int list"
  ey_Header :: string
  ey_Query :: string
  ey_Scheme :: string
  ey_Body :: bool
  ey_Value :: string
  ey_OAuth :: "OAuth option"

record Map =
  mp_Principal :: string
  mp_Version :: int
  mp_Credential :: string
  mp_Mode :: EgressMode
  mp_Allow :: "string list"
  mp_Deny :: "string list"
  mp_Entries :: "Entry list"
  mp_NotInjectable :: "string list"

definition DefaultPort :: int where "DefaultPort = 443"

datatype eerr = ErrNoPrincipal | ErrNoMode | ErrPlaceholder | ErrSecretHostConflict

definition normalizePatterns :: "string list \<Rightarrow> string list" where
  "normalizePatterns patterns = filter (\<lambda>n. n \<noteq> []) (map NormalizeHost patterns)"

definition dedupe :: "'a::linorder list \<Rightarrow> 'a list" where
  "dedupe xs = compact (sort_ordered xs)"

definition coversAny :: "string \<Rightarrow> string list \<Rightarrow> bool" where
  "coversAny pattern s = list_ex (HostPatternCovers pattern) s"

section \<open>The compiler\<close>

definition entry_of :: "string list \<Rightarrow> SecretView \<Rightarrow> Entry" where
  "entry_of hosts view =
     \<lparr>ey_ID = sv_ID view, ey_Secret = sv_Name view, ey_Kind = sv_Kind view, ey_Placeholder = sv_Placeholder view,
      ey_Hosts = hosts,
      ey_Ports = compact (sort_ordered (if sv_Ports view = [] then [DefaultPort] else sv_Ports view)),
      ey_Header = in_Header (sv_Inject view), ey_Query = in_Query (sv_Inject view),
      ey_Scheme = in_Scheme (sv_Inject view), ey_Body = in_Body (sv_Inject view),
      ey_Value = sv_Value view, ey_OAuth = sv_OAuth view\<rparr>"

definition kept_hosts :: "string list \<Rightarrow> SecretView \<Rightarrow> string list" where
  "kept_hosts deny view = filter (\<lambda>h. \<not> (HostCovers deny h \<or> coversAny h deny)) (normalizePatterns (sv_Hosts view))"

definition compileEntry :: "(string \<Rightarrow> bool) \<Rightarrow> EgressMode \<Rightarrow> string list \<Rightarrow> SecretView \<Rightarrow> eerr + Entry option" where
  "compileEntry is_placeholder mode deny view =
     (if sv_Placeholder view = [] \<or> \<not> is_placeholder (sv_Placeholder view) then Inl ErrPlaceholder
      else if mode = EgressNone then Inr None
      else let hosts = kept_hosts deny view
           in if hosts = [] then Inr None else Inr (Some (entry_of hosts view)))"

text \<open>The loop over the views: the entries and the names with none, in the order met.\<close>

fun compile_views :: "(string \<Rightarrow> bool) \<Rightarrow> EgressMode \<Rightarrow> string list \<Rightarrow> SecretView list
    \<Rightarrow> eerr + (Entry list \<times> string list)" where
  "compile_views is_placeholder mode deny [] = Inr ([], [])"
| "compile_views is_placeholder mode deny (view # views) =
     rbind (compileEntry is_placeholder mode deny view) (\<lambda>entry.
     rbind (compile_views is_placeholder mode deny views) (\<lambda>(entries, bare).
       Inr (case entry of None \<Rightarrow> (entries, sv_Name view # bare) | Some e \<Rightarrow> (e # entries, bare))))"

fun refuseSharedHosts :: "Entry list \<Rightarrow> eerr option" where
  "refuseSharedHosts [] = None"
| "refuseSharedHosts (e # es) =
     (if list_ex (\<lambda>f. list_ex (\<lambda>a. list_ex (\<lambda>b. hostsOverlap a b) (ey_Hosts f)) (ey_Hosts e)) es
      then Some ErrSecretHostConflict else refuseSharedHosts es)"

definition view_cmp :: "SecretView \<Rightarrow> SecretView \<Rightarrow> int" where
  "view_cmp a b = cmp_or [go_compare (sv_Name a) (sv_Name b)]"

definition Compile :: "(string \<Rightarrow> bool) \<Rightarrow> Sandbox \<Rightarrow> SecretView list \<Rightarrow> eerr + Map" where
  "Compile is_placeholder sb secrets =
     (let e = nw_Egress (sp_Network (sb_Spec sb)); deny = normalizePatterns (eg_DeniedHosts e)
      in if st_ID (sb_Status sb) = [] then Inl ErrNoPrincipal
         else if EgressModeRank (eg_Mode e) < 0 then Inl ErrNoMode
         else rbind (compile_views is_placeholder (eg_Mode e) deny (sort_func view_cmp secrets)) (\<lambda>(entries, bare).
              guard_err (refuseSharedHosts entries)
                (Inr \<lparr>mp_Principal = Principal (st_ID (sb_Status sb)),
                      mp_Version = (case st_EgressState (sb_Status sb) of None \<Rightarrow> 0 | Some s \<Rightarrow> es_Version s),
                      mp_Credential = (case st_EgressState (sb_Status sb) of None \<Rightarrow> [] | Some s \<Rightarrow> es_Credential s),
                      mp_Mode = eg_Mode e,
                      mp_Allow = (if eg_Mode e = EgressAllowlist
                                  then dedupe (normalizePatterns (eg_AllowedHosts e) @ concat (map ey_Hosts entries)) else []),
                      mp_Deny = deny, mp_Entries = entries, mp_NotInjectable = bare\<rparr>)))"

section \<open>What a gateway asks of the map\<close>

definition Admits :: "Map \<Rightarrow> string \<Rightarrow> bool" where
  "Admits m host =
     (if mp_Mode m = EgressNone then False
      else if mp_Mode m = EgressAllowlist then HostMatches (mp_Allow m) host
      else if mp_Mode m = EgressOpen then \<not> HostMatches (mp_Deny m) host
      else False)"

fun entry_for :: "Entry list \<Rightarrow> string \<Rightarrow> int \<Rightarrow> Entry option" where
  "entry_for [] host port = None"
| "entry_for (e # es) host port =
     (if \<not> HostMatches (ey_Hosts e) host then entry_for es host port
      else if ey_Ports e \<noteq> [] \<and> port \<notin> set (ey_Ports e) then entry_for es host port
      else Some e)"

definition EntryFor :: "Map \<Rightarrow> string \<Rightarrow> int \<Rightarrow> Entry option" where
  "EntryFor m host port = entry_for (mp_Entries m) host port"

section \<open>What the map reaches\<close>

text \<open>A pattern whose normal form is in normal form. Patterns with a second trailing dot, or with a dot
  before a port, are not.\<close>

definition stable :: "string \<Rightarrow> bool" where
  "stable p \<longleftrightarrow> NormalizeHost (NormalizeHost p) = NormalizeHost p"

lemma pattern_reach_normal: "stable p \<Longrightarrow> pattern_reach (NormalizeHost p) = pattern_reach p"
  by (simp add: pattern_reach_def SplitHostPattern_def stable_def)

lemma pattern_reach_empty: "NormalizeHost p = [] \<Longrightarrow> pattern_reach p = {}"
  by (simp add: pattern_reach_def SplitHostPattern_def)

lemma reach_normalizePatterns: "\<forall>p \<in> set ps. stable p \<Longrightarrow> reach (normalizePatterns ps) = reach ps"
  by (induction ps) (auto simp: normalizePatterns_def pattern_reach_normal pattern_reach_empty)

lemma reach_dedupe [simp]: "reach (dedupe ps) = reach ps"
  by (rule reach_set_cong) (simp add: dedupe_def sort_ordered_sort)

lemma not_kept_iff: "HostCovers deny h \<or> coversAny h deny \<longleftrightarrow> pattern_reach h \<inter> reach deny \<noteq> {}"
proof -
  have "HostCovers deny h \<or> coversAny h deny \<longleftrightarrow> (\<exists>d \<in> set deny. hostsOverlap d h)"
    by (auto simp: HostCovers_iff coversAny_def list_ex_iff hostsOverlap_def)
  then show ?thesis by (auto simp: overlap_iff_common reach_def)
qed

lemma kept_hosts_iff:
  "h \<in> set (kept_hosts deny view) \<longleftrightarrow> h \<in> set (normalizePatterns (sv_Hosts view)) \<and> pattern_reach h \<inter> reach deny = {}"
  using not_kept_iff [of deny h] by (auto simp: kept_hosts_def)

text \<open>The names of a mounted secret's scope that a deny list leaves it: those of every pattern that reaches
  no denied name.\<close>

definition scope_left :: "string list \<Rightarrow> SecretView \<Rightarrow> string set" where
  "scope_left deny view = \<Union> {pattern_reach p |p. p \<in> set (sv_Hosts view) \<and> pattern_reach p \<inter> reach deny = {}}"

lemma reach_kept_hosts:
  assumes "\<forall>p \<in> set (sv_Hosts view). stable p" and "reach deny = reach denied"
  shows "reach (kept_hosts deny view) = scope_left denied view"
proof -
  have "h \<in> reach (kept_hosts deny view) \<longleftrightarrow> h \<in> scope_left denied view" for h
  proof
    assume "h \<in> reach (kept_hosts deny view)"
    then obtain q where q: "q \<in> set (kept_hosts deny view)" "h \<in> pattern_reach q" by (auto simp: reach_def)
    then obtain p where p: "p \<in> set (sv_Hosts view)" "q = NormalizeHost p"
      by (auto simp: kept_hosts_iff normalizePatterns_def)
    then have "pattern_reach q = pattern_reach p" using assms(1) pattern_reach_normal by simp
    then show "h \<in> scope_left denied view" using q p assms(2) by (auto simp: scope_left_def kept_hosts_iff)
  next
    assume "h \<in> scope_left denied view"
    then obtain p where p: "p \<in> set (sv_Hosts view)" "pattern_reach p \<inter> reach denied = {}" "h \<in> pattern_reach p"
      by (auto simp: scope_left_def)
    then have "pattern_reach (NormalizeHost p) = pattern_reach p" "NormalizeHost p \<noteq> []"
      using assms(1) pattern_reach_normal pattern_reach_empty [of p] by auto
    then have "NormalizeHost p \<in> set (kept_hosts deny view)" "h \<in> pattern_reach (NormalizeHost p)"
      using p assms(2) by (auto simp: kept_hosts_iff normalizePatterns_def)
    then show "h \<in> reach (kept_hosts deny view)" by (auto simp: reach_def)
  qed
  then show ?thesis by blast
qed

lemma compile_views_Inr:
  assumes "compile_views is_placeholder mode deny views = Inr (entries, bare)"
  shows "entries = (if mode = EgressNone then []
                    else map (\<lambda>v. entry_of (kept_hosts deny v) v) (filter (\<lambda>v. kept_hosts deny v \<noteq> []) views))"
    "bare = map sv_Name (filter (\<lambda>v. mode = EgressNone \<or> kept_hosts deny v = []) views)"
    "\<forall>v \<in> set views. sv_Placeholder v \<noteq> [] \<and> is_placeholder (sv_Placeholder v)"
proof -
  have "entries = (if mode = EgressNone then []
          else map (\<lambda>v. entry_of (kept_hosts deny v) v) (filter (\<lambda>v. kept_hosts deny v \<noteq> []) views))
     \<and> bare = map sv_Name (filter (\<lambda>v. mode = EgressNone \<or> kept_hosts deny v = []) views)
     \<and> (\<forall>v \<in> set views. sv_Placeholder v \<noteq> [] \<and> is_placeholder (sv_Placeholder v))"
    using assms
    by (induction views arbitrary: entries bare)
      (auto simp: rbind_Inr compileEntry_def Let_def split: if_splits option.splits prod.splits)
  then show "entries = (if mode = EgressNone then []
                    else map (\<lambda>v. entry_of (kept_hosts deny v) v) (filter (\<lambda>v. kept_hosts deny v \<noteq> []) views))"
    "bare = map sv_Name (filter (\<lambda>v. mode = EgressNone \<or> kept_hosts deny v = []) views)"
    "\<forall>v \<in> set views. sv_Placeholder v \<noteq> [] \<and> is_placeholder (sv_Placeholder v)" by blast+
qed

lemma Compile_Inr:
  assumes "Compile is_placeholder sb secrets = Inr m"
  obtains entries bare e deny where
    "e = nw_Egress (sp_Network (sb_Spec sb))" "deny = normalizePatterns (eg_DeniedHosts e)"
    "0 \<le> EgressModeRank (eg_Mode e)"
    "compile_views is_placeholder (eg_Mode e) deny (sort_func view_cmp secrets) = Inr (entries, bare)"
    "refuseSharedHosts entries = None" "mp_Mode m = eg_Mode e" "mp_Deny m = deny" "mp_Entries m = entries"
    "mp_Allow m = (if eg_Mode e = EgressAllowlist then dedupe (normalizePatterns (eg_AllowedHosts e) @ concat (map ey_Hosts entries)) else [])"
    "mp_Principal m = Principal (st_ID (sb_Status sb))"
    "mp_Credential m = (case st_EgressState (sb_Status sb) of None \<Rightarrow> [] | Some s \<Rightarrow> es_Credential s)"
proof -
  let ?e = "nw_Egress (sp_Network (sb_Spec sb))"
  obtain entries bare where
    c: "compile_views is_placeholder (eg_Mode ?e) (normalizePatterns (eg_DeniedHosts ?e)) (sort_func view_cmp secrets) = Inr (entries, bare)"
    using assms by (auto simp: Compile_def Let_def rbind_Inr split: if_splits)
  show ?thesis
    by (rule that [OF refl refl _ c]) (use assms c in \<open>auto simp: Compile_def Let_def guard_err_Inr split: if_splits\<close>)
qed

lemma rank_words: "0 \<le> EgressModeRank mode \<longleftrightarrow> mode = EgressOpen \<or> mode = EgressAllowlist \<or> mode = EgressNone"
  by (simp add: EgressModeRank_def EgressModeOrder_def egress_words)

text \<open>Every pattern the compiler reads has one normal form.\<close>

definition patterns_stable :: "Sandbox \<Rightarrow> SecretView list \<Rightarrow> bool" where
  "patterns_stable sb views \<longleftrightarrow>
     (let e = nw_Egress (sp_Network (sb_Spec sb))
      in list_all stable (eg_AllowedHosts e) \<and> list_all stable (eg_DeniedHosts e) \<and> list_all (\<lambda>v. list_all stable (sv_Hosts v)) views)"

lemma patterns_stableD:
  assumes "patterns_stable sb views"
  shows "reach (normalizePatterns (eg_AllowedHosts (nw_Egress (sp_Network (sb_Spec sb))))) = reach (eg_AllowedHosts (nw_Egress (sp_Network (sb_Spec sb))))"
    "reach (normalizePatterns (eg_DeniedHosts (nw_Egress (sp_Network (sb_Spec sb))))) = reach (eg_DeniedHosts (nw_Egress (sp_Network (sb_Spec sb))))"
    "v \<in> set views \<Longrightarrow> reach (kept_hosts (normalizePatterns (eg_DeniedHosts (nw_Egress (sp_Network (sb_Spec sb))))) v)
       = scope_left (eg_DeniedHosts (nw_Egress (sp_Network (sb_Spec sb)))) v"
proof -
  show a: "reach (normalizePatterns (eg_AllowedHosts (nw_Egress (sp_Network (sb_Spec sb))))) = reach (eg_AllowedHosts (nw_Egress (sp_Network (sb_Spec sb))))"
    and d: "reach (normalizePatterns (eg_DeniedHosts (nw_Egress (sp_Network (sb_Spec sb))))) = reach (eg_DeniedHosts (nw_Egress (sp_Network (sb_Spec sb))))"
    using assms by (simp_all add: patterns_stable_def Let_def list_all_iff reach_normalizePatterns)
  show "v \<in> set views \<Longrightarrow> reach (kept_hosts (normalizePatterns (eg_DeniedHosts (nw_Egress (sp_Network (sb_Spec sb))))) v)
       = scope_left (eg_DeniedHosts (nw_Egress (sp_Network (sb_Spec sb)))) v"
    using assms d by (intro reach_kept_hosts) (auto simp: patterns_stable_def Let_def list_all_iff)
qed

text \<open>C33: the compiled map admits a name exactly when the manifest's own egress does, or, under an allow
  list, when the name is in the part of a mounted secret's scope that no denied host touches: a mounted
  secret's hosts are reachable by construction, and nothing else is added.\<close>

theorem Compile_admits:
  assumes "Compile is_placeholder sb views = Inr m" and "patterns_stable sb views" and "NormalizeHost host \<noteq> []"
  shows "Admits m host \<longleftrightarrow>
    NormalizeHost host \<in> egress_reach (nw_Egress (sp_Network (sb_Spec sb)))
    \<or> eg_Mode (nw_Egress (sp_Network (sb_Spec sb))) = EgressAllowlist
      \<and> (\<exists>v \<in> set views. NormalizeHost host \<in> scope_left (eg_DeniedHosts (nw_Egress (sp_Network (sb_Spec sb)))) v)"
proof (rule Compile_Inr [OF assms(1)])
  fix entries bare e deny
  assume e: "e = nw_Egress (sp_Network (sb_Spec sb))" and deny: "deny = normalizePatterns (eg_DeniedHosts e)"
    and c: "compile_views is_placeholder (eg_Mode e) deny (sort_func view_cmp views) = Inr (entries, bare)"
    and m: "mp_Mode m = eg_Mode e" "mp_Deny m = deny"
    "mp_Allow m = (if eg_Mode e = EgressAllowlist then dedupe (normalizePatterns (eg_AllowedHosts e) @ concat (map ey_Hosts entries)) else [])"
  note st = patterns_stableD [OF assms(2), folded e]
  have "reach (concat (map ey_Hosts entries)) = (\<Union>v \<in> set views. scope_left (eg_DeniedHosts e) v)" if "eg_Mode e = EgressAllowlist"
  proof -
    have "reach (concat (map ey_Hosts entries)) = (\<Union>v \<in> set views. reach (kept_hosts deny v))"
      using compile_views_Inr(1) [OF c] that by (auto simp: reach_def entry_of_def)
    then show ?thesis using st(3) deny by simp
  qed
  then show ?thesis
    using assms(3) m st(1,2) deny e by (auto simp: Admits_def HostMatches_reach egress_reach_def)
qed

text \<open>C34: a secret is substituted only toward a name of its own scope, on a port of its own scope, and only
  where the map admits the name and no denied host covers it.\<close>

theorem Compile_injects_in_scope:
  assumes "Compile is_placeholder sb views = Inr m" and "patterns_stable sb views" and "EntryFor m host port = Some en"
  shows "\<exists>v \<in> set views. ey_ID en = sv_ID v \<and> ey_Placeholder en = sv_Placeholder v \<and> ey_Value en = sv_Value v
    \<and> NormalizeHost host \<in> reach (sv_Hosts v)
    \<and> NormalizeHost host \<notin> reach (eg_DeniedHosts (nw_Egress (sp_Network (sb_Spec sb))))
    \<and> port \<in> (if sv_Ports v = [] then {DefaultPort} else set (sv_Ports v)) \<and> Admits m host"
proof (rule Compile_Inr [OF assms(1)])
  fix entries bare e deny
  assume e: "e = nw_Egress (sp_Network (sb_Spec sb))" and deny: "deny = normalizePatterns (eg_DeniedHosts e)"
    and rank: "0 \<le> EgressModeRank (eg_Mode e)"
    and c: "compile_views is_placeholder (eg_Mode e) deny (sort_func view_cmp views) = Inr (entries, bare)"
    and m: "mp_Mode m = eg_Mode e" "mp_Deny m = deny" "mp_Entries m = entries"
    "mp_Allow m = (if eg_Mode e = EgressAllowlist then dedupe (normalizePatterns (eg_AllowedHosts e) @ concat (map ey_Hosts entries)) else [])"
  note st = patterns_stableD [OF assms(2), folded e]
  have "entry_for es host port = Some en \<Longrightarrow> en \<in> set es \<and> HostMatches (ey_Hosts en) host \<and> (ey_Ports en = [] \<or> port \<in> set (ey_Ports en))" for es
    by (induction es) (auto split: if_splits)
  then have en: "en \<in> set entries" "HostMatches (ey_Hosts en) host" "ey_Ports en = [] \<or> port \<in> set (ey_Ports en)"
    using assms(3) m by (auto simp: EntryFor_def)
  then obtain v where v: "v \<in> set views" "en = entry_of (kept_hosts deny v) v" and mode: "eg_Mode e \<noteq> EgressNone"
    using compile_views_Inr(1) [OF c] by (auto split: if_splits)
  let ?n = "NormalizeHost host"
  have n: "?n \<noteq> []" "?n \<in> scope_left (eg_DeniedHosts e) v"
    using en(2) v st(3) [OF v(1)] deny by (simp_all add: HostMatches_reach entry_of_def)
  then have "?n \<in> reach (sv_Hosts v)" "?n \<notin> reach (eg_DeniedHosts e)" by (auto simp: scope_left_def reach_def)
  moreover have "port \<in> (if sv_Ports v = [] then {DefaultPort} else set (sv_Ports v))"
    using en(3) v(2) by (auto simp: entry_of_def sort_ordered_sort split: if_splits dest!: arg_cong [of "compact _" "[]" set])
  moreover have "Admits m host"
  proof -
    have "?n \<in> reach (concat (map ey_Hosts entries))"
      using en(1,2) by (force simp: HostMatches_reach reach_def)
    then show ?thesis
      using m mode rank n(1) calculation(2) st(2) deny by (auto simp: Admits_def HostMatches_reach rank_words)
  qed
  ultimately show ?thesis using v e by (intro bexI [of _ v]) (auto simp: entry_of_def)
qed

lemma refuseSharedHosts_None:
  assumes "refuseSharedHosts es = None" and "i < j" and "j < length es"
    and "HostMatches (ey_Hosts (es ! i)) host" and "HostMatches (ey_Hosts (es ! j)) host"
  shows False
  using assms
proof (induction es arbitrary: i j)
  case (Cons e es)
  show ?case
  proof (cases i)
    case 0
    let ?f = "es ! (j - 1)"
    have f: "?f \<in> set es" "HostMatches (ey_Hosts e) host" "HostMatches (ey_Hosts ?f) host"
      using Cons.prems 0 by (auto simp: nth_Cons')
    then obtain a b where "a \<in> set (ey_Hosts e)" "b \<in> set (ey_Hosts ?f)" "NormalizeHost host \<in> pattern_reach a \<inter> pattern_reach b"
      by (auto simp: HostMatches_reach reach_def)
    then have "a \<in> set (ey_Hosts e)" "b \<in> set (ey_Hosts ?f)" "hostsOverlap a b" by (auto simp: overlap_iff_common)
    with f(1) Cons.prems(1) show ?thesis by (auto simp: list_ex_iff split: if_splits)
  next
    case (Suc k)
    with Cons.prems show ?thesis
      by (intro Cons.IH [of k "j - 1"]) (auto simp: nth_Cons' split: if_splits)
  qed
qed simp

text \<open>C35: no name is in the hosts of two entries of a compiled map, so which value replaces a placeholder
  there has one answer and does not depend on the order of the entries.\<close>

theorem Compile_one_secret_per_host:
  assumes "Compile is_placeholder sb views = Inr m" and "i < length (mp_Entries m)" and "j < length (mp_Entries m)"
    and "HostMatches (ey_Hosts (mp_Entries m ! i)) host" and "HostMatches (ey_Hosts (mp_Entries m ! j)) host"
  shows "i = j"
proof (rule Compile_Inr [OF assms(1)])
  fix entries
  assume "refuseSharedHosts entries = None" "mp_Entries m = entries"
  then show ?thesis
    using refuseSharedHosts_None [of entries i j host] refuseSharedHosts_None [of entries j i host] assms(2-5)
    by (cases i j rule: linorder_cases) auto
qed

interpretation views_by_name: go_order view_cmp sv_Name
proof -
  have "go_preorder view_cmp" unfolding view_cmp_def by (intro go_preorder_intros)
  then show "go_order view_cmp sv_Name" by (simp add: go_order_def go_order_axioms_def) (simp add: view_cmp_def)
qed

text \<open>The map does not depend on the order the secrets are mounted in, so recompiling a running
  sandbox hands its gateway the same map.\<close>

theorem Compile_mount_order:
  assumes "mset views = mset views'" and "distinct (map sv_Name views)"
  shows "Compile is_placeholder sb views = Compile is_placeholder sb views'"
  unfolding Compile_def views_by_name.sort_func_perm [OF assms] ..

lemma SandboxOf_Principal: "SandboxOf (Principal vid) = vid"
  by (simp add: SandboxOf_def Principal_def PrincipalPrefix_def cut_prefix_def has_prefix_def)

subsection \<open>Witnesses\<close>

definition sample_view :: "string \<Rightarrow> string \<Rightarrow> SecretView" where
  "sample_view name host =
     \<lparr>sv_ID = ''sec_'' @ name, sv_Name = name, sv_Kind = ''value'', sv_Placeholder = ''p'', sv_Hosts = [host], sv_Ports = [],
      sv_Inject = \<lparr>in_Header = ''Authorization'', in_Query = [], in_Scheme = ''bearer'', in_Body = False\<rparr>,
      sv_Value = ''v'', sv_OAuth = None\<rparr>"

definition listed_sandbox :: Sandbox where
  "listed_sandbox =
     \<lparr>sb_APIVersion = [], sb_Kind = [], sb_Metadata = \<lparr>md_Name = ''a'', md_Labels = [], md_Annotations = []\<rparr>,
      sb_Spec = SandboxSpec0\<lparr>sp_Network := \<lparr>nw_Egress = \<lparr>eg_Mode = EgressAllowlist, eg_AllowedHosts = [''*.b.c''], eg_DeniedHosts = []\<rparr>, nw_Ports = []\<rparr>\<rparr>,
      sb_Status = SandboxStatus0\<lparr>st_ID := ''sbx_1''\<rparr>\<rparr>"

definition listed_map :: Map where
  "listed_map = (case Compile (\<lambda>_. True) listed_sandbox [sample_view ''k'' ''a.b''] of Inr m \<Rightarrow> m)"

lemma listed_map_compiled:
  "Compile (\<lambda>_. True) listed_sandbox [sample_view ''k'' ''a.b''] = Inr listed_map"
  "patterns_stable listed_sandbox [sample_view ''k'' ''a.b'']" "NormalizeHost ''a.b'' \<noteq> []"
  "EntryFor listed_map ''a.b'' 443 = Some (hd (mp_Entries listed_map))" "length (mp_Entries listed_map) = 1"
  "HostMatches (ey_Hosts (mp_Entries listed_map ! 0)) ''a.b''" "Admits listed_map ''a.b''"
  "\<not> HostMatches [''*.b.c''] ''a.b''"
  by code_simp+

theorem Compile_admits_witness:
  "\<exists>v \<in> {sample_view ''k'' ''a.b''}. NormalizeHost ''a.b'' \<in> scope_left [] v"
proof -
  have "NormalizeHost ''a.b'' \<notin> egress_reach (nw_Egress (sp_Network (sb_Spec listed_sandbox)))"
    using listed_map_compiled(3,8) by (simp add: listed_sandbox_def egress_reach_def HostMatches_reach)
  with iffD1 [OF Compile_admits [OF listed_map_compiled(1-3)] listed_map_compiled(7)] show ?thesis
    by (simp add: listed_sandbox_def)
qed

theorem Compile_injects_in_scope_witness:
  "\<exists>v \<in> {sample_view ''k'' ''a.b''}. ey_ID (hd (mp_Entries listed_map)) = sv_ID v \<and> NormalizeHost ''a.b'' \<in> reach (sv_Hosts v)"
  using Compile_injects_in_scope [OF listed_map_compiled(1,2,4)] by auto

definition two_map :: Map where
  "two_map = (case Compile (\<lambda>_. True) listed_sandbox [sample_view ''k'' ''a.b'', sample_view ''l'' ''c.d''] of Inr m \<Rightarrow> m)"

lemma two_map_compiled:
  "Compile (\<lambda>_. True) listed_sandbox [sample_view ''k'' ''a.b'', sample_view ''l'' ''c.d''] = Inr two_map"
  "length (mp_Entries two_map) = 2" "HostMatches (ey_Hosts (mp_Entries two_map ! 0)) ''a.b''"
  by code_simp+

theorem Compile_one_secret_per_host_witness: "\<not> HostMatches (ey_Hosts (mp_Entries two_map ! 1)) ''a.b''"
  using Compile_one_secret_per_host [OF two_map_compiled(1), of 0 1 "''a.b''"] two_map_compiled(2,3) by auto

theorem Compile_mount_order_witness:
  "Compile (\<lambda>_. True) listed_sandbox [sample_view ''k'' ''a.b'', sample_view ''l'' ''c.d'']
   = Compile (\<lambda>_. True) listed_sandbox [sample_view ''l'' ''c.d'', sample_view ''k'' ''a.b'']"
  by (rule Compile_mount_order) (auto simp: sample_view_def)

end
