(* ===== verification/Controller_State.thy ===== *)
theory Controller_State
  imports Samples Durations Manifest_Boundary Egress_Map
begin

text \<open>
  The controller's state and the helpers its operations share (\<^verbatim>\<open>controller/controller.go\<close>,
  \<^verbatim>\<open>registry.go\<close>, \<^verbatim>\<open>egress.go\<close>, \<^verbatim>\<open>pool.go\<close>): the objects it holds, the environments and their drivers,
  the write of one object through the store, the read of one sandbox through its driver, and the
  conditions of a status. The controller's lock is held throughout each operation here, so an operation
  is a function of the state. Logs, metrics, the event emitter and the sizing loop's wake are not part
  of it; what the sizing loop answers about a read is the parameter \<open>co_rising\<close>.
\<close>

section \<open>Words\<close>

definition PhaseFailed :: string where "PhaseFailed = ''Failed''"
definition PhaseDeleting :: string where "PhaseDeleting = ''Deleting''"
definition PhaseLost :: string where "PhaseLost = ''Lost''"
definition PhaseRecovering :: string where "PhaseRecovering = ''Recovering''"
definition PhaseQueued :: string where "PhaseQueued = ''Queued''"
definition PhaseStarting :: string where "PhaseStarting = ''Starting''"
definition PhaseStopping :: string where "PhaseStopping = ''Stopping''"

definition ReasonPlaced :: string where "ReasonPlaced = ''Placed''"
definition ReasonFromPool :: string where "ReasonFromPool = ''FromPool''"
definition ReasonQueued :: string where "ReasonQueued = ''Queued''"
definition ReasonNoCapacity :: string where "ReasonNoCapacity = ''NoCapacity''"
definition ReasonPreempted :: string where "ReasonPreempted = ''Preempted''"
definition ReasonStartDeadline :: string where "ReasonStartDeadline = ''StartDeadline''"
definition ReasonLost :: string where "ReasonLost = ''Lost''"
definition ReasonParent :: string where "ReasonParent = ''Parent''"
definition ReasonCreateFailed :: string where "ReasonCreateFailed = ''CreateFailed''"
definition ReasonRecoveryExhausted :: string where "ReasonRecoveryExhausted = ''RecoveryExhausted''"
definition ReasonVolumeMissing :: string where "ReasonVolumeMissing = ''VolumeMissing''"

definition ConditionScheduled :: string where "ConditionScheduled = ''Scheduled''"
definition ConditionTrue :: string where "ConditionTrue = ''True''"
definition ConditionFalse :: string where "ConditionFalse = ''False''"
definition EnvironmentReady :: string where "EnvironmentReady = ''Ready''"

definition MutationCreated :: string where "MutationCreated = ''sandbox.created''"
definition MutationStarted :: string where "MutationStarted = ''sandbox.started''"
definition MutationStopped :: string where "MutationStopped = ''sandbox.stopped''"
definition MutationFailed :: string where "MutationFailed = ''sandbox.failed''"
definition MutationDeleted :: string where "MutationDeleted = ''sandbox.deleted''"
definition MutationLost :: string where "MutationLost = ''sandbox.lost''"
definition MutationDeleting :: string where "MutationDeleting = ''sandbox.deleting''"
definition MutationStatus :: string where "MutationStatus = ''sandbox.status''"

lemmas phase_words = PhaseFailed_def PhaseDeleting_def PhaseLost_def PhaseRecovering_def PhaseQueued_def
  PhaseStarting_def PhaseStopping_def Pending_def Running_def Stopped_def

lemmas reason_words = ReasonPlaced_def ReasonFromPool_def ReasonQueued_def ReasonNoCapacity_def ReasonPreempted_def
  ReasonStartDeadline_def ReasonLost_def ReasonParent_def ReasonCreateFailed_def ReasonRecoveryExhausted_def
  ReasonVolumeMissing_def ConditionScheduled_def ConditionTrue_def ConditionFalse_def EnvironmentReady_def

section \<open>What a sandbox's phase holds\<close>

definition phase_of :: "Sandbox \<Rightarrow> string" where
  "phase_of obj = st_Phase (sb_Status obj)"

definition id_of :: "Sandbox \<Rightarrow> string" where
  "id_of obj = st_ID (sb_Status obj)"

definition requeued :: "Sandbox \<Rightarrow> bool" where
  "requeued obj \<longleftrightarrow> st_Phase (sb_Status obj) = PhaseQueued \<and> st_Preemptions (sb_Status obj) > 0"

definition holdsCompute :: "string \<Rightarrow> bool" where
  "holdsCompute phase \<longleftrightarrow> \<not> (phase \<in> {PhaseQueued, PhaseDeleting, PhaseFailed, PhaseLost, Stopped})"

definition holdsDisk :: "Sandbox \<Rightarrow> bool" where
  "holdsDisk obj =
     (let phase = st_Phase (sb_Status obj); reason = st_Reason (sb_Status obj)
      in if phase = PhaseQueued then requeued obj
         else if phase = PhaseDeleting \<or> phase = PhaseLost then False
         else if phase = PhaseFailed then reason \<noteq> ReasonNoCapacity \<and> reason \<noteq> ReasonStartDeadline
         else True)"

definition holdsSlot :: "string \<Rightarrow> bool" where
  "holdsSlot phase \<longleftrightarrow> \<not> (phase \<in> {Stopped, PhaseFailed, PhaseDeleting})"

definition placed :: "Sandbox \<Rightarrow> bool" where
  "placed obj =
     (if st_Phase (sb_Status obj) \<noteq> Pending then False
      else \<not> list_ex (\<lambda>cond. cd_Type cond = ConditionScheduled \<and> cd_Status cond = ConditionTrue)
             (st_Conditions (sb_Status obj)))"

definition releases :: "Sandbox \<Rightarrow> Sandbox option \<Rightarrow> bool" where
  "releases before after =
     (case after of
        None \<Rightarrow> holdsCompute (st_Phase (sb_Status before)) \<or> holdsDisk before
      | Some obj \<Rightarrow>
          holdsCompute (st_Phase (sb_Status before)) \<and> \<not> holdsCompute (st_Phase (sb_Status obj))
          \<or> holdsDisk before \<and> \<not> holdsDisk obj)"

definition phaseMutation :: "string \<Rightarrow> string" where
  "phaseMutation phase =
     (if phase = Running then MutationStarted else if phase = PhaseFailed then MutationFailed else MutationStatus)"

section \<open>Conditions\<close>

fun setCondition :: "Condition list \<Rightarrow> Condition \<Rightarrow> Condition list" where
  "setCondition [] nxt = [nxt]"
| "setCondition (c # conditions) nxt =
     (if cd_Type c \<noteq> cd_Type nxt then c # setCondition conditions nxt
      else (if cd_Status c = cd_Status nxt \<and> cd_Reason c = cd_Reason nxt then nxt\<lparr>cd_Since := cd_Since c\<rparr> else nxt)
             # conditions)"

definition waitingCondition :: "string \<Rightarrow> gotime \<Rightarrow> Condition" where
  "waitingCondition reason now =
     \<lparr>cd_Type = ConditionScheduled, cd_Status = ConditionFalse, cd_Reason = reason, cd_Message = [], cd_Since = now\<rparr>"

definition scheduledCondition :: "bool \<Rightarrow> gotime \<Rightarrow> Condition" where
  "scheduledCondition fromPool now =
     \<lparr>cd_Type = ConditionScheduled, cd_Status = ConditionTrue,
      cd_Reason = (if fromPool then ReasonFromPool else ReasonPlaced),
      cd_Message = (if fromPool then ''This sandbox was adopted from an entry the environment had prewarmed.'' else []),
      cd_Since = now\<rparr>"

section \<open>The controller\<close>

text \<open>The control plane's half of the gateway protocol (\<^verbatim>\<open>controller/egress.go\<close>, \<^verbatim>\<open>Egress\<close>), where sandboxes reach
  the two doors, and one worker's registration (\<^verbatim>\<open>controller/environment.go\<close>).\<close>

record 'w GatewayHub =
  gh_Send :: "Map \<Rightarrow> 'w \<Rightarrow> cerr option \<times> 'w"
  gh_Purge :: "string \<Rightarrow> 'w \<Rightarrow> 'w"
  gh_CA :: "'w \<Rightarrow> string"
  gh_Connected :: "'w \<Rightarrow> int"

record GatewayAddresses =
  ga_Proxy :: string
  ga_Reverse :: string

record Registration =
  rn_Worker :: string
  rn_Driver :: string
  rn_LastHeartbeat :: gotime
  rn_Connected :: bool
  rn_Pending :: bool
  rn_Host :: "HostInfo option"

text \<open>\<open>co_clock\<close> is the controller's clock and \<open>co_wall\<close> the process's own; \<open>co_newID\<close> draws a fresh id with a
  prefix, \<open>co_mintCredential\<close> and \<open>co_mintPlaceholder\<close> draw from the random source, and \<open>co_isPlaceholder\<close> is the shape of
  what the latter answers.\<close>

record 'w Controller =
  co_store :: "'w Store"
  co_environment :: string
  co_environments :: "(string \<times> Environment) list"
  co_drivers :: "(string \<times> 'w Driver) list"
  co_objects :: "(string \<times> Sandbox) list"
  co_clock :: "'w \<Rightarrow> gotime"
  co_lifecycle :: DriverLifecycle
  co_pool :: PoolSpec
  co_capacity :: int
  co_maxPreemptions :: int
  co_realizing :: "string list"
  co_wake :: bool
  co_rising :: "Sandbox \<Rightarrow> State \<Rightarrow> 'w \<Rightarrow> string"
  co_wall :: "'w \<Rightarrow> gotime"
  co_newID :: "string \<Rightarrow> 'w \<Rightarrow> string \<times> 'w"
  co_tokens :: "'w Tokens option"
  co_moving :: "(string \<times> string) list"
  co_touchInterval :: duration
  co_touched :: "(string \<times> gotime) list"
  co_recovers :: bool
  co_lostGrace :: duration
  co_recoveryAttempts :: int
  co_lost :: "(string \<times> gotime) list"
  co_attempts :: "(string \<times> int) list"
  co_retry :: "(string \<times> gotime) list"
  co_poolInFlight :: int
  co_poolGrace :: duration
  co_volumes :: "'w Volumes option"
  co_volumeObjects :: "(string \<times> Volume) list"
  co_filling :: "string list"
  co_volumeWake :: bool
  co_egress :: "'w GatewayHub option"
  co_gateway :: GatewayAddresses
  co_gatewayGrace :: duration
  co_opened :: gotime
  co_mintCredential :: "'w \<Rightarrow> (cerr + string) \<times> 'w"
  co_mintPlaceholder :: "'w \<Rightarrow> string \<times> 'w"
  co_isPlaceholder :: "string \<Rightarrow> bool"
  co_secrets :: "'w Secrets option"
  co_secretUses :: "(Secret \<Rightarrow> 'w \<Rightarrow> cerr option \<times> 'w) option"
  co_secretObjects :: "(string \<times> Secret) list"
  co_environmentStore :: "'w Environments option"
  co_newDriver :: "(Environment \<Rightarrow> 'w \<Rightarrow> (cerr + 'w Driver) \<times> 'w) option"
  co_releaseDriver :: "(Environment \<Rightarrow> 'w \<Rightarrow> 'w) option"
  co_answered :: "(string \<times> gotime) list"
  co_offline :: duration
  co_registrations :: "(string \<Rightarrow> 'w \<Rightarrow> Registration list) option"
  co_retention :: "(gotime \<Rightarrow> 'w \<Rightarrow> cerr option \<times> 'w) option"
  co_restarts :: "(string \<times> int) list"
  co_restarted :: "(string \<times> gotime) list"
  co_world :: 'w

definition PoolSpec0 :: PoolSpec where
  "PoolSpec0 = \<lparr>pl_Size = 0, pl_Image = [], pl_Resources = sp_Resources SandboxSpec0, pl_Display = None\<rparr>"

definition environmentOf :: "'w Controller \<Rightarrow> string \<Rightarrow> Environment option" where
  "environmentOf c name = map_of (co_environments c) name"

definition driverFor :: "'w Controller \<Rightarrow> string \<Rightarrow> cerr + 'w Driver" where
  "driverFor c environment =
     (case map_of (co_drivers c) environment of None \<Rightarrow> Inl ErrNoEnvironment | Some d \<Rightarrow> Inr d)"

definition driverOf :: "'w Controller \<Rightarrow> string \<Rightarrow> cerr + 'w Driver" where
  "driverOf c vid =
     (case map_of (co_objects c) vid of
        None \<Rightarrow> driverFor c (co_environment c)
      | Some obj \<Rightarrow>
          if st_Environment (sb_Status obj) = [] then driverFor c (co_environment c)
          else if st_Phase (sb_Status obj) = PhaseQueued then Inl ErrPhase
          else driverFor c (st_Environment (sb_Status obj)))"

definition environmentsHeld :: "'w Controller \<Rightarrow> string list" where
  "environmentsHeld c = sort_ordered (map fst (co_environments c))"

definition placeable :: "'w Controller \<Rightarrow> string list" where
  "placeable c =
     sort_ordered (filter (\<lambda>name. case map_of (co_environments c) name of
                                    None \<Rightarrow> True
                                  | Some obj \<Rightarrow> et_Phase (ev_Status obj) = EnvironmentReady)
                     (map fst (co_drivers c)))"

definition poolOf :: "'w Controller \<Rightarrow> string \<Rightarrow> PoolSpec \<times> int" where
  "poolOf c environment =
     (case environmentOf c environment of
        Some obj \<Rightarrow> (en_Pool (ev_Spec obj), ca_Sandboxes (en_Capacity (ev_Spec obj)))
      | None \<Rightarrow> if environment = co_environment c then (co_pool c, co_capacity c) else (PoolSpec0, 0))"

definition capacityOf :: "'w Controller \<Rightarrow> string \<Rightarrow> Capacity" where
  "capacityOf c environment =
     (case environmentOf c environment of None \<Rightarrow> Capacity0 | Some obj \<Rightarrow> en_Capacity (ev_Spec obj))"

text \<open>Whether the environment's mode is queued; one the controller does not hold is read as direct.\<close>

definition queuedOn :: "'w Controller \<Rightarrow> string \<Rightarrow> bool" where
  "queuedOn c environment = (case environmentOf c environment of None \<Rightarrow> False | Some obj \<Rightarrow> Queued obj)"

definition admits :: "'w Controller \<Rightarrow> string \<Rightarrow> cerr option" where
  "admits c environment =
     (case environmentOf c environment of
        None \<Rightarrow> if environment = co_environment c then None else Some ErrNoEnvironment
      | Some obj \<Rightarrow> if et_Phase (ev_Status obj) \<noteq> EnvironmentReady then Some ErrEnvironmentUnavailable else None)"

definition parentOf :: "'w Controller \<Rightarrow> Sandbox \<Rightarrow> Sandbox option" where
  "parentOf c obj =
     (if st_Parent (sb_Status obj) = [] then None else map_of (co_objects c) (st_Parent (sb_Status obj)))"

definition now_of :: "'w Controller \<Rightarrow> gotime" where
  "now_of c = co_clock c (co_world c)"

definition wakeScheduler :: "'w Controller \<Rightarrow> 'w Controller" where
  "wakeScheduler c = c\<lparr>co_wake := True\<rparr>"

section \<open>Writing one object\<close>

text \<open>A row put back, or dropped where there was none.\<close>

definition put_back :: "string \<Rightarrow> Sandbox option \<Rightarrow> 'w Controller \<Rightarrow> 'w Controller" where
  "put_back vid previous c =
     c\<lparr>co_objects := (case previous of Some p \<Rightarrow> AList.update vid p (co_objects c)
                      | None \<Rightarrow> AList.delete vid (co_objects c))\<rparr>"

definition persist :: "'w Controller \<Rightarrow> Sandbox \<Rightarrow> string \<Rightarrow> cerr option \<times> 'w Controller" where
  "persist c obj mutation =
     (let vid = st_ID (sb_Status obj);
          previous = map_of (co_objects c) vid;
          c1 = c\<lparr>co_objects := AList.update vid obj (co_objects c)\<rparr>;
          (err, w) = (case so_Durable (co_store c1) of
                        Some d \<Rightarrow> du_Write d obj mutation (co_world c1)
                      | None \<Rightarrow> so_Save (co_store c1) (co_objects c1) (co_world c1));
          c2 = c1\<lparr>co_world := w\<rparr>
      in case err of
           Some e \<Rightarrow> (Some e, put_back vid previous c2)
         | None \<Rightarrow>
             (None, case previous of
                      None \<Rightarrow> c2
                    | Some p \<Rightarrow> if releases p (Some obj) then wakeScheduler c2 else c2))"

definition forget :: "'w Controller \<Rightarrow> string \<Rightarrow> string \<Rightarrow> cerr option \<times> 'w Controller" where
  "forget c vid mutation =
     (let previous = map_of (co_objects c) vid;
          c1 = c\<lparr>co_objects := AList.delete vid (co_objects c)\<rparr>;
          (err, w) = (case so_Durable (co_store c1) of
                        Some d \<Rightarrow> du_Remove d vid mutation (co_world c1)
                      | None \<Rightarrow> so_Save (co_store c1) (co_objects c1) (co_world c1));
          c2 = c1\<lparr>co_world := w\<rparr>
      in case err of
           Some e \<Rightarrow> (Some e, case previous of None \<Rightarrow> c2 | Some _ \<Rightarrow> put_back vid previous c2)
         | None \<Rightarrow>
             (None, case previous of
                      None \<Rightarrow> c2
                    | Some p \<Rightarrow> if releases p None then wakeScheduler c2 else c2))"

section \<open>Reading one sandbox through its driver\<close>

definition observe :: "Sandbox \<Rightarrow> State \<Rightarrow> Sandbox" where
  "observe obj state =
     (let st = sb_Status obj
      in obj\<lparr>sb_Status := st\<lparr>
           st_Reason := (if dt_Reason state \<noteq> [] \<or> dt_Phase state \<noteq> st_Phase st then dt_Reason state else st_Reason st),
           st_Phase := dt_Phase state,
           st_ExitCode := dt_ExitCode state,
           st_Conditions := foldl setCondition (st_Conditions st) (dt_Conditions state),
           st_Ports := dt_Ports state,
           st_Paths := (case dt_Paths state of None \<Rightarrow> st_Paths st | Some p \<Rightarrow> Some p),
           st_StartedAt := dt_StartedAt state,
           st_StoppedAt := dt_StoppedAt state,
           st_LastActivityAt := dt_LastActivityAt state,
           st_ExpiresAt := dt_ExpiresAt state\<rparr>\<rparr>)"

definition present :: "'w Controller \<Rightarrow> Sandbox \<Rightarrow> State \<Rightarrow> Sandbox" where
  "present c obj state =
     (let out = observe obj state; reason = co_rising c obj state (co_world c)
      in if reason = [] then out
         else out\<lparr>sb_Status := (sb_Status out)\<lparr>st_Phase := PhaseStarting, st_Reason := reason, st_ExitCode := None,
                    st_StoppedAt := 0\<rparr>\<rparr>)"

definition with_phase :: "string \<Rightarrow> Sandbox \<Rightarrow> Sandbox" where
  "with_phase phase obj = obj\<lparr>sb_Status := (sb_Status obj)\<lparr>st_Phase := phase\<rparr>\<rparr>"

definition with_reason :: "string \<Rightarrow> Sandbox \<Rightarrow> Sandbox" where
  "with_reason reason obj = obj\<lparr>sb_Status := (sb_Status obj)\<lparr>st_Reason := reason\<rparr>\<rparr>"

definition with_condition :: "Condition \<Rightarrow> Sandbox \<Rightarrow> Sandbox" where
  "with_condition cond obj =
     obj\<lparr>sb_Status := (sb_Status obj)\<lparr>st_Conditions := setCondition (st_Conditions (sb_Status obj)) cond\<rparr>\<rparr>"

definition read :: "'w Controller \<Rightarrow> Sandbox \<Rightarrow> (cerr + (Sandbox \<times> bool)) \<times> 'w Controller" where
  "read c obj =
     (let phase = st_Phase (sb_Status obj)
      in if phase = PhaseDeleting \<or> phase = PhaseQueued \<or> placed obj then (Inr (obj, False), c)
         else case driverFor c (st_Environment (sb_Status obj)) of
                Inl e \<Rightarrow> (Inl e, c)
              | Inr d \<Rightarrow>
                  (case dr_Inspect d (st_ID (sb_Status obj)) (co_world c) of
                     (Inl e, w) \<Rightarrow>
                       if errors_Is e DriverNotFound
                       then (Inr (if phase \<noteq> Pending \<and> phase \<noteq> PhaseFailed then with_phase PhaseLost obj else obj, False),
                             c\<lparr>co_world := w\<rparr>)
                       else (Inl e, c\<lparr>co_world := w\<rparr>)
                   | (Inr state, w) \<Rightarrow> (Inr (present (c\<lparr>co_world := w\<rparr>) obj state, True), c\<lparr>co_world := w\<rparr>)))"

definition refresh :: "'w Controller \<Rightarrow> Sandbox \<Rightarrow> (cerr + Sandbox) \<times> 'w Controller" where
  "refresh c obj =
     (case read c obj of (Inl e, c') \<Rightarrow> (Inl e, c') | (Inr (out, held), c') \<Rightarrow> (Inr out, c'))"

section \<open>Deadlines\<close>

definition lifecycle_field :: "Duration \<Rightarrow> cerr + duration" where
  "lifecycle_field v =
     (if v = [] then Inr 0
      else case ParseDuration v of
             Inl _ \<Rightarrow> Inl ErrInvalidDuration
           | Inr (d, never) \<Rightarrow> Inr (if never then 0 else d))"

definition lifecycleOf :: "Lifecycle \<Rightarrow> cerr + DriverLifecycle" where
  "lifecycleOf l =
     rbind (lifecycle_field (lc_AutoStop l)) (\<lambda>autoStop.
     rbind (lifecycle_field (lc_TTL l)) (\<lambda>ttl.
     rbind (lifecycle_field (lc_AutoDelete l)) (\<lambda>autoDelete.
       Inr \<lparr>dl_TTL = ttl, dl_AutoStop = autoStop, dl_AutoDelete = autoDelete\<rparr>)))"

definition lifecycleFor :: "'w Controller \<Rightarrow> Sandbox \<Rightarrow> cerr + DriverLifecycle" where
  "lifecycleFor c obj =
     rbind (lifecycleOf (sp_Lifecycle (sb_Spec obj))) (\<lambda>lifecycle.
       if sp_Lifecycle (sb_Spec obj) = \<lparr>lc_AutoStop = [], lc_TTL = [], lc_AutoDelete = []\<rparr>
       then Inr (co_lifecycle c) else Inr lifecycle)"

section \<open>The owner's count\<close>

definition countLocked :: "'w Controller \<Rightarrow> string \<Rightarrow> string \<Rightarrow> int" where
  "countLocked c owner except =
     int (length (filter (\<lambda>(vid, v). vid \<noteq> except \<and> st_Owner (sb_Status v) = owner \<and> holdsSlot (st_Phase (sb_Status v)))
       (co_objects c)))"

section \<open>What a write and a read leave alone\<close>

text \<open>What no operation below changes: the collaborators and the configuration.\<close>

definition config :: "'w Controller \<Rightarrow> 'w Store \<times> string \<times> (string \<times> Environment) list \<times> (string \<times> 'w Driver) list
    \<times> ('w \<Rightarrow> gotime) \<times> DriverLifecycle \<times> PoolSpec \<times> int \<times> int \<times> (Sandbox \<Rightarrow> State \<Rightarrow> 'w \<Rightarrow> string) \<times> 'w Tokens option
    \<times> 'w Volumes option \<times> (string \<times> string) list \<times> (string \<Rightarrow> 'w \<Rightarrow> string \<times> 'w) \<times> 'w GatewayHub option" where
  "config c = (co_store c, co_environment c, co_environments c, co_drivers c, co_clock c, co_lifecycle c, co_pool c,
     co_capacity c, co_maxPreemptions c, co_rising c, co_tokens c, co_volumes c, co_moving c, co_newID c, co_egress c)"

lemma config_fields:
  assumes "config c' = config c"
  shows "co_store c' = co_store c" "co_environment c' = co_environment c" "co_environments c' = co_environments c"
    "co_drivers c' = co_drivers c" "co_clock c' = co_clock c" "co_pool c' = co_pool c" "co_capacity c' = co_capacity c"
    "co_maxPreemptions c' = co_maxPreemptions c" "co_tokens c' = co_tokens c" "co_volumes c' = co_volumes c" "co_moving c' = co_moving c"
    "co_newID c' = co_newID c" "co_egress c' = co_egress c"
  using assms by (auto simp: config_def)

lemma config_lookups:
  assumes "config c' = config c"
  shows "environmentOf c' = environmentOf c" "driverFor c' = driverFor c" "poolOf c' = poolOf c"
    "capacityOf c' = capacityOf c" "queuedOn c' = queuedOn c" "admits c' = admits c"
  using config_fields [OF assms]
  by (auto simp: environmentOf_def driverFor_def poolOf_def capacityOf_def queuedOn_def admits_def fun_eq_iff
      split: option.splits)

lemma update_same: "map_of m k = Some p \<Longrightarrow> AList.update k p m = m"
  by (induction m) auto

lemma delete_back: "map_of m k = None \<Longrightarrow> AList.delete k (AList.update k v m) = m"
  by (induction m) (auto simp: map_of_eq_None_iff split: if_splits)

lemma persist_config [simp]: "config (snd (persist c obj m)) = config c"
  by (auto simp: persist_def Let_def config_def put_back_def wakeScheduler_def split: prod.splits option.splits)

lemma persist_nil: "persist c obj m = (None, c') \<Longrightarrow> co_objects c' = AList.update (st_ID (sb_Status obj)) obj (co_objects c)"
  by (auto simp: persist_def Let_def wakeScheduler_def split: prod.splits option.splits if_splits)

lemma persist_err: "persist c obj m = (Some e, c') \<Longrightarrow> co_objects c' = co_objects c"
  by (auto simp: persist_def Let_def put_back_def update_same delete_back split: prod.splits option.splits)

lemma persist_realizing [simp]: "co_realizing (snd (persist c obj m)) = co_realizing c"
  by (auto simp: persist_def Let_def put_back_def wakeScheduler_def split: prod.splits option.splits)

lemma read_frame: "read c obj = (r, c') \<Longrightarrow> \<exists>w. c' = c\<lparr>co_world := w\<rparr>"
  by (auto simp: read_def Let_def split: if_splits sum.splits prod.splits intro: exI [of _ "co_world c"])

lemma refresh_frame: "refresh c obj = (r, c') \<Longrightarrow> \<exists>w. c' = c\<lparr>co_world := w\<rparr>"
  by (auto simp: refresh_def split: prod.splits sum.splits dest!: read_frame)

lemma config_world [simp]: "config (c\<lparr>co_world := w\<rparr>) = config c" "config (c\<lparr>co_objects := m\<rparr>) = config c"
  "config (c\<lparr>co_wake := b\<rparr>) = config c" "config (c\<lparr>co_realizing := r\<rparr>) = config c"
  by (simp_all add: config_def)

text \<open>What a read of a sandbox never changes: its identity, its place in the tree, its spec, its
  arrival, its preemptions and the size it was raised to.\<close>

definition identity :: "Sandbox \<Rightarrow> SandboxSpec \<times> Metadata \<times> string \<times> string \<times> string \<times> string \<times> gotime \<times> int \<times> Size" where
  "identity obj = (sb_Spec obj, sb_Metadata obj, st_ID (sb_Status obj), st_Owner (sb_Status obj),
     st_Environment (sb_Status obj), st_Parent (sb_Status obj), st_CreatedAt (sb_Status obj),
     st_Preemptions (sb_Status obj), st_Resources (sb_Status obj))"

lemma identity_with [simp]:
  "identity (with_phase p obj) = identity obj" "identity (with_reason r obj) = identity obj"
  "identity (with_condition cond obj) = identity obj"
  by (simp_all add: identity_def with_phase_def with_reason_def with_condition_def)

lemma identity_present [simp]: "identity (present c obj state) = identity obj"
  by (simp add: identity_def present_def observe_def Let_def)

lemma refresh_identity: "refresh c obj = (Inr out, c') \<Longrightarrow> identity out = identity obj"
  by (auto simp: refresh_def read_def Let_def split: prod.splits sum.splits if_splits)

section \<open>The objects\<close>

text \<open>The map of objects is a map, and each object is held under its own id, which \<^verbatim>\<open>Open\<close> checks of
  the snapshot it restores.\<close>

definition objects_ok :: "(string \<times> Sandbox) list \<Rightarrow> bool" where
  "objects_ok m \<longleftrightarrow> map_ok m \<and> list_all (\<lambda>(k, obj). st_ID (sb_Status obj) = k) m"

lemma list_all_update: "list_all P m \<Longrightarrow> P (k, v) \<Longrightarrow> list_all P (AList.update k v m)"
  by (induction m) auto

lemma objects_ok_update: "objects_ok m \<Longrightarrow> objects_ok (AList.update (st_ID (sb_Status obj)) obj m)"
  by (simp add: objects_ok_def map_ok_update list_all_update)

lemma persist_objects_ok: "objects_ok (co_objects c) \<Longrightarrow> objects_ok (co_objects (snd (persist c obj m)))"
  using persist_nil [of c obj m] persist_err [of c obj m]
  by (cases "persist c obj m"; cases "fst (persist c obj m)") (auto simp: objects_ok_update)

text \<open>A store that does not touch what \<open>obs\<close> sees of the world.\<close>

definition store_keeps :: "('w \<Rightarrow> 'o) \<Rightarrow> 'w Store \<Rightarrow> bool" where
  "store_keeps obs s \<longleftrightarrow>
     (\<forall>m w. obs (snd (so_Save s m w)) = obs w)
     \<and> (\<forall>d. so_Durable s = Some d \<longrightarrow>
          (\<forall>obj mutation w. obs (snd (du_Write d obj mutation w)) = obs w)
          \<and> (\<forall>vid mutation w. obs (snd (du_Remove d vid mutation w)) = obs w))"

lemma persist_obs:
  assumes "store_keeps obs (co_store c)"
  shows "obs (co_world (snd (persist c obj m))) = obs (co_world c)"
proof (cases "so_Durable (co_store c)")
  case None
  obtain e w where "so_Save (co_store c) (AList.update (st_ID (sb_Status obj)) obj (co_objects c)) (co_world c) = (e, w)"
    by (cases "so_Save (co_store c) (AList.update (st_ID (sb_Status obj)) obj (co_objects c)) (co_world c)")
  moreover from this have "obs w = obs (co_world c)" using assms unfolding store_keeps_def by (metis snd_conv)
  ultimately show ?thesis
    using None by (cases e) (auto simp: persist_def Let_def put_back_def wakeScheduler_def split: option.splits)
next
  case (Some d)
  obtain e w where "du_Write d obj m (co_world c) = (e, w)" by (cases "du_Write d obj m (co_world c)")
  moreover from this have "obs w = obs (co_world c)" using assms Some unfolding store_keeps_def by (metis snd_conv)
  ultimately show ?thesis
    using Some by (cases e) (auto simp: persist_def Let_def put_back_def wakeScheduler_def split: option.splits)
qed

lemma forget_obs:
  assumes "store_keeps obs (co_store c)"
  shows "obs (co_world (snd (forget c vid m))) = obs (co_world c)"
proof (cases "so_Durable (co_store c)")
  case None
  obtain e w where "so_Save (co_store c) (AList.delete vid (co_objects c)) (co_world c) = (e, w)"
    by (cases "so_Save (co_store c) (AList.delete vid (co_objects c)) (co_world c)")
  moreover from this have "obs w = obs (co_world c)" using assms unfolding store_keeps_def by (metis snd_conv)
  ultimately show ?thesis
    using None by (cases e) (auto simp: forget_def Let_def put_back_def wakeScheduler_def split: option.splits)
next
  case (Some d)
  obtain e w where "du_Remove d vid m (co_world c) = (e, w)" by (cases "du_Remove d vid m (co_world c)")
  moreover from this have "obs w = obs (co_world c)" using assms Some unfolding store_keeps_def by (metis snd_conv)
  ultimately show ?thesis
    using Some by (cases e) (auto simp: forget_def Let_def put_back_def wakeScheduler_def split: option.splits)
qed

text \<open>A controller of one queued environment over a world, for the witnesses.\<close>

definition sample_over :: "'w \<Rightarrow> Capacity \<Rightarrow> Sandbox list \<Rightarrow> 'w Controller" where
  "sample_over world cap objs =
     \<lparr>co_store = sample_accepting, co_environment = ''desk'',
      co_environments = [(''desk'', sample_environment
        \<lparr>ev_Spec := (ev_Spec sample_environment)\<lparr>en_Capacity := cap,
            en_Scheduling := \<lparr>ds_Mode = SchedulingQueued, ds_Queues = [], ds_DefaultQueue = []\<rparr>\<rparr>,
         ev_Status := (ev_Status sample_environment)\<lparr>et_Phase := EnvironmentReady\<rparr>\<rparr>)],
      co_drivers = [(''desk'', sample_driver)], co_objects = map (\<lambda>obj. (st_ID (sb_Status obj), obj)) objs,
      co_clock = (\<lambda>_. 0), co_lifecycle = \<lparr>dl_TTL = 0, dl_AutoStop = 0, dl_AutoDelete = 0\<rparr>, co_pool = PoolSpec0,
      co_capacity = 0, co_maxPreemptions = 3, co_realizing = [], co_wake = False, co_rising = (\<lambda>_ _ _. []),
      co_wall = (\<lambda>_. 0), co_newID = (\<lambda>p w. (p @ ''new0000000000'', w)), co_tokens = None, co_moving = [],
      co_touchInterval = 60 * Second, co_touched = [], co_recovers = False, co_lostGrace = 600 * Second,
      co_recoveryAttempts = 5, co_lost = [], co_attempts = [], co_retry = [], co_poolInFlight = 2,
      co_poolGrace = 300 * Second, co_volumes = None, co_volumeObjects = [], co_filling = [], co_volumeWake = False,
      co_egress = None, co_gateway = \<lparr>ga_Proxy = [], ga_Reverse = []\<rparr>, co_gatewayGrace = 0, co_opened = 0,
      co_mintCredential = (\<lambda>w. (Inr ''credential'', w)), co_mintPlaceholder = (\<lambda>w. (''placeholder'', w)),
      co_isPlaceholder = (\<lambda>_. True), co_secrets = None, co_secretUses = None, co_secretObjects = [],
      co_environmentStore = None, co_newDriver = None, co_releaseDriver = None, co_answered = [], co_offline = 120 * Second,
      co_registrations = None, co_retention = None, co_restarts = [], co_restarted = [],
      co_world = world\<rparr>"

definition sample_controller :: "Capacity \<Rightarrow> Sandbox list \<Rightarrow> unit Controller" where
  "sample_controller = sample_over ()"

end
