(* ===== verification/Capacity.thy ===== *)
theory Capacity
  imports Controller_State Quantity
begin

text \<open>
  What an environment's sandboxes hold of it and whether one more fits (\<^verbatim>\<open>controller/capacity.go\<close>,
  \<^verbatim>\<open>pool.go\<close>, \<^verbatim>\<open>autosize.go\<close>). Amounts are int64 in thousandths and every sum of them wraps as Go's
  does. The sum over desired state does not depend on the order the map is read in; a create that does
  not fit deletes nothing, and one that fits gives up the fewest and oldest pool entries. The theorem
  \<open>makeRoom_overflow_fits\<close> is a request whose sum with what is held wraps below the ceiling.
\<close>

section \<open>Amounts\<close>

record usage =
  u_cpu :: int
  u_memory :: int
  u_disk :: int
  u_sandboxes :: int

definition usage0 :: usage where
  "usage0 = \<lparr>u_cpu = 0, u_memory = 0, u_disk = 0, u_sandboxes = 0\<rparr>"

definition plus_usage :: "usage \<Rightarrow> usage \<Rightarrow> usage" where
  "plus_usage u v =
     \<lparr>u_cpu = wrap64 (u_cpu u + u_cpu v), u_memory = wrap64 (u_memory u + u_memory v),
      u_disk = wrap64 (u_disk u + u_disk v), u_sandboxes = wrap64 (u_sandboxes u + u_sandboxes v)\<rparr>"

text \<open>One field of the loops of \<^verbatim>\<open>requestOf\<close> and \<^verbatim>\<open>ceilingOf\<close>: an empty quantity keeps what was there.\<close>

definition amount :: "int \<Rightarrow> Quantity \<Rightarrow> cerr + int" where
  "amount unset q =
     (if q = [] then Inr unset
      else case ParseQuantity q of Inl _ \<Rightarrow> Inl ErrInvalidQuantity | Inr n \<Rightarrow> Inr n)"

definition requestOf :: "Resources \<Rightarrow> cerr + usage" where
  "requestOf r =
     rbind (amount 0 (rs_CPU r)) (\<lambda>cpu.
     rbind (amount 0 (rs_Memory r)) (\<lambda>memory.
     rbind (amount 0 (rs_Disk r)) (\<lambda>disk.
       Inr \<lparr>u_cpu = cpu, u_memory = memory, u_disk = disk, u_sandboxes = 1\<rparr>)))"

definition milliOf :: "string \<Rightarrow> int" where
  "milliOf q = (if q = [] then 0 else case ParseQuantity q of Inl _ \<Rightarrow> 0 | Inr milli \<Rightarrow> milli)"

definition bytesOf :: "string \<Rightarrow> int" where
  "bytesOf q = go_quot (milliOf q) 1000"

definition heldResources :: "Sandbox \<Rightarrow> Resources" where
  "heldResources obj =
     (let r = sp_Resources (sb_Spec obj); held = sz_Memory (st_Resources (sb_Status obj))
      in if held \<noteq> [] \<and> bytesOf held > bytesOf (rs_Memory r) then r\<lparr>rs_Memory := held\<rparr> else r)"

definition askOf :: "Sandbox \<Rightarrow> cerr + usage" where
  "askOf obj =
     rbind (requestOf (heldResources obj)) (\<lambda>request.
       if requeued obj then Inr (request\<lparr>u_disk := 0\<rparr>) else Inr request)"

section \<open>What the sandboxes of an environment hold\<close>

definition add_held :: "Sandbox \<Rightarrow> usage \<Rightarrow> usage \<Rightarrow> usage" where
  "add_held obj request tot =
     (let t = (if holdsCompute (st_Phase (sb_Status obj))
               then tot\<lparr>u_cpu := wrap64 (u_cpu tot + u_cpu request),
                          u_memory := wrap64 (u_memory tot + u_memory request),
                          u_sandboxes := wrap64 (u_sandboxes tot + 1)\<rparr>
               else tot)
      in if holdsDisk obj then t\<lparr>u_disk := wrap64 (u_disk t + u_disk request)\<rparr> else t)"

fun usage_over :: "string \<Rightarrow> (string \<times> Sandbox) list \<Rightarrow> usage \<Rightarrow> cerr + usage" where
  "usage_over environment [] tot = Inr tot"
| "usage_over environment ((_, obj) # objects) tot =
     (if st_Environment (sb_Status obj) \<noteq> environment then usage_over environment objects tot
      else rbind (requestOf (heldResources obj)) (\<lambda>request.
             usage_over environment objects (add_held obj request tot)))"

definition usageOn :: "'w Controller \<Rightarrow> string \<Rightarrow> cerr + usage" where
  "usageOn c environment = usage_over environment (co_objects c) usage0"

section \<open>Ceilings\<close>

record ceiling =
  cl_cpu :: int
  cl_memory :: int
  cl_disk :: int
  cl_sandboxes :: int

definition capacity_ceilingOf :: "Capacity \<Rightarrow> cerr + ceiling" where
  "capacity_ceilingOf capacity =
     (if ca_Auto capacity then Inr \<lparr>cl_cpu = -1, cl_memory = -1, cl_disk = -1, cl_sandboxes = -1\<rparr>
      else rbind (amount (-1) (ca_CPU capacity)) (\<lambda>cpu.
           rbind (amount (-1) (ca_Memory capacity)) (\<lambda>memory.
           rbind (amount (-1) (ca_Disk capacity)) (\<lambda>disk.
             Inr \<lparr>cl_cpu = cpu, cl_memory = memory, cl_disk = disk,
                  cl_sandboxes = (if ca_Sandboxes capacity > 0 then ca_Sandboxes capacity else -1)\<rparr>))))"

definition ceiling_holds :: "ceiling \<Rightarrow> usage \<Rightarrow> bool" where
  "ceiling_holds c u \<longleftrightarrow>
     (cl_cpu c < 0 \<or> u_cpu u \<le> cl_cpu c) \<and> (cl_memory c < 0 \<or> u_memory u \<le> cl_memory c) \<and>
     (cl_disk c < 0 \<or> u_disk u \<le> cl_disk c) \<and> (cl_sandboxes c < 0 \<or> u_sandboxes u \<le> cl_sandboxes c)"

section \<open>Making room\<close>

definition entries_hold :: "usage \<Rightarrow> int \<Rightarrow> usage" where
  "entries_hold entry n =
     \<lparr>u_cpu = wrap64 (u_cpu entry * n), u_memory = wrap64 (u_memory entry * n),
      u_disk = wrap64 (u_disk entry * n), u_sandboxes = n\<rparr>"

text \<open>The loop that counts the entries to give up, as it is written: it may not end. \<open>evictions\<close> is the
  same loop with a bound it does not reach once the sandbox fits with every entry gone, which is checked
  before the loop is entered.\<close>

partial_function (option) evict_loop :: "(int \<Rightarrow> bool) \<Rightarrow> int \<Rightarrow> int option" where
  "evict_loop fits evict = (if fits evict then Some evict else evict_loop fits (evict + 1))"

function evictions :: "(int \<Rightarrow> bool) \<Rightarrow> int \<Rightarrow> int \<Rightarrow> int" where
  "evictions fits bound evict = (if fits evict \<or> bound \<le> evict then evict else evictions fits bound (evict + 1))"
  by auto
termination
  by (relation "measure (\<lambda>(fits, bound, evict). nat (bound - evict))") auto

declare evictions.simps [simp del] evict_loop.simps [simp del]

fun freeEntries :: "'w Driver \<Rightarrow> State list \<Rightarrow> 'w \<Rightarrow> cerr option \<times> 'w" where
  "freeEntries d [] w = (None, w)"
| "freeEntries d (oldest # entries) w =
     (case dr_Delete d (dt_ID oldest) w of
        (None, w') \<Rightarrow> freeEntries d entries w'
      | (Some e, w') \<Rightarrow> if errors_Is e DriverNotFound then freeEntries d entries w' else (Some e, w'))"

definition makeRoom :: "'w Controller \<Rightarrow> string \<Rightarrow> Sandbox \<Rightarrow> State list \<Rightarrow> (cerr + bool) \<times> 'w Controller" where
  "makeRoom c environment obj entries =
     (case rbind (capacity_ceilingOf (capacityOf c environment)) (\<lambda>capacity.
           rbind (usageOn c environment) (\<lambda>used.
           rbind (askOf obj) (\<lambda>request.
           rbind (requestOf (pl_Resources (fst (poolOf c environment)))) (\<lambda>entry.
             Inr (capacity, plus_usage used request, entry))))) of
        Inl e \<Rightarrow> (Inl e, c)
      | Inr (capacity, tot, entry) \<Rightarrow>
          if \<not> ceiling_holds capacity tot then (Inr False, c)
          else let n = int (length entries);
                   fits = (\<lambda>evict. ceiling_holds capacity (plus_usage tot (entries_hold entry (n - evict))));
                   evict = evictions fits n 0
               in if evict = 0 then (Inr True, c)
                  else case driverFor c environment of
                         Inl e \<Rightarrow> (Inl e, c)
                       | Inr d \<Rightarrow>
                           (case freeEntries d (take (nat evict) entries) (co_world c) of
                              (Some e, w) \<Rightarrow> (Inl e, c\<lparr>co_world := w\<rparr>)
                            | (None, w) \<Rightarrow> (Inr True, c\<lparr>co_world := w\<rparr>)))"

section \<open>The pool's entries\<close>

definition poolEntries :: "'w Controller \<Rightarrow> string \<Rightarrow> State list \<times> 'w Controller" where
  "poolEntries c environment =
     (case driverFor c environment of
        Inl _ \<Rightarrow> ([], c)
      | Inr d \<Rightarrow>
          if pl_Size (fst (poolOf c environment)) \<le> 0 \<or> \<not> cp_Pool (dr_Capabilities d) then ([], c)
          else case dr_List d (Filter0\<lparr>fi_Pool := Some True\<rparr>) (co_world c) of
                 (Inl _, w) \<Rightarrow> ([], c\<lparr>co_world := w\<rparr>)
               | (Inr entries, w) \<Rightarrow>
                   (sort_func (\<lambda>a b. go_compare (dt_CreatedAt a) (dt_CreatedAt b)) entries, c\<lparr>co_world := w\<rparr>))"

section \<open>The sum over desired state\<close>

text \<open>What one sandbox contributes to each amount of its environment, as an unbounded integer.\<close>

definition request_or0 :: "Sandbox \<Rightarrow> usage" where
  "request_or0 obj = (case requestOf (heldResources obj) of Inl _ \<Rightarrow> usage0 | Inr u \<Rightarrow> u)"

definition compute_held :: "(usage \<Rightarrow> int) \<Rightarrow> Sandbox \<Rightarrow> int" where
  "compute_held f obj = (if holdsCompute (st_Phase (sb_Status obj)) then f (request_or0 obj) else 0)"

definition disk_held :: "Sandbox \<Rightarrow> int" where
  "disk_held obj = (if holdsDisk obj then u_disk (request_or0 obj) else 0)"

definition slot_held :: "Sandbox \<Rightarrow> int" where
  "slot_held obj = (if holdsCompute (st_Phase (sb_Status obj)) then 1 else 0)"

definition sum_on :: "string \<Rightarrow> (Sandbox \<Rightarrow> int) \<Rightarrow> (string \<times> Sandbox) list \<Rightarrow> int" where
  "sum_on environment f m =
     sum_list (map (\<lambda>(k, obj). if st_Environment (sb_Status obj) = environment then f obj else 0) m)"

definition sums_on :: "string \<Rightarrow> (string \<times> Sandbox) list \<Rightarrow> usage" where
  "sums_on environment m =
     \<lparr>u_cpu = sum_on environment (compute_held u_cpu) m, u_memory = sum_on environment (compute_held u_memory) m,
      u_disk = sum_on environment disk_held m, u_sandboxes = sum_on environment slot_held m\<rparr>"

definition wrapped :: "usage \<Rightarrow> usage" where
  "wrapped u = \<lparr>u_cpu = wrap64 (u_cpu u), u_memory = wrap64 (u_memory u), u_disk = wrap64 (u_disk u),
     u_sandboxes = wrap64 (u_sandboxes u)\<rparr>"

definition plus_exact :: "usage \<Rightarrow> usage \<Rightarrow> usage" where
  "plus_exact u v = \<lparr>u_cpu = u_cpu u + u_cpu v, u_memory = u_memory u + u_memory v, u_disk = u_disk u + u_disk v,
     u_sandboxes = u_sandboxes u + u_sandboxes v\<rparr>"

definition readable_on :: "string \<Rightarrow> (string \<times> Sandbox) list \<Rightarrow> bool" where
  "readable_on environment m =
     list_all (\<lambda>(k, obj). st_Environment (sb_Status obj) = environment \<longrightarrow> (\<exists>u. requestOf (heldResources obj) = Inr u)) m"

lemma requestOf_err: "requestOf r = Inl e \<Longrightarrow> e = ErrInvalidQuantity"
  by (auto simp: requestOf_def amount_def rbind_def split: sum.splits if_splits)

lemma usage_eqI: "u_cpu u = u_cpu v \<Longrightarrow> u_memory u = u_memory v \<Longrightarrow> u_disk u = u_disk v \<Longrightarrow> u_sandboxes u = u_sandboxes v
    \<Longrightarrow> u = (v :: usage)"
  by simp

lemma add_held_wrapped:
  assumes "requestOf (heldResources obj) = Inr r"
  shows "add_held obj r (wrapped t)
    = wrapped (plus_exact t \<lparr>u_cpu = compute_held u_cpu obj, u_memory = compute_held u_memory obj, u_disk = disk_held obj,
        u_sandboxes = slot_held obj\<rparr>)"
  using assms
  by (intro usage_eqI) (simp_all add: add_held_def Let_def wrapped_def plus_exact_def compute_held_def disk_held_def
      slot_held_def request_or0_def wrap64_add_left)

lemma usage_over_eq:
  "usage_over environment m (wrapped t)
   = (if readable_on environment m then Inr (wrapped (plus_exact t (sums_on environment m))) else Inl ErrInvalidQuantity)"
proof (induction m arbitrary: t)
  case Nil
  then show ?case by (simp add: readable_on_def sums_on_def sum_on_def plus_exact_def wrapped_def)
next
  case (Cons x m)
  obtain k obj where x: "x = (k, obj)" by (cases x)
  show ?case
  proof (cases "st_Environment (sb_Status obj) = environment")
    case False
    with Cons x show ?thesis by (simp add: readable_on_def sums_on_def sum_on_def)
  next
    case True
    show ?thesis
    proof (cases "requestOf (heldResources obj)")
      case (Inl e)
      with True x show ?thesis using requestOf_err [OF Inl] by (simp add: readable_on_def)
    next
      case (Inr r)
      with True x Cons.IH show ?thesis
        by (simp add: add_held_wrapped readable_on_def sums_on_def sum_on_def plus_exact_def add.assoc)
    qed
  qed
qed

lemma wrapped_usage0 [simp]: "wrapped usage0 = usage0"
  by (simp add: wrapped_def usage0_def)

lemma usageOn_eq:
  "usageOn c environment
   = (if readable_on environment (co_objects c) then Inr (wrapped (sums_on environment (co_objects c)))
      else Inl ErrInvalidQuantity)"
  using usage_over_eq [of environment "co_objects c" usage0]
  by (simp add: usageOn_def) (simp add: plus_exact_def usage0_def sums_on_def)

lemma sum_list_perm: "mset m = mset m' \<Longrightarrow> sum_list (map g m) = (sum_list (map g m') :: int)"
  by (simp flip: sum_mset_sum_list)

lemma sum_on_perm: "mset m = mset m' \<Longrightarrow> sum_on environment f m = sum_on environment f m'"
  unfolding sum_on_def by (rule sum_list_perm)

lemma readable_on_perm: "mset m = mset m' \<Longrightarrow> readable_on environment m = readable_on environment m'"
  unfolding readable_on_def list_all_iff by (simp flip: set_mset_mset)

text \<open>What the sandboxes of an environment hold is one answer whatever order the map of objects is
  iterated in, an error included: the sum of what each holds, modulo 2 to the 64th.\<close>

theorem usageOn_map_order:
  assumes "mset (co_objects c) = mset (co_objects c')"
  shows "usageOn c environment = usageOn c' environment"
  using sum_on_perm [OF assms] readable_on_perm [OF assms] by (simp add: usageOn_eq sums_on_def)

section \<open>Giving up entries\<close>

lemma evictions_props:
  assumes "fits bound" and "evict \<le> bound"
  shows "evict \<le> evictions fits bound evict \<and> evictions fits bound evict \<le> bound \<and> fits (evictions fits bound evict)
    \<and> (\<forall>j. evict \<le> j \<and> j < evictions fits bound evict \<longrightarrow> \<not> fits j)"
  using assms
proof (induction fits bound evict rule: evictions.induct)
  case (1 fits bound evict)
  show ?case
  proof (cases "fits evict \<or> bound \<le> evict")
    case True
    with 1 show ?thesis by (auto simp: evictions.simps [of fits bound evict])
  next
    case False
    then have "evictions fits bound evict = evictions fits bound (evict + 1)"
      by (simp add: evictions.simps [of fits bound evict])
    moreover have "\<not> fits j" if "evict \<le> j" "j < evict + 1" for j
      using that False by (metis antisym zle_add1_eq_le)
    ultimately show ?thesis using 1 False by (smt (verit))
  qed
qed

text \<open>The loop that counts the entries to give up ends, and what it returns is the bounded loop the
  model uses: the check before it guarantees that it stops at the latest when no entry is left.\<close>

theorem evict_loop_returns:
  assumes "fits bound" and "evict \<le> bound"
  shows "evict_loop fits evict = Some (evictions fits bound evict)"
  using assms
proof (induction fits bound evict rule: evictions.induct)
  case (1 fits bound evict)
  then show ?case
    by (cases "fits evict \<or> bound \<le> evict")
      (auto simp: evictions.simps [of fits bound evict] evict_loop.simps [of fits evict])
qed

lemma entries_hold_0: "entries_hold entry 0 = usage0"
  by (simp add: entries_hold_def usage0_def)

lemma plus_usage_usage0: "plus_usage (plus_usage a b) usage0 = plus_usage a b"
  using wrap64_add_left [of _ 0] by (simp add: plus_usage_def usage0_def)

text \<open>Whether the sandbox fits beside what is held and \<open>n\<close> entries of the pool, as the code computes it.\<close>

definition fits_with :: "'w Controller \<Rightarrow> string \<Rightarrow> Sandbox \<Rightarrow> int \<Rightarrow> bool" where
  "fits_with c environment obj n =
     (case rbind (capacity_ceilingOf (capacityOf c environment)) (\<lambda>capacity.
           rbind (usageOn c environment) (\<lambda>used.
           rbind (askOf obj) (\<lambda>request.
           rbind (requestOf (pl_Resources (fst (poolOf c environment)))) (\<lambda>entry.
             Inr (ceiling_holds capacity (plus_usage (plus_usage used request) (entries_hold entry n))))))) of
        Inl _ \<Rightarrow> False
      | Inr b \<Rightarrow> b)"

text \<open>C23: where a sandbox is told it fits, it fits beside the pool entries that are left; the entries
  given up are the oldest, each was deleted by its driver or was already gone, and one fewer would not
  have been enough; and where it does not fit, no driver was called at all.\<close>

theorem makeRoom_gives_up_fewest:
  assumes "makeRoom c environment obj entries = (Inr fits, c')"
  shows "fits = fits_with c environment obj 0 \<and> (\<not> fits \<longrightarrow> c' = c)
    \<and> (fits \<longrightarrow> (\<exists>k \<le> length entries.
          fits_with c environment obj (int (length entries - k))
          \<and> (\<forall>j < k. \<not> fits_with c environment obj (int (length entries - j)))
          \<and> (k = 0 \<and> c' = c
             \<or> (\<exists>d w. driverFor c environment = Inr d \<and> freeEntries d (take k entries) (co_world c) = (None, w)
                  \<and> c' = c\<lparr>co_world := w\<rparr>))))"
proof -
  obtain capacity used request entry where
    p: "capacity_ceilingOf (capacityOf c environment) = Inr capacity" "usageOn c environment = Inr used"
      "askOf obj = Inr request" "requestOf (pl_Resources (fst (poolOf c environment))) = Inr entry"
    using assms by (auto simp: makeRoom_def rbind_def split: sum.splits)
  let ?tot = "plus_usage used request" and ?n = "int (length entries)"
  let ?f = "\<lambda>evict. ceiling_holds capacity (plus_usage ?tot (entries_hold entry (?n - evict)))"
  have w: "fits_with c environment obj m \<longleftrightarrow> ceiling_holds capacity (plus_usage ?tot (entries_hold entry m))" for m
    by (simp add: fits_with_def p)
  have w0: "fits_with c environment obj 0 \<longleftrightarrow> ceiling_holds capacity ?tot"
    by (simp add: w entries_hold_0 plus_usage_usage0)
  show ?thesis
  proof (cases "ceiling_holds capacity ?tot")
    case False
    then have "\<not> fits \<and> c' = c" using assms by (auto simp: makeRoom_def p)
    with False w0 show ?thesis by simp
  next
    case True
    let ?k = "evictions ?f ?n 0"
    have k: "0 \<le> ?k" "?k \<le> ?n" "?f ?k" "\<forall>j. 0 \<le> j \<and> j < ?k \<longrightarrow> \<not> ?f j"
      using evictions_props [of ?f ?n 0] True by (auto simp: entries_hold_0 plus_usage_usage0)
    have idx: "int (length entries - j) = ?n - int j" if "int j \<le> ?k" for j
      using that k(2) by simp
    have a: "fits" and b: "nat ?k = 0 \<and> c' = c \<or> (\<exists>d w. driverFor c environment = Inr d
        \<and> freeEntries d (take (nat ?k) entries) (co_world c) = (None, w) \<and> c' = c\<lparr>co_world := w\<rparr>)"
      using assms True by (auto simp: makeRoom_def p Let_def split: if_splits sum.splits prod.splits option.splits)
    have f: "fits_with c environment obj (int (length entries - nat ?k))"
      using idx [of "nat ?k"] k(1,3) by (simp add: w)
    have g: "\<forall>j < nat ?k. \<not> fits_with c environment obj (int (length entries - j))"
      using idx k(4) by (simp add: w)
    have "nat ?k \<le> length entries" using k(2) by simp
    with b f g have "\<exists>k \<le> length entries. fits_with c environment obj (int (length entries - k))
        \<and> (\<forall>j < k. \<not> fits_with c environment obj (int (length entries - j)))
        \<and> (k = 0 \<and> c' = c \<or> (\<exists>d w. driverFor c environment = Inr d
              \<and> freeEntries d (take k entries) (co_world c) = (None, w) \<and> c' = c\<lparr>co_world := w\<rparr>))"
      by (intro exI [of _ "nat ?k"] conjI)
    with a w0 True show ?thesis by simp
  qed
qed

section \<open>When the sum is exact\<close>

definition within_int64 :: "usage \<Rightarrow> bool" where
  "within_int64 u \<longleftrightarrow> is_int64 (u_cpu u) \<and> is_int64 (u_memory u) \<and> is_int64 (u_disk u) \<and> is_int64 (u_sandboxes u)"

lemma plus_usage_wrapped: "plus_usage (wrapped u) v = wrapped (plus_exact u v)"
  by (simp add: plus_usage_def wrapped_def plus_exact_def wrap64_add_left)

lemma wrapped_id: "within_int64 u \<Longrightarrow> wrapped u = u"
  by (simp add: within_int64_def wrapped_def wrap64_id)


definition disk_sandbox :: "string \<Rightarrow> string \<Rightarrow> Quantity \<Rightarrow> Sandbox" where
  "disk_sandbox vid phase q =
     (let s = sample_sandbox vid phase
      in s\<lparr>sb_Spec := (sb_Spec s)\<lparr>sp_Resources := (sp_Resources (sb_Spec s))\<lparr>rs_Disk := q\<rparr>\<rparr>\<rparr>)"

lemma pebi: "ParseQuantity ''4Pi'' = Inr 4503599627370496000" "ParseQuantity ''5Pi'' = Inr 5629499534213120000"
  "ParseQuantity ''1Pi'' = Inr 1125899906842624000"
  by code_simp+

lemmas capacity_eval = makeRoom_def usageOn_def askOf_def requestOf_def amount_def heldResources_def
  capacity_ceilingOf_def capacityOf_def poolOf_def environmentOf_def sample_controller_def sample_over_def disk_sandbox_def
  usage0_def plus_usage_def add_held_def ceiling_holds_def sample_object_defs requeued_def holdsDisk_def holdsCompute_def
  phase_words

text \<open>An environment that declares 4Pi of disk and holds a sandbox of 4Pi is told that one of 5Pi more
  fits: the sum of the two, in thousandths of a byte, wraps below zero.\<close>

theorem makeRoom_overflow_fits:
  "makeRoom (sample_controller (Capacity0\<lparr>ca_Disk := ''4Pi''\<rparr>) [disk_sandbox ''sbx_1'' Running ''4Pi'']) ''desk''
     (disk_sandbox ''sbx_2'' Pending ''5Pi'') []
   = (Inr True, sample_controller (Capacity0\<lparr>ca_Disk := ''4Pi''\<rparr>) [disk_sandbox ''sbx_1'' Running ''4Pi''])
   \<and> sums_on ''desk'' (co_objects (sample_controller (Capacity0\<lparr>ca_Disk := ''4Pi''\<rparr>) [disk_sandbox ''sbx_1'' Running ''4Pi'']))
     = \<lparr>u_cpu = 0, u_memory = 0, u_disk = 4503599627370496000, u_sandboxes = 1\<rparr>"
  by (simp add: capacity_eval Capacity0_def pebi Let_def wrap64_def evictions.simps sums_on_def sum_on_def compute_held_def
      disk_held_def slot_held_def request_or0_def PoolSpec0_def entries_hold_def)

subsection \<open>Witnesses\<close>

theorem usageOn_map_order_witness:
  "usageOn (sample_controller Capacity0 [disk_sandbox ''sbx_1'' Running ''4Pi'', disk_sandbox ''sbx_2'' Stopped ''1Pi'']) ''desk''
   = usageOn (sample_controller Capacity0 [disk_sandbox ''sbx_2'' Stopped ''1Pi'', disk_sandbox ''sbx_1'' Running ''4Pi'']) ''desk''"
  by (rule usageOn_map_order) (simp add: sample_controller_def sample_over_def)

theorem evict_loop_returns_witness: "evict_loop (\<lambda>k. 2 \<le> k) 0 = Some 2"
proof -
  have "evictions (\<lambda>k. 2 \<le> k) 3 0 = 2"
    by (simp add: evictions.simps)
  with evict_loop_returns [of "\<lambda>k. 2 \<le> k" 3 0] show ?thesis by simp
qed

definition two_slots :: "unit Controller" where
  "two_slots = sample_controller (Capacity0\<lparr>ca_Sandboxes := 2\<rparr>) [sample_sandbox ''sbx_1'' Running]"

definition two_entries :: "State list" where
  "two_entries = [sample_state ''e1'' Running, sample_state ''e2'' Running]"

lemma two_slots_makeRoom:
  "makeRoom two_slots ''desk'' (sample_sandbox ''sbx_2'' Pending) two_entries = (Inr True, two_slots)"
  by (simp add: two_slots_def two_entries_def capacity_eval Capacity0_def Let_def wrap64_def evictions.simps entries_hold_def driverFor_def)

theorem makeRoom_gives_up_fewest_witness:
  "\<exists>k \<le> length two_entries. fits_with two_slots ''desk'' (sample_sandbox ''sbx_2'' Pending) (int (length two_entries - k))
     \<and> (\<forall>j < k. \<not> fits_with two_slots ''desk'' (sample_sandbox ''sbx_2'' Pending) (int (length two_entries - j)))"
  using makeRoom_gives_up_fewest [OF two_slots_makeRoom] by blast


end
