(* ===== verification/Scheduler.thy ===== *)
theory Scheduler
  imports Capacity Spawn_Ledger
begin

text \<open>
  Placement, the queues and preemption (\<^verbatim>\<open>controller/scheduler.go\<close>, \<^verbatim>\<open>controller/preempt.go\<close>, and the
  credit of \<^verbatim>\<open>controller/spawn.go\<close>). Everything but \<^verbatim>\<open>realize\<close> runs under the controller's lock.
  \<^verbatim>\<open>realize\<close>, the driver's half of a create, releases it, so what it leaves may also be the work of
  other requests: it is the parameter \<open>rz\<close> of the pass, a function from the controller to what it finds
  when the call returns.
\<close>

section \<open>The spawn budget of a create that did not complete\<close>

definition projectSpawnUsed :: "'w Controller \<Rightarrow> string \<Rightarrow> cerr option \<times> 'w Controller" where
  "projectSpawnUsed c parentID =
     (case (map_of (co_objects c) parentID, so_Spawner (co_store c)) of
        (Some obj, Some sp) \<Rightarrow>
          (case sn_SpawnsUsed sp parentID (co_world c) of
             (Inl e, w) \<Rightarrow> (Some e, c\<lparr>co_world := w\<rparr>)
           | (Inr used, w) \<Rightarrow>
               if ss_Used (st_Spawn (sb_Status obj)) = used then (None, c\<lparr>co_world := w\<rparr>)
               else persist (c\<lparr>co_world := w\<rparr>)
                      (obj\<lparr>sb_Status := (sb_Status obj)\<lparr>st_Spawn := (st_Spawn (sb_Status obj))\<lparr>ss_Used := used\<rparr>\<rparr>\<rparr>)
                      MutationStatus)
      | _ \<Rightarrow> (None, c))"

definition credit :: "'w Controller \<Rightarrow> Sandbox option \<Rightarrow> cerr option \<times> 'w Controller" where
  "credit c parent =
     (case (parent, so_Spawner (co_store c)) of
        (Some p, Some sp) \<Rightarrow>
          (case sn_CreditSpawn sp (st_ID (sb_Status p)) (co_world c) of
             (Some e, w) \<Rightarrow> (Some e, c\<lparr>co_world := w\<rparr>)
           | (None, w) \<Rightarrow> projectSpawnUsed (c\<lparr>co_world := w\<rparr>) (st_ID (sb_Status p)))
      | _ \<Rightarrow> (None, c))"

section \<open>The queues\<close>

definition queue_of :: "Sandbox \<Rightarrow> string" where
  "queue_of obj = sc_Queue (sp_Scheduling (sb_Spec obj))"

definition priority_of :: "Sandbox \<Rightarrow> int" where
  "priority_of obj = sc_Priority (sp_Scheduling (sb_Spec obj))"

definition waits_on :: "string \<Rightarrow> Sandbox \<Rightarrow> bool" where
  "waits_on environment obj \<longleftrightarrow> st_Phase (sb_Status obj) = PhaseQueued \<and> st_Environment (sb_Status obj) = environment"

definition waiting :: "'w Controller \<Rightarrow> string \<Rightarrow> string \<Rightarrow> int" where
  "waiting c environment queue =
     int (length (filter (\<lambda>(_, obj). waits_on environment obj \<and> queue_of obj = queue) (co_objects c)))"

definition share_in :: "(string \<times> int) list \<Rightarrow> string \<Rightarrow> int" where
  "share_in share owner = (case map_of share owner of None \<Rightarrow> 0 | Some n \<Rightarrow> n)"

text \<open>One read of the map: the requested cpu of each owner's sandboxes that hold compute, and the waiting
  sandboxes that are kept.\<close>

fun ordered_scan :: "string \<Rightarrow> (Sandbox \<Rightarrow> bool) \<Rightarrow> (string \<times> Sandbox) list \<Rightarrow> (string \<times> int) list \<Rightarrow> Sandbox list
    \<Rightarrow> cerr + ((string \<times> int) list \<times> Sandbox list)" where
  "ordered_scan environment keep [] share out = Inr (share, out)"
| "ordered_scan environment keep ((_, obj) # m) share out =
     (if st_Environment (sb_Status obj) \<noteq> environment then ordered_scan environment keep m share out
      else if st_Phase (sb_Status obj) = PhaseQueued
           then ordered_scan environment keep m share (if keep obj then out @ [obj] else out)
      else if \<not> holdsCompute (st_Phase (sb_Status obj)) then ordered_scan environment keep m share out
      else rbind (requestOf (sp_Resources (sb_Spec obj))) (\<lambda>request.
             ordered_scan environment keep m
               (AList.update (st_Owner (sb_Status obj))
                  (wrap64 (share_in share (st_Owner (sb_Status obj)) + u_cpu request)) share) out))"

definition line_cmp :: "(string \<Rightarrow> int) \<Rightarrow> Sandbox \<Rightarrow> Sandbox \<Rightarrow> int" where
  "line_cmp share a b = cmp_or
     [go_compare (priority_of b) (priority_of a),
      go_compare (share (st_Owner (sb_Status a))) (share (st_Owner (sb_Status b))),
      go_compare (st_CreatedAt (sb_Status a)) (st_CreatedAt (sb_Status b)),
      go_compare (st_ID (sb_Status a)) (st_ID (sb_Status b))]"

definition ordered :: "'w Controller \<Rightarrow> string \<Rightarrow> (Sandbox \<Rightarrow> bool) \<Rightarrow> cerr + Sandbox list" where
  "ordered c environment keep =
     rbind (ordered_scan environment keep (co_objects c) [] []) (\<lambda>(share, out).
       Inr (sort_func (line_cmp (share_in share)) out))"

definition line :: "'w Controller \<Rightarrow> string \<Rightarrow> string \<Rightarrow> cerr + Sandbox list" where
  "line c environment queue = ordered c environment (\<lambda>obj. queue_of obj = queue)"

text \<open>A loop that collects what a slice does not contain yet.\<close>

definition collect_new :: "('a \<Rightarrow> bool) \<Rightarrow> ('a \<Rightarrow> 'b) \<Rightarrow> 'a list \<Rightarrow> 'b list" where
  "collect_new P f xs = foldl (\<lambda>out x. if P x \<and> f x \<notin> set out then out @ [f x] else out) [] xs"

definition queues :: "'w Controller \<Rightarrow> string \<Rightarrow> string list" where
  "queues c environment = sort_ordered (collect_new (waits_on environment) queue_of (map snd (co_objects c)))"

definition environmentsWaiting :: "'w Controller \<Rightarrow> string list" where
  "environmentsWaiting c =
     sort_ordered (collect_new (\<lambda>obj. st_Phase (sb_Status obj) = PhaseQueued \<or> placed obj)
       (\<lambda>obj. st_Environment (sb_Status obj)) (map snd (co_objects c)))"

definition placed_cmp :: "Sandbox \<Rightarrow> Sandbox \<Rightarrow> int" where
  "placed_cmp a b = cmp_or
     [go_compare (st_CreatedAt (sb_Status a)) (st_CreatedAt (sb_Status b)),
      go_compare (st_ID (sb_Status a)) (st_ID (sb_Status b))]"

definition placedOn :: "'w Controller \<Rightarrow> string \<Rightarrow> string list" where
  "placedOn c environment =
     map (\<lambda>obj. st_ID (sb_Status obj)) (sort_func placed_cmp
       (filter (\<lambda>obj. st_Environment (sb_Status obj) = environment \<and> placed obj) (map snd (co_objects c))))"

text \<open>A sandbox's place in its queue, which a read writes into the message of its Scheduled condition.\<close>

definition position_of :: "'w Controller \<Rightarrow> Sandbox \<Rightarrow> (int \<times> int) option" where
  "position_of c obj =
     (case line c (st_Environment (sb_Status obj)) (queue_of obj) of
        Inl _ \<Rightarrow> None
      | Inr l \<Rightarrow>
          Some (case find_index (\<lambda>s. st_ID (sb_Status s) = st_ID (sb_Status obj)) l of
                  None \<Rightarrow> 0
                | Some i \<Rightarrow> int i + 1, int (length l)))"

definition positioned :: "'w Controller \<Rightarrow> Sandbox \<Rightarrow> Sandbox" where
  "positioned c obj =
     (if st_Phase (sb_Status obj) \<noteq> PhaseQueued then obj
      else case position_of c obj of
             None \<Rightarrow> obj
           | Some (pos, len) \<Rightarrow>
               obj\<lparr>sb_Status := (sb_Status obj)\<lparr>st_Conditions := map (\<lambda>cond.
                 if cd_Type cond = ConditionScheduled
                 then cond\<lparr>cd_Message := ''Position '' @ format_int pos @ '' of '' @ format_int len @ '' in the queue ''
                             @ queue_of obj @ ''.''\<rparr>
                 else cond) (st_Conditions (sb_Status obj))\<rparr>\<rparr>)"

section \<open>Step 2 of a create\<close>

datatype placement = placeNow | placeQueue | placeNoCapacity

definition place :: "'w Controller \<Rightarrow> string \<Rightarrow> Sandbox \<Rightarrow> State list \<Rightarrow> (cerr + placement) \<times> 'w Controller" where
  "place c environment obj entries =
     (let queued = queuedOn c environment
      in if queued \<and> waiting c environment (queue_of obj) > 0 then (Inr placeQueue, c)
         else case makeRoom c environment obj entries of
                (Inl e, c') \<Rightarrow> (Inl e, c')
              | (Inr fits, c') \<Rightarrow>
                  (Inr (if fits then placeNow else if queued then placeQueue else placeNoCapacity), c'))"

section \<open>Preemption\<close>

text \<open>The sandboxes a head may stop, with what each asks of the environment.\<close>

definition may_stop :: "int \<Rightarrow> string \<Rightarrow> Sandbox \<Rightarrow> Sandbox \<Rightarrow> bool" where
  "may_stop maxPreemptions environment head obj \<longleftrightarrow>
     \<not> (st_Environment (sb_Status obj) \<noteq> environment \<or> st_Phase (sb_Status obj) \<noteq> Running
        \<or> \<not> sc_Preemptible (sp_Scheduling (sb_Spec obj)) \<or> priority_of obj \<ge> priority_of head
        \<or> st_Preemptions (sb_Status obj) \<ge> maxPreemptions)"

fun candidates :: "(Sandbox \<Rightarrow> bool) \<Rightarrow> (string \<times> Sandbox) list \<Rightarrow> cerr + (Sandbox \<times> usage) list" where
  "candidates may [] = Inr []"
| "candidates may ((_, obj) # m) =
     (if \<not> may obj then candidates may m
      else rbind (requestOf (heldResources obj)) (\<lambda>request.
             rbind (candidates may m) (\<lambda>cs. Inr ((obj, request) # cs))))"

definition victim_cmp :: "Sandbox \<times> usage \<Rightarrow> Sandbox \<times> usage \<Rightarrow> int" where
  "victim_cmp a b = cmp_or
     [go_compare (priority_of (fst a)) (priority_of (fst b)),
      go_compare (u_cpu (snd b)) (u_cpu (snd a)),
      go_compare (st_CreatedAt (sb_Status (fst b))) (st_CreatedAt (sb_Status (fst a))),
      go_compare (st_ID (sb_Status (fst b))) (st_ID (sb_Status (fst a)))]"

definition less_victim :: "usage \<Rightarrow> usage \<Rightarrow> usage" where
  "less_victim tot r =
     tot\<lparr>u_cpu := wrap64 (u_cpu tot - u_cpu r), u_memory := wrap64 (u_memory tot - u_memory r),
         u_sandboxes := wrap64 (u_sandboxes tot - 1)\<rparr>"

fun choose_victims :: "ceiling \<Rightarrow> usage \<Rightarrow> (Sandbox \<times> usage) list \<Rightarrow> Sandbox list \<times> usage" where
  "choose_victims capacity tot [] = ([], tot)"
| "choose_victims capacity tot ((obj, r) # cands) =
     (if ceiling_holds capacity tot then ([], tot)
      else case choose_victims capacity (less_victim tot r) cands of (chosen, t) \<Rightarrow> (obj # chosen, t))"

definition victims :: "'w Controller \<Rightarrow> string \<Rightarrow> Sandbox \<Rightarrow> cerr + Sandbox list" where
  "victims c environment head =
     (if co_maxPreemptions c < 0 then Inr []
      else rbind (capacity_ceilingOf (capacityOf c environment)) (\<lambda>capacity.
           rbind (usageOn c environment) (\<lambda>used.
           rbind (askOf head) (\<lambda>need.
           rbind (candidates (may_stop (co_maxPreemptions c) environment head) (co_objects c)) (\<lambda>cands.
             case choose_victims capacity (plus_usage used need) (sort_func victim_cmp cands) of
               (chosen, tot) \<Rightarrow> if \<not> ceiling_holds capacity tot then Inr [] else Inr chosen)))))"

definition requeued_as :: "gotime \<Rightarrow> Sandbox \<Rightarrow> Sandbox" where
  "requeued_as now obj =
     (let o1 = with_reason ReasonPreempted (with_phase PhaseQueued obj)
      in with_condition (waitingCondition ReasonPreempted now)
           (o1\<lparr>sb_Status := (sb_Status o1)\<lparr>st_Preemptions := st_Preemptions (sb_Status o1) + 1\<rparr>\<rparr>))"

definition requeue :: "'w Controller \<Rightarrow> 'w Driver \<Rightarrow> Sandbox \<Rightarrow> cerr option \<times> 'w Controller" where
  "requeue c d obj =
     (case dr_Stop d (st_ID (sb_Status obj)) (co_world c) of
        (Some e, w) \<Rightarrow> (Some e, c\<lparr>co_world := w\<rparr>)
      | (None, w) \<Rightarrow>
          (case refresh (c\<lparr>co_world := w\<rparr>) obj of
             (Inl _, c1) \<Rightarrow> persist c1 (requeued_as (now_of c1) obj) MutationStopped
           | (Inr out, c1) \<Rightarrow> persist c1 (requeued_as (now_of c1) out) MutationStopped))"

fun requeue_all :: "'w Controller \<Rightarrow> 'w Driver \<Rightarrow> Sandbox list \<Rightarrow> cerr option \<times> 'w Controller" where
  "requeue_all c d [] = (None, c)"
| "requeue_all c d (victim # chosen) =
     (case requeue c d victim of (Some e, c') \<Rightarrow> (Some e, c') | (None, c') \<Rightarrow> requeue_all c' d chosen)"

definition preempt :: "'w Controller \<Rightarrow> string \<Rightarrow> Sandbox \<Rightarrow> (cerr + bool) \<times> 'w Controller" where
  "preempt c environment head =
     (case victims c environment head of
        Inl e \<Rightarrow> (Inl e, c)
      | Inr chosen \<Rightarrow>
          if chosen = [] then (Inr False, c)
          else case driverFor c environment of
                 Inl e \<Rightarrow> (Inl e, c)
               | Inr d \<Rightarrow>
                   (case requeue_all c d chosen of (Some e, c') \<Rightarrow> (Inl e, c') | (None, c') \<Rightarrow> (Inr True, c')))"

definition resume :: "'w Controller \<Rightarrow> Sandbox \<Rightarrow> cerr option \<times> 'w Controller" where
  "resume c obj =
     (case driverFor c (st_Environment (sb_Status obj)) of
        Inl e \<Rightarrow> (Some e, c)
      | Inr d \<Rightarrow>
          (case dr_Start d (st_ID (sb_Status obj)) (co_world c) of
             (Some e, w) \<Rightarrow>
               if errors_Is e DriverNotFound
               then persist (c\<lparr>co_world := w\<rparr>) (with_reason ReasonLost (with_phase PhaseLost obj)) MutationLost
               else (Some e, c\<lparr>co_world := w\<rparr>)
           | (None, w) \<Rightarrow>
               (let stopped = with_phase Stopped obj
                in case refresh (c\<lparr>co_world := w\<rparr>) stopped of
                     (Inl _, c1) \<Rightarrow>
                       (let out = with_condition (scheduledCondition False (now_of c1))
                                    (with_reason [] (with_phase Running stopped))
                        in persist c1 out (phaseMutation (st_Phase (sb_Status out))))
                   | (Inr rd, c1) \<Rightarrow>
                       (let out = with_condition (scheduledCondition False (now_of c1)) rd
                        in persist c1 out (phaseMutation (st_Phase (sb_Status out)))))))"

section \<open>One pass\<close>

definition fit :: "'w Controller \<Rightarrow> string \<Rightarrow> Sandbox \<Rightarrow> (cerr + bool) \<times> 'w Controller" where
  "fit c environment head =
     (case poolEntries c environment of (entries, c0) \<Rightarrow>
        (case makeRoom c0 environment head entries of
           (Inl e, c1) \<Rightarrow> (Inl e, c1)
         | (Inr True, c1) \<Rightarrow> (Inr True, c1)
         | (Inr False, c1) \<Rightarrow>
             (case preempt c1 environment head of
                (Inl e, c2) \<Rightarrow> (Inl e, c2)
              | (Inr False, c2) \<Rightarrow> (Inr False, c2)
              | (Inr True, c2) \<Rightarrow>
                  (case poolEntries c2 environment of (entries', c3) \<Rightarrow> makeRoom c3 environment head entries'))))"

definition expired :: "Sandbox \<Rightarrow> gotime \<Rightarrow> bool" where
  "expired obj now =
     (let deadline = sc_StartDeadline (sp_Scheduling (sb_Spec obj))
      in if deadline = [] \<or> st_Preemptions (sb_Status obj) > 0 then False
         else case ParseDuration deadline of
                Inl _ \<Rightarrow> False
              | Inr (d, never) \<Rightarrow> if never then False else time_Sub now (st_CreatedAt (sb_Status obj)) > d)"

definition expire :: "'w Controller \<Rightarrow> Sandbox \<Rightarrow> cerr option \<times> 'w Controller" where
  "expire c obj =
     (case persist c (with_reason ReasonStartDeadline (with_phase PhaseFailed obj)) MutationFailed of (e1, c1) \<Rightarrow>
        case credit c1 (parentOf c1 obj) of (e2, c2) \<Rightarrow> (errors_Join [e1, e2], c2))"

type_synonym 'w realizer = "'w Controller \<Rightarrow> string \<Rightarrow> cerr option \<times> 'w Controller"

definition placeQueued :: "'w realizer \<Rightarrow> 'w Controller \<Rightarrow> Sandbox \<Rightarrow> cerr option \<times> 'w Controller" where
  "placeQueued rz c obj =
     (if requeued obj then resume c obj
      else case driverFor c (st_Environment (sb_Status obj)) of
             Inl e \<Rightarrow> (Some e, c)
           | Inr _ \<Rightarrow>
               (case lifecycleFor c obj of
                  Inl e \<Rightarrow> (Some e, c)
                | Inr _ \<Rightarrow>
                    (case persist c (with_phase Pending obj) MutationStatus of
                       (Some e, c1) \<Rightarrow> (Some e, c1)
                     | (None, c1) \<Rightarrow> rz c1 (st_ID (sb_Status obj)))))"

fun expire_all :: "'w Controller \<Rightarrow> gotime \<Rightarrow> Sandbox list \<Rightarrow> cerr option \<Rightarrow> cerr option \<times> 'w Controller" where
  "expire_all c now [] failed = (failed, c)"
| "expire_all c now (obj # objs) failed =
     (if expired obj now
      then case expire c obj of (e, c') \<Rightarrow> expire_all c' now objs (errors_Join [failed, e])
      else expire_all c now objs failed)"

fun realize_all :: "'w realizer \<Rightarrow> 'w Controller \<Rightarrow> string list \<Rightarrow> cerr option \<Rightarrow> cerr option \<times> 'w Controller" where
  "realize_all rz c [] failed = (failed, c)"
| "realize_all rz c (vid # ids) failed =
     (case rz c vid of (e, c') \<Rightarrow> realize_all rz c' ids (if e = None then failed else errors_Join [failed, e]))"

text \<open>What one iteration of the pass's loop reads and leaves: the queues it has closed, the heads it has
  tried, the errors so far and the controller.\<close>

record 'w pass =
  ps_closed :: "string list"
  ps_tried :: "string list"
  ps_failed :: "cerr option"
  ps_ctl :: "'w Controller"

definition open_waiting :: "string \<Rightarrow> 'w pass \<Rightarrow> cerr + Sandbox list" where
  "open_waiting environment p = ordered (ps_ctl p) environment (\<lambda>obj. queue_of obj \<notin> set (ps_closed p))"

text \<open>One iteration for a head: it closes the head's queue, or places the head.\<close>

definition try_head :: "'w realizer \<Rightarrow> string \<Rightarrow> 'w pass \<Rightarrow> Sandbox \<Rightarrow> 'w pass" where
  "try_head rz environment p head =
     (let vid = st_ID (sb_Status head); queue = queue_of head
      in if vid \<in> set (ps_tried p) then p\<lparr>ps_closed := queue # ps_closed p\<rparr>
         else case fit (ps_ctl p) environment head of
                (Inl e, c) \<Rightarrow>
                  p\<lparr>ps_closed := queue # ps_closed p, ps_tried := vid # ps_tried p,
                    ps_failed := errors_Join [ps_failed p, Some e], ps_ctl := c\<rparr>
              | (Inr False, c) \<Rightarrow> p\<lparr>ps_closed := queue # ps_closed p, ps_tried := vid # ps_tried p, ps_ctl := c\<rparr>
              | (Inr True, c) \<Rightarrow>
                  (case placeQueued rz c head of (e, c') \<Rightarrow>
                     p\<lparr>ps_tried := vid # ps_tried p,
                       ps_failed := (if e = None then ps_failed p else errors_Join [ps_failed p, e]), ps_ctl := c'\<rparr>))"

partial_function (option) pass_loop ::
  "'w realizer \<Rightarrow> string \<Rightarrow> 'w pass \<Rightarrow> (cerr option \<times> 'w Controller) option" where
  "pass_loop rz environment p =
     (case open_waiting environment p of
        Inl e \<Rightarrow> Some (errors_Join [ps_failed p, Some e], ps_ctl p)
      | Inr [] \<Rightarrow> Some (ps_failed p, ps_ctl p)
      | Inr (head # _) \<Rightarrow> pass_loop rz environment (try_head rz environment p head))"

declare pass_loop.simps [simp del]

definition scheduleEnvironment ::
  "'w realizer \<Rightarrow> 'w Controller \<Rightarrow> string \<Rightarrow> gotime \<Rightarrow> (cerr option \<times> 'w Controller) option" where
  "scheduleEnvironment rz c environment now =
     (case ordered c environment (\<lambda>_. True) of
        Inl e \<Rightarrow> Some (Some e, c)
      | Inr w \<Rightarrow>
          (case expire_all c now w None of (failed, c1) \<Rightarrow>
             if admits c1 environment \<noteq> None then Some (failed, c1)
             else case realize_all rz c1 (placedOn c1 environment) failed of (failed', c2) \<Rightarrow>
                    pass_loop rz environment \<lparr>ps_closed = [], ps_tried = [], ps_failed = failed', ps_ctl = c2\<rparr>))"

fun schedule_all :: "'w realizer \<Rightarrow> 'w Controller \<Rightarrow> gotime \<Rightarrow> string list \<Rightarrow> cerr option
    \<Rightarrow> (cerr option \<times> 'w Controller) option" where
  "schedule_all rz c now [] failed = Some (failed, c)"
| "schedule_all rz c now (environment # envs) failed =
     (case scheduleEnvironment rz c environment now of
        None \<Rightarrow> None
      | Some (e, c') \<Rightarrow> schedule_all rz c' now envs (errors_Join [failed, e]))"

definition Schedule :: "'w realizer \<Rightarrow> 'w Controller \<Rightarrow> (cerr option \<times> 'w Controller) option" where
  "Schedule rz c = schedule_all rz c (now_of c) (environmentsWaiting c) None"

definition QueueDepths :: "'w Controller \<Rightarrow> (string \<times> string \<times> int) list" where
  "QueueDepths c =
     concat (map (\<lambda>environment.
       let qs = queues c environment;
           all = (case environmentOf c environment of
                    None \<Rightarrow> qs
                  | Some env \<Rightarrow> if Queued env then foldl (\<lambda>out q. if q \<notin> set out then out @ [q] else out) qs (QueuesOf env) else qs)
       in map (\<lambda>q. (environment, q, waiting c environment q)) (sort_ordered all)) (environmentsHeld c))"

end
