(* ===== verification/Scheduler_Facts.thy ===== *)
theory Scheduler_Facts
  imports Scheduler
begin

text \<open>
  What the scheduler guarantees: the order of a line is one order whatever order the map of objects is
  read in; the sandboxes preemption stops are the fewest that make room, of lower priority and below
  the bound, and stopping them does make room.
\<close>

section \<open>The order of a line\<close>

lemma line_preorder: "go_preorder (line_cmp share)"
  unfolding line_cmp_def by (intro go_preorder_intros)

interpretation line: go_order "line_cmp share" "\<lambda>obj. st_ID (sb_Status obj)" for share
  using line_preorder by (simp add: go_order_def go_order_axioms_def) (simp add: line_cmp_def)

lemma victim_preorder: "go_preorder victim_cmp"
  unfolding victim_cmp_def by (intro go_preorder_intros)

interpretation victim: go_order victim_cmp "\<lambda>p. st_ID (sb_Status (fst p))"
  using victim_preorder by (simp add: go_order_def go_order_axioms_def) (simp add: victim_cmp_def)

lemma placed_preorder: "go_preorder placed_cmp"
  unfolding placed_cmp_def by (intro go_preorder_intros)

interpretation arrival: go_order placed_cmp "\<lambda>obj. st_ID (sb_Status obj)"
  using placed_preorder by (simp add: go_order_def go_order_axioms_def) (simp add: placed_cmp_def)

text \<open>The requested cpu of one owner's sandboxes that hold compute.\<close>

definition cpu_asked :: "Sandbox \<Rightarrow> int" where
  "cpu_asked obj = (case requestOf (sp_Resources (sb_Spec obj)) of Inl _ \<Rightarrow> 0 | Inr u \<Rightarrow> u_cpu u)"

definition counts_share :: "string \<Rightarrow> Sandbox \<Rightarrow> bool" where
  "counts_share environment obj \<longleftrightarrow> st_Environment (sb_Status obj) = environment \<and> holdsCompute (st_Phase (sb_Status obj))"

definition owner_share :: "string \<Rightarrow> (string \<times> Sandbox) list \<Rightarrow> string \<Rightarrow> int" where
  "owner_share environment m owner =
     sum_list (map (\<lambda>(k, obj). if counts_share environment obj \<and> st_Owner (sb_Status obj) = owner then cpu_asked obj else 0) m)"

definition share_readable :: "string \<Rightarrow> (string \<times> Sandbox) list \<Rightarrow> bool" where
  "share_readable environment m =
     list_all (\<lambda>(k, obj). counts_share environment obj \<longrightarrow> (\<exists>u. requestOf (sp_Resources (sb_Spec obj)) = Inr u)) m"

definition waiting_in :: "string \<Rightarrow> (Sandbox \<Rightarrow> bool) \<Rightarrow> (string \<times> Sandbox) list \<Rightarrow> Sandbox list" where
  "waiting_in environment keep m = filter (\<lambda>obj. waits_on environment obj \<and> keep obj) (map snd m)"

lemma queued_holds_nothing: "\<not> holdsCompute PhaseQueued"
  by (simp add: holdsCompute_def)

lemma share_in_update: "share_in (AList.update k v m) = (share_in m)(k := v)"
  by (rule ext) (simp add: share_in_def map_of_update)

lemma ordered_scan_eq:
  assumes "\<forall>x. wrap64 (share_in share x) = share_in share x"
  shows "if share_readable environment m
     then \<exists>share'. ordered_scan environment keep m share out = Inr (share', out @ waiting_in environment keep m)
          \<and> (\<forall>x. share_in share' x = wrap64 (share_in share x + owner_share environment m x))
     else ordered_scan environment keep m share out = Inl ErrInvalidQuantity"
  using assms
proof (induction m arbitrary: share out)
  case Nil
  then show ?case by (simp add: share_readable_def waiting_in_def owner_share_def)
next
  case (Cons x m)
  obtain k obj where x: "x = (k, obj)" by (cases x)
  show ?case
  proof (cases "counts_share environment obj")
    case False
    then have "owner_share environment (x # m) = owner_share environment m"
      and "share_readable environment (x # m) = share_readable environment m"
      by (simp_all add: fun_eq_iff x owner_share_def share_readable_def)
    then show ?thesis
      using False Cons.IH [OF Cons.prems, of "if keep obj then out @ [obj] else out"] Cons.IH [OF Cons.prems, of out]
      by (auto simp: x counts_share_def waiting_in_def waits_on_def queued_holds_nothing)
  next
    case True
    then have nq: "st_Phase (sb_Status obj) \<noteq> PhaseQueued"
      by (auto simp: counts_share_def queued_holds_nothing)
    show ?thesis
    proof (cases "requestOf (sp_Resources (sb_Spec obj))")
      case (Inl e)
      with True nq show ?thesis using requestOf_err [OF Inl]
        by (simp add: x share_readable_def counts_share_def)
    next
      case (Inr u)
      let ?share = "AList.update (st_Owner (sb_Status obj)) (wrap64 (share_in share (st_Owner (sb_Status obj)) + u_cpu u)) share"
      have "\<forall>y. wrap64 (share_in ?share y) = share_in ?share y"
        using Cons.prems wrap64_id [OF wrap64_range] by (simp add: share_in_update)
      from Cons.IH [OF this, of out] True nq Inr show ?thesis
        by (auto simp: x counts_share_def share_readable_def waiting_in_def waits_on_def owner_share_def cpu_asked_def
            share_in_update wrap64_add_left add.assoc split: if_splits)
    qed
  qed
qed

definition line_share :: "string \<Rightarrow> (string \<times> Sandbox) list \<Rightarrow> string \<Rightarrow> int" where
  "line_share environment m owner = wrap64 (owner_share environment m owner)"

lemma ordered_eq:
  "ordered c environment keep
   = (if share_readable environment (co_objects c)
      then Inr (sort_func (line_cmp (line_share environment (co_objects c))) (waiting_in environment keep (co_objects c)))
      else Inl ErrInvalidQuantity)"
proof -
  have "\<forall>x. wrap64 (share_in [] x) = share_in [] x"
    by (simp add: share_in_def)
  note scan = ordered_scan_eq [OF this, of environment "co_objects c" keep "[]"]
  show ?thesis
  proof (cases "share_readable environment (co_objects c)")
    case True
    with scan obtain share' where s: "ordered_scan environment keep (co_objects c) [] []
        = Inr (share', waiting_in environment keep (co_objects c))"
      and sh: "\<And>x. share_in share' x = wrap64 (share_in [] x + owner_share environment (co_objects c) x)"
      by auto
    have "share_in share' = line_share environment (co_objects c)"
      by (rule ext) (simp add: sh line_share_def share_in_def [of "[]"])
    with True s show ?thesis by (simp add: ordered_def)
  next
    case False
    with scan show ?thesis by (simp add: ordered_def)
  qed
qed

lemma share_perm: "mset m = mset m' \<Longrightarrow> line_share environment m = line_share environment m'"
  unfolding line_share_def owner_share_def by (intro ext arg_cong [where f = wrap64] sum_list_perm)

lemma share_readable_perm: "mset m = mset m' \<Longrightarrow> share_readable environment m = share_readable environment m'"
  unfolding share_readable_def list_all_iff by (simp flip: set_mset_mset)

lemma waiting_in_mset: "mset m = mset m' \<Longrightarrow> mset (waiting_in environment keep m) = mset (waiting_in environment keep m')"
  by (simp add: waiting_in_def)

lemma objects_distinct_ids: "objects_ok m \<Longrightarrow> distinct (map (\<lambda>obj. st_ID (sb_Status obj)) (map snd m))"
proof (induction m)
  case (Cons x m)
  then show ?case by (cases x) (auto simp: objects_ok_def map_ok_def list_all_iff rev_image_eqI)
qed simp

lemma distinct_waiting: "objects_ok m \<Longrightarrow> distinct (map (\<lambda>obj. st_ID (sb_Status obj)) (waiting_in environment keep m))"
  unfolding waiting_in_def by (rule distinct_map_filter) (rule objects_distinct_ids)

text \<open>The order sandboxes are admitted in is one order: two reads of the same objects give the same
  line, whatever order the map is iterated in, so a pass and a caller's position agree.\<close>

theorem ordered_map_order:
  assumes "mset (co_objects c) = mset (co_objects c')" and "objects_ok (co_objects c)"
  shows "ordered c environment keep = ordered c' environment keep"
  using line.sort_func_perm [OF waiting_in_mset [OF assms(1)] distinct_waiting [OF assms(2)]]
    share_perm [OF assms(1)] share_readable_perm [OF assms(1)]
  by (simp add: ordered_eq)

lemma line_cmp_ranks:
  assumes "line_cmp share a b \<le> 0"
  shows "priority_of b \<le> priority_of a
    \<and> (priority_of a = priority_of b \<longrightarrow>
         share (st_Owner (sb_Status a)) \<le> share (st_Owner (sb_Status b))
         \<and> (st_Owner (sb_Status a) = st_Owner (sb_Status b) \<longrightarrow> st_CreatedAt (sb_Status a) \<le> st_CreatedAt (sb_Status b)))"
  using assms by (auto simp: line_cmp_def split: if_splits)

text \<open>A line holds exactly the sandboxes that wait and are kept, and none stands behind one it
  outranks: by priority first, then by the smaller requested cpu of its owner, then by arrival.\<close>

theorem ordered_ranks:
  assumes "ordered c environment keep = Inr l"
  shows "mset l = mset (waiting_in environment keep (co_objects c))
    \<and> sorted_wrt (\<lambda>a b. priority_of b \<le> priority_of a
         \<and> (priority_of a = priority_of b \<longrightarrow>
              line_share environment (co_objects c) (st_Owner (sb_Status a)) \<le> line_share environment (co_objects c) (st_Owner (sb_Status b))
              \<and> (st_Owner (sb_Status a) = st_Owner (sb_Status b) \<longrightarrow> st_CreatedAt (sb_Status a) \<le> st_CreatedAt (sb_Status b)))) l"
proof -
  let ?share = "line_share environment (co_objects c)"
  have l: "l = sort_func (line_cmp ?share) (waiting_in environment keep (co_objects c))"
    using assms by (simp add: ordered_eq split: if_splits)
  show ?thesis
    unfolding l
    by (rule conjI, simp, rule sorted_wrt_mono_rel [OF _ line.sorted_sort_func], rule line_cmp_ranks, assumption)
qed

section \<open>Who is stopped\<close>

lemma candidates_Inr:
  "candidates may m = Inr cs \<Longrightarrow> cs = map (\<lambda>obj. (obj, request_or0 obj)) (filter may (map snd m))
     \<and> (\<forall>obj \<in> set (filter may (map snd m)). \<exists>u. requestOf (heldResources obj) = Inr u)"
proof (induction m arbitrary: cs)
  case (Cons x m)
  obtain k obj where x: "x = (k, obj)" by (cases x)
  show ?case
  proof (cases "may obj")
    case False
    with Cons x show ?thesis by simp
  next
    case True
    with Cons.prems x obtain u cs' where u: "requestOf (heldResources obj) = Inr u" "candidates may m = Inr cs'"
        "cs = (obj, u) # cs'"
      by (auto simp: rbind_Inr)
    with Cons.IH [OF u(2)] True x show ?thesis by (simp add: request_or0_def)
  qed
qed simp

text \<open>What is left of a total when these sandboxes have been stopped.\<close>

definition less_all :: "usage \<Rightarrow> Sandbox list \<Rightarrow> usage" where
  "less_all tot vs = foldl (\<lambda>t v. less_victim t (request_or0 v)) tot vs"

lemma choose_victims_prefix:
  assumes "choose_victims capacity tot (map (\<lambda>obj. (obj, request_or0 obj)) objs) = (chosen, t)"
  shows "(\<exists>k. chosen = take k objs) \<and> t = less_all tot chosen
    \<and> (\<forall>j < length chosen. \<not> ceiling_holds capacity (less_all tot (take j chosen)))"
  using assms
proof (induction objs arbitrary: tot chosen t)
  case Nil
  then show ?case by (simp add: less_all_def)
next
  case (Cons obj objs)
  show ?case
  proof (cases "ceiling_holds capacity tot")
    case True
    with Cons.prems show ?thesis by (auto simp: less_all_def intro: exI [of _ 0])
  next
    case False
    obtain chosen' t' where r: "choose_victims capacity (less_victim tot (request_or0 obj))
        (map (\<lambda>obj. (obj, request_or0 obj)) objs) = (chosen', t')"
      by (cases "choose_victims capacity (less_victim tot (request_or0 obj)) (map (\<lambda>obj. (obj, request_or0 obj)) objs)")
    with Cons.prems False have c: "chosen = obj # chosen'" "t = t'" by simp_all
    from Cons.IH [OF r] obtain k where k: "chosen' = take k objs" "t' = less_all (less_victim tot (request_or0 obj)) chosen'"
      "\<forall>j < length chosen'. \<not> ceiling_holds capacity (less_all (less_victim tot (request_or0 obj)) (take j chosen'))"
      by blast
    have "chosen = take (Suc k) (obj # objs)" using c k(1) by simp
    moreover have "t = less_all tot chosen" using c k(2) by (simp add: less_all_def)
    moreover have "\<not> ceiling_holds capacity (less_all tot (take j chosen))" if "j < length chosen" for j
      using that c k(3) False by (cases j) (auto simp: less_all_def)
    ultimately show ?thesis by blast
  qed
qed

text \<open>Whether the head fits once these have been stopped, as the code computes it.\<close>

definition fits_without :: "'w Controller \<Rightarrow> string \<Rightarrow> Sandbox \<Rightarrow> Sandbox list \<Rightarrow> bool" where
  "fits_without c environment head vs =
     (case rbind (capacity_ceilingOf (capacityOf c environment)) (\<lambda>capacity.
           rbind (usageOn c environment) (\<lambda>used.
           rbind (askOf head) (\<lambda>need.
             Inr (ceiling_holds capacity (less_all (plus_usage used need) vs))))) of
        Inl _ \<Rightarrow> False
      | Inr b \<Rightarrow> b)"

lemma sort_map_request:
  "\<exists>objs. sort_func victim_cmp (map (\<lambda>obj. (obj, request_or0 obj)) xs) = map (\<lambda>obj. (obj, request_or0 obj)) objs
     \<and> mset objs = mset xs"
proof -
  let ?g = "\<lambda>obj. (obj, request_or0 obj)" and ?s = "sort_func victim_cmp (map (\<lambda>obj. (obj, request_or0 obj)) xs)"
  have "map (\<lambda>p. ?g (fst p)) ?s = ?s"
    by (rule map_idI) auto
  then have "?s = map ?g (map fst ?s)" by (simp add: comp_def)
  moreover have "mset (map fst ?s) = mset (map fst (map ?g xs))"
    by (simp only: mset_map mset_sort_func)
  ultimately show ?thesis by (intro exI [of _ "map fst ?s"]) (simp add: comp_def)
qed

lemma victims_Inr:
  assumes "victims c environment head = Inr vs" and "vs \<noteq> []"
  obtains objs capacity used need where
    "capacity_ceilingOf (capacityOf c environment) = Inr capacity" "usageOn c environment = Inr used" "askOf head = Inr need"
    "sorted_wrt (\<lambda>a b. victim_cmp (a, request_or0 a) (b, request_or0 b) \<le> 0) objs"
    "mset objs = mset (filter (may_stop (co_maxPreemptions c) environment head) (map snd (co_objects c)))"
    "\<exists>k. vs = take k objs" "ceiling_holds capacity (less_all (plus_usage used need) vs)"
    "\<forall>j < length vs. \<not> ceiling_holds capacity (less_all (plus_usage used need) (take j vs))"
proof -
  let ?may = "may_stop (co_maxPreemptions c) environment head" and ?g = "\<lambda>obj. (obj, request_or0 obj)"
  have "\<not> co_maxPreemptions c < 0" using assms by (auto simp: victims_def)
  then obtain capacity used need cands where
    d: "capacity_ceilingOf (capacityOf c environment) = Inr capacity" "usageOn c environment = Inr used" "askOf head = Inr need"
    and cs: "candidates ?may (co_objects c) = Inr cands"
    and r: "(case choose_victims capacity (plus_usage used need) (sort_func victim_cmp cands) of
        (chosen, tot) \<Rightarrow> if \<not> ceiling_holds capacity tot then Inr [] else Inr chosen) = (Inr vs :: cerr + Sandbox list)"
    using assms(1) by (auto simp: victims_def rbind_Inr)
  obtain chosen tot where ch: "choose_victims capacity (plus_usage used need) (sort_func victim_cmp cands) = (chosen, tot)"
    by (cases "choose_victims capacity (plus_usage used need) (sort_func victim_cmp cands)")
  have vs: "vs = chosen" "ceiling_holds capacity tot"
    using r ch assms(2) by (auto split: if_splits)
  from sort_map_request [of "filter ?may (map snd (co_objects c))"] obtain objs where
    o: "sort_func victim_cmp cands = map ?g objs" "mset objs = mset (filter ?may (map snd (co_objects c)))"
    using candidates_Inr [OF cs] by auto
  have "sorted_wrt (\<lambda>a b. victim_cmp (?g a) (?g b) \<le> 0) objs"
    using victim.sorted_sort_func [of cands] unfolding o(1) by (simp add: sorted_wrt_map)
  with choose_victims_prefix [OF ch [unfolded o(1)]] d o(2) vs show thesis by (intro that) auto
qed

lemma may_stopD:
  "may_stop bound environment head v \<Longrightarrow> st_Environment (sb_Status v) = environment \<and> st_Phase (sb_Status v) = Running
     \<and> sc_Preemptible (sp_Scheduling (sb_Spec v)) \<and> priority_of v < priority_of head \<and> st_Preemptions (sb_Status v) < bound"
  by (simp add: may_stop_def)

lemma set_take_sorted:
  assumes "sorted_wrt R objs" and "vs = take k objs" and "v \<in> set vs" and "x \<in> set objs" and "x \<notin> set vs"
  shows "R v x"
proof -
  have "sorted_wrt R (take k objs @ drop k objs)" using assms(1) by simp
  moreover have "x \<in> set (drop k objs)"
    using assms(2,4,5) by (metis UnE append_take_drop_id set_append)
  ultimately show ?thesis using assms(2,3) by (simp only: sorted_wrt_append)
qed

lemma victims_may_stop:
  assumes "victims c environment head = Inr vs" and "v \<in> set vs"
  shows "v \<in> snd ` set (co_objects c) \<and> may_stop (co_maxPreemptions c) environment head v"
proof -
  have "vs \<noteq> []" using assms(2) by auto
  obtain objs capacity used need where
    ms: "mset objs = mset (filter (may_stop (co_maxPreemptions c) environment head) (map snd (co_objects c)))"
    and tk: "\<exists>k. vs = take k objs"
    by (rule victims_Inr [OF assms(1) \<open>vs \<noteq> []\<close>])
  have "v \<in> set objs" using tk assms(2) in_set_takeD by fast
  then show ?thesis using arg_cong [OF ms, of set_mset] by auto
qed


section \<open>Stopping them makes room\<close>

definition less_exact :: "usage \<Rightarrow> usage \<Rightarrow> usage" where
  "less_exact u r = u\<lparr>u_cpu := u_cpu u - u_cpu r, u_memory := u_memory u - u_memory r, u_sandboxes := u_sandboxes u - 1\<rparr>"

lemma wrap64_diff_left: "wrap64 (wrap64 a - b) = wrap64 (a - b)"
  using wrap64_add_left [of a "- b"] by simp

lemma less_victim_wrapped: "less_victim (wrapped u) r = wrapped (less_exact u r)"
  by (simp add: less_victim_def wrapped_def less_exact_def wrap64_diff_left)

lemma less_all_wrapped: "less_all (wrapped u) vs = wrapped (foldl (\<lambda>t v. less_exact t (request_or0 v)) u vs)"
  by (induction vs arbitrary: u) (simp_all add: less_all_def less_victim_wrapped)

lemma less_exact_plus: "less_exact (plus_exact u v) r = plus_exact (less_exact u r) v"
  by (simp add: less_exact_def plus_exact_def)

lemma foldl_less_exact_plus:
  "foldl (\<lambda>t v. less_exact t (request_or0 v)) (plus_exact u n) vs
   = plus_exact (foldl (\<lambda>t v. less_exact t (request_or0 v)) u vs) n"
  by (induction vs arbitrary: u) (simp_all add: less_exact_plus)

lemma sum_list_alist_update:
  "map_of m k = Some v \<Longrightarrow> sum_list (map h (AList.update k v' m)) = sum_list (map h m) - h (k, v) + (h (k, v') :: int)"
  by (induction m) auto

text \<open>What a requeue writes: the same sandbox in the queue, stopped once more.\<close>

definition requeue_of :: "Sandbox \<Rightarrow> Sandbox \<Rightarrow> bool" where
  "requeue_of obj new \<longleftrightarrow> sb_Spec new = sb_Spec obj \<and> st_ID (sb_Status new) = st_ID (sb_Status obj)
     \<and> st_Environment (sb_Status new) = st_Environment (sb_Status obj) \<and> st_Owner (sb_Status new) = st_Owner (sb_Status obj)
     \<and> st_Resources (sb_Status new) = st_Resources (sb_Status obj) \<and> st_Phase (sb_Status new) = PhaseQueued
     \<and> st_Preemptions (sb_Status new) = st_Preemptions (sb_Status obj) + 1"

lemma requeue_of_as: "identity out = identity obj \<Longrightarrow> requeue_of obj (requeued_as now out)"
  by (simp add: requeue_of_def requeued_as_def Let_def with_phase_def with_reason_def with_condition_def identity_def)

lemma requeue_nil:
  assumes "requeue c d obj = (None, c')"
  obtains new where "requeue_of obj new" "co_objects c' = AList.update (st_ID (sb_Status obj)) new (co_objects c)"
    "config c' = config c"
proof -
  obtain w where w: "dr_Stop d (st_ID (sb_Status obj)) (co_world c) = (None, w)"
    using assms by (auto simp: requeue_def split: prod.splits option.splits)
  obtain r c1 where r: "refresh (c\<lparr>co_world := w\<rparr>) obj = (r, c1)"
    by (cases "refresh (c\<lparr>co_world := w\<rparr>) obj")
  let ?out = "case r of Inl _ \<Rightarrow> obj | Inr out \<Rightarrow> out"
  have p: "persist c1 (requeued_as (now_of c1) ?out) MutationStopped = (None, c')"
    using assms w r by (auto simp: requeue_def split: sum.splits)
  have "identity ?out = identity obj"
    using r refresh_identity by (auto split: sum.splits)
  then have q: "requeue_of obj (requeued_as (now_of c1) ?out)" by (rule requeue_of_as)
  obtain w' where c1: "c1 = c\<lparr>co_world := w'\<rparr>" using refresh_frame [OF r] by auto
  have "co_objects c' = AList.update (st_ID (sb_Status obj)) (requeued_as (now_of c1) ?out) (co_objects c)"
    using persist_nil [OF p] q c1 by (simp add: requeue_of_def)
  moreover have "config c' = config c1"
    using persist_config [of c1 "requeued_as (now_of c1) ?out" MutationStopped] unfolding p by simp
  ultimately show thesis using that q c1 by simp
qed

lemma held_unchanged: "requeue_of obj new \<Longrightarrow> heldResources new = heldResources obj"
  by (simp add: requeue_of_def heldResources_def)

text \<open>The exact sums after one running sandbox has been requeued: its compute and its slot are given back
  and its disk is not.\<close>

lemma sums_on_requeue:
  assumes "requeue_of obj new" and "map_of m k = Some obj" and "st_Environment (sb_Status obj) = environment"
    and "st_Phase (sb_Status obj) = Running" and "0 \<le> st_Preemptions (sb_Status obj)"
  shows "sums_on environment (AList.update k new m) = less_exact (sums_on environment m) (request_or0 obj)"
proof -
  have "request_or0 new = request_or0 obj"
    using held_unchanged [OF assms(1)] by (simp add: request_or0_def)
  moreover have "holdsDisk new \<and> holdsDisk obj \<and> \<not> holdsCompute (st_Phase (sb_Status new)) \<and> holdsCompute (st_Phase (sb_Status obj))"
    using assms by (simp add: requeue_of_def holdsDisk_def holdsCompute_def requeued_def phase_words)
  moreover have "st_Environment (sb_Status new) = environment"
    using assms by (simp add: requeue_of_def)
  ultimately show ?thesis
    using assms(2,3)
    by (simp add: sums_on_def sum_on_def sum_list_alist_update less_exact_def compute_held_def disk_held_def slot_held_def)
qed

lemma readable_on_update:
  assumes "readable_on environment m" and "map_of m k = Some obj" and "heldResources new = heldResources obj"
    and "st_Environment (sb_Status new) = st_Environment (sb_Status obj)"
  shows "readable_on environment (AList.update k new m)"
  using assms unfolding readable_on_def
  by (intro list_all_update) (auto simp: list_all_iff dest: map_of_SomeD)

lemma requeue_all_sums:
  assumes "requeue_all c d vs = (None, c')"
    and "\<forall>v \<in> set vs. map_of (co_objects c) (st_ID (sb_Status v)) = Some v \<and> st_Environment (sb_Status v) = environment
        \<and> st_Phase (sb_Status v) = Running \<and> 0 \<le> st_Preemptions (sb_Status v)"
    and "distinct (map (\<lambda>v. st_ID (sb_Status v)) vs)" and "readable_on environment (co_objects c)"
  shows "sums_on environment (co_objects c') = foldl (\<lambda>t v. less_exact t (request_or0 v)) (sums_on environment (co_objects c)) vs
    \<and> readable_on environment (co_objects c') \<and> config c' = config c"
  using assms
proof (induction vs arbitrary: c)
  case (Cons v vs)
  from Cons.prems(1) obtain c1 where r: "requeue c d v = (None, c1)" "requeue_all c1 d vs = (None, c')"
    by (auto split: prod.splits option.splits)
  obtain new where n: "requeue_of v new" "co_objects c1 = AList.update (st_ID (sb_Status v)) new (co_objects c)"
    "config c1 = config c" by (rule requeue_nil [OF r(1)])
  have v: "map_of (co_objects c) (st_ID (sb_Status v)) = Some v" "st_Environment (sb_Status v) = environment"
    "st_Phase (sb_Status v) = Running" "0 \<le> st_Preemptions (sb_Status v)"
    using bspec [OF Cons.prems(2), of v] by simp_all
  have rest: "map_of (co_objects c1) (st_ID (sb_Status x)) = Some x \<and> st_Environment (sb_Status x) = environment
      \<and> st_Phase (sb_Status x) = Running \<and> 0 \<le> st_Preemptions (sb_Status x)" if "x \<in> set vs" for x
  proof -
    have "st_ID (sb_Status x) \<noteq> st_ID (sb_Status v)"
      using that Cons.prems(3) by (auto simp: rev_image_eqI)
    then show ?thesis
      using bspec [OF Cons.prems(2), of x] that by (simp add: n(2) map_of_update)
  qed
  have "readable_on environment (co_objects c1)"
    unfolding n(2) using n(1)
    by (intro readable_on_update [OF Cons.prems(4) v(1) held_unchanged [OF n(1)]]) (simp add: requeue_of_def)
  with Cons.IH [OF r(2)] rest Cons.prems(3)
  have "sums_on environment (co_objects c') = foldl (\<lambda>t v. less_exact t (request_or0 v)) (sums_on environment (co_objects c1)) vs
      \<and> readable_on environment (co_objects c') \<and> config c' = config c1"
    by simp
  then show ?case
    using sums_on_requeue [OF n(1) v] n(3) by (simp add: n(2))
qed simp

lemma objects_ok_held: "objects_ok m \<Longrightarrow> v \<in> snd ` set m \<Longrightarrow> map_of m (st_ID (sb_Status v)) = Some v"
  unfolding objects_ok_def map_ok_def by (auto simp: list_all_iff)

lemma victims_distinct:
  assumes "victims c environment head = Inr vs" and "objects_ok (co_objects c)"
  shows "distinct (map (\<lambda>v. st_ID (sb_Status v)) vs)"
proof (cases "vs = []")
  case False
  obtain objs capacity used need where
    ms: "mset objs = mset (filter (may_stop (co_maxPreemptions c) environment head) (map snd (co_objects c)))"
    and tk: "\<exists>k. vs = take k objs"
    by (rule victims_Inr [OF assms(1) False])
  have "distinct (map (\<lambda>v. st_ID (sb_Status v)) (filter (may_stop (co_maxPreemptions c) environment head) (map snd (co_objects c))))"
    by (rule distinct_map_filter) (rule objects_distinct_ids [OF assms(2)])
  then have "distinct (map (\<lambda>v. st_ID (sb_Status v)) objs)"
    using ms by (metis mset_map mset_eq_imp_distinct_iff)
  with tk show ?thesis by (metis distinct_take take_map)
qed simp

text \<open>C27: a preemption that reports it stopped somebody has made room: what the environment's sandboxes
  hold afterwards, the requeued victims' disk included, leaves room for the head, modulo the same
  wrap-around the check itself has. So no sandbox is stopped for a head that is then not placed for
  want of cpu, memory, disk or slots.\<close>

theorem preempt_makes_room:
  assumes "preempt c environment head = (Inr True, c')" and "objects_ok (co_objects c)"
    and "\<forall>obj \<in> snd ` set (co_objects c). 0 \<le> st_Preemptions (sb_Status obj)"
  shows "fits_without c' environment head []"
proof -
  obtain vs d where vs: "victims c environment head = Inr vs" "vs \<noteq> []" and r: "requeue_all c d vs = (None, c')"
    using assms(1) by (auto simp: preempt_def split: sum.splits if_splits prod.splits option.splits)
  obtain objs capacity used need where
    e: "capacity_ceilingOf (capacityOf c environment) = Inr capacity" "usageOn c environment = Inr used" "askOf head = Inr need"
    and h: "ceiling_holds capacity (less_all (plus_usage used need) vs)"
    by (rule victims_Inr [OF vs])
  let ?sum = "\<lambda>c. sums_on environment (co_objects c)"
  have used: "readable_on environment (co_objects c)" "used = wrapped (?sum c)"
    using e(2) by (simp_all add: usageOn_eq split: if_splits)
  have "map_of (co_objects c) (st_ID (sb_Status v)) = Some v \<and> st_Environment (sb_Status v) = environment
      \<and> st_Phase (sb_Status v) = Running \<and> 0 \<le> st_Preemptions (sb_Status v)" if "v \<in> set vs" for v
    using victims_may_stop [OF vs(1) that] assms(3) objects_ok_held [OF assms(2), of v] may_stopD [of _ environment head v] by blast
  then have after: "?sum c' = foldl (\<lambda>t v. less_exact t (request_or0 v)) (?sum c) vs"
      "readable_on environment (co_objects c')" "config c' = config c"
    using requeue_all_sums [OF r _ victims_distinct [OF vs(1) assms(2)] used(1)] by blast+
  have "less_all (plus_usage used need) vs = plus_usage (wrapped (?sum c')) need"
    by (simp add: used(2) plus_usage_wrapped less_all_wrapped foldl_less_exact_plus after(1))
  with h e(1,3) after(2) show ?thesis
    by (simp add: fits_without_def usageOn_eq config_lookups(4) [OF after(3)] less_all_def)
qed

subsection \<open>Witnesses\<close>

text \<open>An environment of one slot, which a preemptible sandbox holds and an urgent one waits for.\<close>

definition ranked :: "string \<Rightarrow> string \<Rightarrow> int \<Rightarrow> Sandbox" where
  "ranked vid phase priority =
     (sample_sandbox vid phase)\<lparr>sb_Spec := (sb_Spec (sample_sandbox vid phase))
       \<lparr>sp_Scheduling := \<lparr>sc_Priority = priority, sc_Queue = ''q'', sc_StartDeadline = [], sc_Preemptible = True\<rparr>\<rparr>\<rparr>"

definition one_slot :: "Sandbox list \<Rightarrow> unit Controller" where
  "one_slot objects = sample_controller (Capacity0\<lparr>ca_Sandboxes := 1\<rparr>) objects"

definition contended :: "unit Controller" where
  "contended = one_slot [ranked ''sbx_1'' Running 0, ranked ''sbx_2'' PhaseQueued 5]"

lemma contended_ordered: "ordered contended ''desk'' (\<lambda>_. True) = Inr [ranked ''sbx_2'' PhaseQueued 5]"
  by code_simp

lemma contended_victims: "victims contended ''desk'' (ranked ''sbx_2'' PhaseQueued 5) = Inr [ranked ''sbx_1'' Running 0]"
  by code_simp

lemma contended_preempt: "fst (preempt contended ''desk'' (ranked ''sbx_2'' PhaseQueued 5)) = Inr True"
  by code_simp

lemma contended_ok: "objects_ok (co_objects contended)"
  "\<forall>obj \<in> snd ` set (co_objects contended). 0 \<le> st_Preemptions (sb_Status obj)"
  by code_simp+

theorem ordered_map_order_witness:
  "ordered contended ''desk'' (\<lambda>_. True)
   = ordered (one_slot [ranked ''sbx_2'' PhaseQueued 5, ranked ''sbx_1'' Running 0]) ''desk'' (\<lambda>_. True)"
  by (rule ordered_map_order [OF _ contended_ok(1)]) (simp add: contended_def one_slot_def sample_controller_def sample_over_def)

theorem ordered_ranks_witness:
  "mset [ranked ''sbx_2'' PhaseQueued 5] = mset (waiting_in ''desk'' (\<lambda>_. True) (co_objects contended))"
  using ordered_ranks [OF contended_ordered] by (rule conjunct1)


theorem preempt_makes_room_witness:
  "fits_without (snd (preempt contended ''desk'' (ranked ''sbx_2'' PhaseQueued 5))) ''desk'' (ranked ''sbx_2'' PhaseQueued 5) []"
  by (rule preempt_makes_room [OF _ contended_ok]) (metis contended_preempt prod.collapse)

end
