(* ===== verification/Scheduler_Pass.thy ===== *)
theory Scheduler_Pass
  imports Scheduler_Facts
begin

text \<open>
  One pass of the scheduler over one environment, as a sequence of heads: it ends, the priorities it
  tries never rise, and a sandbox it has placed is not stopped again before it ends. Each holds as long
  as nothing joins a queue of the environment while the pass has released its lock, which is the
  contract \<open>quiet\<close> of the parameter \<open>rz\<close>; \<open>pass_stops_what_it_placed\<close> is a pass where a create
  answered in that window makes the pass stop the sandbox it had just placed.
\<close>

section \<open>Seats\<close>

definition objs :: "'w Controller \<Rightarrow> Sandbox set" where
  "objs c = snd ` set (co_objects c)"

text \<open>The same sandbox with the same scheduling: its id, its queue and its priority.\<close>

definition same_seat :: "Sandbox \<Rightarrow> Sandbox \<Rightarrow> bool" where
  "same_seat a b \<longleftrightarrow> st_ID (sb_Status a) = st_ID (sb_Status b) \<and> sp_Scheduling (sb_Spec a) = sp_Scheduling (sb_Spec b)"

lemma same_seatD:
  assumes "same_seat a b"
  shows "st_ID (sb_Status a) = st_ID (sb_Status b)" "priority_of a = priority_of b" "queue_of a = queue_of b"
  using assms by (simp_all add: same_seat_def priority_of_def queue_of_def)

lemma same_seat_refl [simp]: "same_seat a a"
  by (simp add: same_seat_def)

lemma same_seat_trans: "same_seat a b \<Longrightarrow> same_seat b c \<Longrightarrow> same_seat a c"
  by (simp add: same_seat_def)

text \<open>Every sandbox was there before, and one that waits now waited before or has a priority below \<open>p\<close>.\<close>

definition stops_below :: "string \<Rightarrow> int \<Rightarrow> 'w Controller \<Rightarrow> 'w Controller \<Rightarrow> bool" where
  "stops_below environment p c c' \<longleftrightarrow>
     (\<forall>b \<in> objs c'. \<exists>a \<in> objs c. same_seat a b
        \<and> (waits_on environment b \<longrightarrow> waits_on environment a \<or> priority_of a < p))"

lemma stops_below_same: "objs c' = objs c \<Longrightarrow> stops_below environment p c c'"
  unfolding stops_below_def using same_seat_refl by blast

lemma stops_below_trans:
  assumes "stops_below environment p c c1" and "stops_below environment p c1 c2"
  shows "stops_below environment p c c2"
  unfolding stops_below_def
proof
  fix b assume "b \<in> objs c2"
  then obtain a1 where a1: "a1 \<in> objs c1" "same_seat a1 b" "waits_on environment b \<longrightarrow> waits_on environment a1 \<or> priority_of a1 < p"
    using assms(2) unfolding stops_below_def by blast
  then obtain a where "a \<in> objs c" "same_seat a a1" "waits_on environment a1 \<longrightarrow> waits_on environment a \<or> priority_of a < p"
    using assms(1) unfolding stops_below_def by blast
  with a1 show "\<exists>a \<in> objs c. same_seat a b \<and> (waits_on environment b \<longrightarrow> waits_on environment a \<or> priority_of a < p)"
    using same_seat_trans same_seatD(2) by metis
qed

text \<open>A write of one sandbox in a seat that is already taken.\<close>

lemma snd_update: "snd ` set (AList.update k v m) \<subseteq> insert v (snd ` set m)"
  by (induction m) auto

lemma stops_below_persist:
  assumes "stops_below environment p c c1" and "a \<in> objs c" and "same_seat a b"
    and "waits_on environment b \<longrightarrow> waits_on environment a \<or> priority_of a < p"
  shows "stops_below environment p c (snd (persist c1 b mutation))"
proof -
  obtain e c2 where r: "persist c1 b mutation = (e, c2)" by (cases "persist c1 b mutation")
  have "objs c2 \<subseteq> insert b (objs c1)"
    using persist_nil [of c1 b mutation c2] persist_err [of c1 b mutation _ c2] r
      snd_update [of "st_ID (sb_Status b)" b "co_objects c1"]
    by (cases e) (auto simp: objs_def)
  with assms r show ?thesis unfolding stops_below_def by auto
qed

section \<open>What the steps of a pass do to the seats\<close>

lemma makeRoom_objects: "co_objects (snd (makeRoom c environment obj entries)) = co_objects c"
  by (auto simp: makeRoom_def Let_def split: sum.splits prod.splits option.splits)

lemma poolEntries_objects: "co_objects (snd (poolEntries c environment)) = co_objects c"
  by (auto simp: poolEntries_def split: sum.splits prod.splits)

lemma requeue_stops:
  assumes "v \<in> objs c" and "priority_of v < p" and "objects_ok (co_objects c1)" and "stops_below environment p c c1"
  shows "stops_below environment p c (snd (requeue c1 d v)) \<and> objects_ok (co_objects (snd (requeue c1 d v)))"
proof -
  obtain e w where st: "dr_Stop d (st_ID (sb_Status v)) (co_world c1) = (e, w)"
    by (cases "dr_Stop d (st_ID (sb_Status v)) (co_world c1)")
  show ?thesis
  proof (cases e)
    case (Some x)
    have "stops_below environment p c (c1\<lparr>co_world := w\<rparr>)"
      using assms(4) by (simp add: stops_below_def objs_def)
    with Some st assms(3) show ?thesis by (simp add: requeue_def)
  next
    case None
    obtain r c2 where r: "refresh (c1\<lparr>co_world := w\<rparr>) v = (r, c2)" by (cases "refresh (c1\<lparr>co_world := w\<rparr>) v")
    let ?out = "case r of Inl _ \<Rightarrow> v | Inr out \<Rightarrow> out"
    obtain w' where c2: "c2 = c1\<lparr>co_world := w'\<rparr>" using refresh_frame [OF r] by auto
    have "identity ?out = identity v"
      using r refresh_identity by (auto split: sum.splits)
    then have q: "requeue_of v (requeued_as (now_of c2) ?out)" by (rule requeue_of_as)
    have res: "requeue c1 d v = persist c2 (requeued_as (now_of c2) ?out) MutationStopped"
      using st None r by (simp add: requeue_def split: sum.splits)
    have "stops_below environment p c c2" using assms(4) c2 by (simp add: stops_below_def objs_def)
    moreover have "same_seat v (requeued_as (now_of c2) ?out)" using q by (simp add: requeue_of_def same_seat_def)
    ultimately show ?thesis
      unfolding res using assms(1-3) c2 by (simp add: stops_below_persist persist_objects_ok)
  qed
qed

lemma requeue_all_stops:
  assumes "\<forall>v \<in> set vs. v \<in> objs c \<and> priority_of v < p" and "objects_ok (co_objects c1)" and "stops_below environment p c c1"
  shows "stops_below environment p c (snd (requeue_all c1 d vs)) \<and> objects_ok (co_objects (snd (requeue_all c1 d vs)))"
  using assms
proof (induction vs arbitrary: c1)
  case (Cons v vs)
  obtain e c2 where r: "requeue c1 d v = (e, c2)" by (cases "requeue c1 d v")
  have "stops_below environment p c c2 \<and> objects_ok (co_objects c2)"
    using requeue_stops [of v c p c1 environment d] Cons.prems r by simp
  with Cons r show ?case by (cases e) auto
qed simp

lemma preempt_stops:
  assumes "objects_ok (co_objects c)"
  shows "stops_below environment (priority_of head) c (snd (preempt c environment head))
    \<and> objects_ok (co_objects (snd (preempt c environment head)))"
proof -
  have same: "stops_below environment (priority_of head) c c" by (rule stops_below_same) simp
  show ?thesis
  proof (cases "victims c environment head")
    case (Inl e)
    with same assms show ?thesis by (simp add: preempt_def)
  next
    case (Inr vs)
    have "\<forall>v \<in> set vs. v \<in> objs c \<and> priority_of v < priority_of head"
      unfolding objs_def using victims_may_stop [OF Inr] may_stopD by blast
    then have all: "stops_below environment (priority_of head) c c' \<and> objects_ok (co_objects c')"
      if "requeue_all c d vs = (e, c')" for d e c'
      using requeue_all_stops [OF _ assms same, of vs d] that by simp
    then show ?thesis
      using Inr same assms by (auto simp: preempt_def split: sum.splits prod.splits option.splits)
  qed
qed

lemma fit_stops:
  assumes "objects_ok (co_objects c)"
  shows "stops_below environment (priority_of head) c (snd (fit c environment head))
    \<and> objects_ok (co_objects (snd (fit c environment head)))"
proof -
  obtain entries c0 where e: "poolEntries c environment = (entries, c0)" by (cases "poolEntries c environment")
  obtain r c1 where m: "makeRoom c0 environment head entries = (r, c1)" by (cases "makeRoom c0 environment head entries")
  have o1: "co_objects c1 = co_objects c"
    using makeRoom_objects [of c0 environment head entries] poolEntries_objects [of c environment] e m by simp
  have s1: "stops_below environment (priority_of head) c c1"
    using o1 by (intro stops_below_same) (simp add: objs_def)
  obtain r2 c2 where p: "preempt c1 environment head = (r2, c2)" by (cases "preempt c1 environment head")
  have s2: "stops_below environment (priority_of head) c c2" "objects_ok (co_objects c2)"
    using preempt_stops [of c1 environment head] stops_below_trans [OF s1] p o1 assms by auto
  obtain entries' c3 where e3: "poolEntries c2 environment = (entries', c3)" by (cases "poolEntries c2 environment")
  obtain r4 c4 where m4: "makeRoom c3 environment head entries' = (r4, c4)" by (cases "makeRoom c3 environment head entries'")
  have o4: "co_objects c4 = co_objects c2"
    using makeRoom_objects [of c3 environment head entries'] poolEntries_objects [of c2 environment] e3 m4 by simp
  then have s4: "stops_below environment (priority_of head) c c4"
    using s2(1) by (simp add: stops_below_def objs_def)
  show ?thesis
    using s1 s2 s4 o1 o4 assms e m p e3 m4
    by (auto simp: fit_def split: sum.splits bool.splits)
qed

text \<open>What the driver's half of a create leaves: no sandbox that was not there, none with another
  scheduling, and none that waits and did not.\<close>

definition quiet :: "string \<Rightarrow> 'w realizer \<Rightarrow> bool" where
  "quiet environment rz \<longleftrightarrow>
     (\<forall>c vid. objects_ok (co_objects c) \<longrightarrow> objects_ok (co_objects (snd (rz c vid)))
        \<and> (\<forall>b \<in> objs (snd (rz c vid)). \<exists>a \<in> objs c. same_seat a b \<and> (waits_on environment b \<longrightarrow> waits_on environment a)))"

lemma quietD:
  assumes "quiet environment rz" and "objects_ok (co_objects c)"
  shows "objects_ok (co_objects (snd (rz c vid)))" "stops_below environment p c (snd (rz c vid))"
  using assms unfolding quiet_def stops_below_def by blast+

lemma resume_stops:
  assumes "head \<in> objs c" and "waits_on environment head" and "objects_ok (co_objects c1)" and "stops_below environment p c c1"
  shows "stops_below environment p c (snd (resume c1 head)) \<and> objects_ok (co_objects (snd (resume c1 head)))"
proof -
  have world: "stops_below environment p c (c1\<lparr>co_world := w\<rparr>)" for w
    using assms(4) by (simp add: stops_below_def objs_def)
  have wr: "stops_below environment p c (snd (persist (c1\<lparr>co_world := w\<rparr>) b m))
      \<and> objects_ok (co_objects (snd (persist (c1\<lparr>co_world := w\<rparr>) b m)))"
    if "identity b = identity head" for w b m
    using that assms(1-3) world
    by (intro conjI stops_below_persist [where a = head] persist_objects_ok) (auto simp: identity_def same_seat_def)
  show ?thesis
  proof (cases "driverFor c1 (st_Environment (sb_Status head))")
    case (Inl e)
    with assms show ?thesis by (simp add: resume_def)
  next
    case (Inr d)
    obtain e w where s: "dr_Start d (st_ID (sb_Status head)) (co_world c1) = (e, w)"
      by (cases "dr_Start d (st_ID (sb_Status head)) (co_world c1)")
    obtain r c2 where r: "refresh (c1\<lparr>co_world := w\<rparr>) (with_phase Stopped head) = (r, c2)"
      by (cases "refresh (c1\<lparr>co_world := w\<rparr>) (with_phase Stopped head)")
    obtain w' where c2: "c2 = c1\<lparr>co_world := w'\<rparr>" using refresh_frame [OF r] by auto
    show ?thesis
    proof (cases e)
      case (Some x)
      then have "resume c1 head
          = (if errors_Is x DriverNotFound
             then persist (c1\<lparr>co_world := w\<rparr>) (with_reason ReasonLost (with_phase PhaseLost head)) MutationLost
             else (Some x, c1\<lparr>co_world := w\<rparr>))"
        using Inr s by (simp add: resume_def)
      then show ?thesis
        using wr [of "with_reason ReasonLost (with_phase PhaseLost head)" w MutationLost] world [of w] assms(3) by simp
    next
      case None
      let ?out = "with_condition (scheduledCondition False (now_of c2))
          (case r of Inl _ \<Rightarrow> with_reason [] (with_phase Running (with_phase Stopped head)) | Inr rd \<Rightarrow> rd)"
      have res: "resume c1 head = persist c2 ?out (phaseMutation (st_Phase (sb_Status ?out)))"
        using Inr s None r by (cases r) (simp_all add: resume_def Let_def)
      have "identity ?out = identity head"
        using refresh_identity [of "c1\<lparr>co_world := w\<rparr>" "with_phase Stopped head"] r by (cases r) simp_all
      then show ?thesis unfolding res c2 by (rule wr)
    qed
  qed
qed

lemma placeQueued_stops:
  assumes "quiet environment rz" and "head \<in> objs c" and "waits_on environment head" and "objects_ok (co_objects c1)"
    and "stops_below environment p c c1"
  shows "stops_below environment p c (snd (placeQueued rz c1 head)) \<and> objects_ok (co_objects (snd (placeQueued rz c1 head)))"
proof (cases "requeued head")
  case True
  then show ?thesis using resume_stops [OF assms(2-5)] by (simp add: placeQueued_def)
next
  case False
  obtain e c2 where r: "persist c1 (with_phase Pending head) MutationStatus = (e, c2)"
    by (cases "persist c1 (with_phase Pending head) MutationStatus")
  have s: "stops_below environment p c c2" "objects_ok (co_objects c2)"
    using stops_below_persist [OF assms(5,2), of "with_phase Pending head" MutationStatus] assms(3)
      persist_objects_ok [OF assms(4), of "with_phase Pending head" MutationStatus] r
    by (simp_all add: same_seat_def with_phase_def)
  have "stops_below environment p c (snd (rz c2 vid))" "objects_ok (co_objects (snd (rz c2 vid)))" for vid
    using stops_below_trans [OF s(1)] quietD [OF assms(1) s(2)] by blast+
  with s r False assms show ?thesis
    by (auto simp: placeQueued_def split: sum.splits option.splits)
qed

section \<open>One iteration\<close>

inductive pass_step :: "'w realizer \<Rightarrow> string \<Rightarrow> 'w pass \<Rightarrow> Sandbox \<Rightarrow> 'w pass \<Rightarrow> bool" for rz environment where
  "open_waiting environment p = Inr (head # rest) \<Longrightarrow> pass_step rz environment p head (try_head rz environment p head)"

inductive_cases pass_stepE: "pass_step rz environment p head q"

lemma open_waiting_head:
  assumes "open_waiting environment p = Inr (head # rest)"
  shows "head \<in> objs (ps_ctl p)" "waits_on environment head" "queue_of head \<notin> set (ps_closed p)"
    "\<forall>b \<in> objs (ps_ctl p). waits_on environment b \<and> queue_of b \<notin> set (ps_closed p) \<longrightarrow> priority_of b \<le> priority_of head"
proof -
  let ?keep = "\<lambda>obj. queue_of obj \<notin> set (ps_closed p)" and ?c = "ps_ctl p"
  let ?cmp = "line_cmp (line_share environment (co_objects ?c))" and ?w = "waiting_in environment ?keep (co_objects ?c)"
  have l: "head # rest = sort_func ?cmp ?w"
    using assms by (simp add: open_waiting_def ordered_eq split: if_splits)
  have mem: "x \<in> set ?w \<longleftrightarrow> x \<in> objs ?c \<and> waits_on environment x \<and> ?keep x" for x
    by (auto simp: waiting_in_def objs_def)
  have "head \<in> set ?w" using arg_cong [OF l, of set] by auto
  then show "head \<in> objs ?c" "waits_on environment head" "queue_of head \<notin> set (ps_closed p)"
    by (simp_all add: mem)
  show "\<forall>b \<in> objs ?c. waits_on environment b \<and> queue_of b \<notin> set (ps_closed p) \<longrightarrow> priority_of b \<le> priority_of head"
  proof (intro ballI impI)
    fix b assume "b \<in> objs ?c" "waits_on environment b \<and> queue_of b \<notin> set (ps_closed p)"
    then have "?cmp (hd (sort_func ?cmp ?w)) b \<le> 0"
      by (intro line.sort_func_head_least) (simp add: mem)
    then have "?cmp head b \<le> 0" using l by (metis list.sel(1))
    then show "priority_of b \<le> priority_of head" using line_cmp_ranks by blast
  qed
qed

lemma try_head_stops:
  assumes "quiet environment rz" and "head \<in> objs (ps_ctl p)" and "waits_on environment head" and "objects_ok (co_objects (ps_ctl p))"
  shows "stops_below environment (priority_of head) (ps_ctl p) (ps_ctl (try_head rz environment p head))
    \<and> objects_ok (co_objects (ps_ctl (try_head rz environment p head)))"
proof -
  have same: "stops_below environment (priority_of head) (ps_ctl p) (ps_ctl p)" by (rule stops_below_same) simp
  obtain r c1 where f: "fit (ps_ctl p) environment head = (r, c1)" by (cases "fit (ps_ctl p) environment head")
  have s: "stops_below environment (priority_of head) (ps_ctl p) c1" "objects_ok (co_objects c1)"
    using fit_stops [OF assms(4), of environment head] f by simp_all
  obtain e c2 where q: "placeQueued rz c1 head = (e, c2)" by (cases "placeQueued rz c1 head")
  have "stops_below environment (priority_of head) (ps_ctl p) c2 \<and> objects_ok (co_objects c2)"
    using placeQueued_stops [OF assms(1-3) s(2,1)] q by simp
  with same s f q assms(4) show ?thesis
    by (auto simp: try_head_def Let_def split: sum.splits bool.splits)
qed

text \<open>What an iteration adds: the head is tried, or its queue is closed, or both.\<close>

lemma try_head_progress:
  assumes "queue_of head \<notin> set (ps_closed p)"
  shows "set (ps_closed p) \<subseteq> set (ps_closed (try_head rz environment p head))"
    "set (ps_tried (try_head rz environment p head)) = insert (st_ID (sb_Status head)) (set (ps_tried p))"
    "st_ID (sb_Status head) \<in> set (ps_tried p) \<Longrightarrow> set (ps_closed (try_head rz environment p head)) = insert (queue_of head) (set (ps_closed p))"
    "set (ps_closed (try_head rz environment p head)) \<subseteq> insert (queue_of head) (set (ps_closed p))"
  by (auto simp: try_head_def Let_def split: sum.splits bool.splits prod.splits)

section \<open>The pass ends\<close>

definition pass_measure :: "string set \<Rightarrow> string set \<Rightarrow> 'w pass \<Rightarrow> nat" where
  "pass_measure ids qs p = card (ids - set (ps_tried p)) + card (qs - set (ps_closed p))"

lemma pass_measure_decreases:
  assumes "finite ids" "finite qs" "st_ID (sb_Status head) \<in> ids" "queue_of head \<in> qs" "queue_of head \<notin> set (ps_closed p)"
  shows "pass_measure ids qs (try_head rz environment p head) < pass_measure ids qs p"
proof -
  let ?q = "try_head rz environment p head" and ?i = "st_ID (sb_Status head)"
  note pr = try_head_progress [OF assms(5), where rz = rz and environment = environment]
  have le: "card (qs - set (ps_closed ?q)) \<le> card (qs - set (ps_closed p))"
    using pr(1) assms(2) by (intro card_mono) auto
  show ?thesis
  proof (cases "?i \<in> set (ps_tried p)")
    case True
    have "card (qs - insert (queue_of head) (set (ps_closed p))) < card (qs - set (ps_closed p))"
      using assms(2,4,5) by (intro psubset_card_mono) auto
    moreover have "insert ?i (set (ps_tried p)) = set (ps_tried p)" using True by auto
    ultimately show ?thesis using pr(2,3) True by (simp add: pass_measure_def)
  next
    case False
    have "card (ids - insert ?i (set (ps_tried p))) < card (ids - set (ps_tried p))"
      using assms(1,3) False by (intro psubset_card_mono) auto
    with le show ?thesis using pr(2) by (simp add: pass_measure_def)
  qed
qed

lemma pass_loop_returns:
  assumes "quiet environment rz" and "finite ids" and "finite qs"
    and "objects_ok (co_objects (ps_ctl p))" and "\<forall>b \<in> objs (ps_ctl p). st_ID (sb_Status b) \<in> ids \<and> queue_of b \<in> qs"
  shows "\<exists>e c. pass_loop rz environment p = Some (e, c) \<and> objects_ok (co_objects c)"
  using assms(4,5)
proof (induction "pass_measure ids qs p" arbitrary: p rule: less_induct)
  case less
  show ?case
  proof (cases "open_waiting environment p")
    case (Inl e)
    with less.prems show ?thesis by (simp add: pass_loop.simps [of rz environment p])
  next
    case (Inr l)
    show ?thesis
    proof (cases l)
      case Nil
      with Inr less.prems show ?thesis by (simp add: pass_loop.simps [of rz environment p])
    next
      case (Cons head rest)
      let ?q = "try_head rz environment p head"
      note h = open_waiting_head [OF Inr [unfolded Cons]]
      have s: "stops_below environment (priority_of head) (ps_ctl p) (ps_ctl ?q)" "objects_ok (co_objects (ps_ctl ?q))"
        using try_head_stops [OF assms(1) h(1,2) less.prems(1)] by simp_all
      have "st_ID (sb_Status b) \<in> ids \<and> queue_of b \<in> qs" if "b \<in> objs (ps_ctl ?q)" for b
        using s(1) that less.prems(2) same_seatD unfolding stops_below_def by metis
      moreover have "pass_measure ids qs ?q < pass_measure ids qs p"
        using h less.prems(2) by (intro pass_measure_decreases assms(2,3)) auto
      ultimately have "\<exists>e c. pass_loop rz environment ?q = Some (e, c) \<and> objects_ok (co_objects c)"
        using less.hyps s(2) by blast
      with Inr Cons show ?thesis by (simp add: pass_loop.simps [of rz environment p])
    qed
  qed
qed

lemma projectSpawnUsed_objects_ok: "objects_ok (co_objects c) \<Longrightarrow> objects_ok (co_objects (snd (projectSpawnUsed c pid)))"
  by (auto simp: projectSpawnUsed_def persist_objects_ok split: option.splits prod.splits sum.splits)

lemma credit_objects_ok: "objects_ok (co_objects c) \<Longrightarrow> objects_ok (co_objects (snd (credit c parent)))"
  by (auto simp: credit_def projectSpawnUsed_objects_ok split: option.splits prod.splits)

lemma expire_objects_ok: "objects_ok (co_objects c) \<Longrightarrow> objects_ok (co_objects (snd (expire c obj)))"
  using persist_objects_ok [of c "with_reason ReasonStartDeadline (with_phase PhaseFailed obj)" MutationFailed]
  by (cases "persist c (with_reason ReasonStartDeadline (with_phase PhaseFailed obj)) MutationFailed")
    (simp add: expire_def credit_objects_ok case_prod_beta)

lemma expire_all_objects_ok: "objects_ok (co_objects c) \<Longrightarrow> objects_ok (co_objects (snd (expire_all c now l failed)))"
proof (induction l arbitrary: c failed)
  case (Cons obj l)
  then show ?case
    using expire_objects_ok [OF Cons.prems, of obj] by (cases "expire c obj") auto
qed simp

lemma realize_all_objects_ok:
  "quiet environment rz \<Longrightarrow> objects_ok (co_objects c) \<Longrightarrow> objects_ok (co_objects (snd (realize_all rz c ids failed)))"
proof (induction ids arbitrary: c failed)
  case (Cons vid ids)
  then show ?case
    using quietD(1) [OF Cons.prems, of vid] by (cases "rz c vid") auto
qed simp

lemma scheduleEnvironment_returns:
  assumes "quiet environment rz" and "objects_ok (co_objects c)"
  shows "\<exists>e c'. scheduleEnvironment rz c environment now = Some (e, c') \<and> objects_ok (co_objects c')"
proof (cases "ordered c environment (\<lambda>_. True)")
  case (Inl e)
  with assms show ?thesis by (simp add: scheduleEnvironment_def)
next
  case (Inr l)
  obtain f c1 where e: "expire_all c now l None = (f, c1)" by (cases "expire_all c now l None")
  obtain f' c2 where r: "realize_all rz c1 (placedOn c1 environment) f = (f', c2)"
    by (cases "realize_all rz c1 (placedOn c1 environment) f")
  have ok1: "objects_ok (co_objects c1)" using expire_all_objects_ok [OF assms(2), of now l None] e by simp
  have ok2: "objects_ok (co_objects c2)"
    using realize_all_objects_ok [OF assms(1) ok1, of "placedOn c1 environment" f] r by simp
  let ?p = "\<lparr>ps_closed = [], ps_tried = [], ps_failed = f', ps_ctl = c2\<rparr>"
  have "\<exists>e c'. pass_loop rz environment ?p = Some (e, c') \<and> objects_ok (co_objects c')"
    by (rule pass_loop_returns [OF assms(1), of "(\<lambda>b. st_ID (sb_Status b)) ` objs c2" "queue_of ` objs c2"])
      (simp_all add: ok2 objs_def)
  with Inr e r ok1 show ?thesis by (simp add: scheduleEnvironment_def)
qed


section \<open>What a pass tries and stops\<close>

inductive pass_run :: "'w realizer \<Rightarrow> string \<Rightarrow> 'w pass \<Rightarrow> Sandbox list \<Rightarrow> 'w pass \<Rightarrow> bool" for rz environment where
  pass_done: "pass_run rz environment p [] p"
| pass_more: "pass_step rz environment p head q \<Longrightarrow> pass_run rz environment q heads r \<Longrightarrow> pass_run rz environment p (head # heads) r"

definition waits_in :: "string \<Rightarrow> 'w pass \<Rightarrow> string \<Rightarrow> bool" where
  "waits_in environment p vid \<longleftrightarrow> (\<exists>b \<in> objs (ps_ctl p). st_ID (sb_Status b) = vid \<and> waits_on environment b)"

text \<open>Between iterations: no open queue holds a priority above \<open>bound\<close>, and no tried sandbox has one below.\<close>

definition pass_inv :: "string \<Rightarrow> int \<Rightarrow> 'w pass \<Rightarrow> bool" where
  "pass_inv environment bound p \<longleftrightarrow> objects_ok (co_objects (ps_ctl p))
     \<and> (\<forall>b \<in> objs (ps_ctl p). waits_on environment b \<and> queue_of b \<notin> set (ps_closed p) \<longrightarrow> priority_of b \<le> bound)
     \<and> (\<forall>b \<in> objs (ps_ctl p). st_ID (sb_Status b) \<in> set (ps_tried p) \<longrightarrow> bound \<le> priority_of b)"

lemma same_object: "objects_ok (co_objects c) \<Longrightarrow> a \<in> objs c \<Longrightarrow> b \<in> objs c \<Longrightarrow> st_ID (sb_Status a) = st_ID (sb_Status b) \<Longrightarrow> a = b"
  using objects_ok_held [of "co_objects c" a] objects_ok_held [of "co_objects c" b] unfolding objs_def
  by (metis option.inject)

lemma pass_step_inv:
  assumes "quiet environment rz" and "pass_inv environment bound p" and "pass_step rz environment p head q"
  shows "priority_of head \<le> bound" "pass_inv environment (priority_of head) q"
    "set (ps_tried q) = insert (st_ID (sb_Status head)) (set (ps_tried p))"
    "vid \<in> set (ps_tried p) \<Longrightarrow> waits_in environment q vid \<Longrightarrow> waits_in environment p vid"
proof -
  from assms(3) obtain rest where ow: "open_waiting environment p = Inr (head # rest)" and q: "q = try_head rz environment p head"
    by (auto elim: pass_stepE)
  note h = open_waiting_head [OF ow]
  have ok: "objects_ok (co_objects (ps_ctl p))" using assms(2) by (simp add: pass_inv_def)
  have s: "stops_below environment (priority_of head) (ps_ctl p) (ps_ctl q)" "objects_ok (co_objects (ps_ctl q))"
    using try_head_stops [OF assms(1) h(1,2) ok] q by simp_all
  have cl: "set (ps_closed p) \<subseteq> set (ps_closed q)" and tr: "set (ps_tried q) = insert (st_ID (sb_Status head)) (set (ps_tried p))"
    unfolding q using try_head_progress(1,2) [OF h(3), of rz environment] by simp_all
  show le: "priority_of head \<le> bound" using assms(2) h(1-3) by (simp add: pass_inv_def)
  show "set (ps_tried q) = insert (st_ID (sb_Status head)) (set (ps_tried p))" by (rule tr)
  have seat: "\<exists>a \<in> objs (ps_ctl p). same_seat a b \<and> (waits_on environment b \<longrightarrow> waits_on environment a \<or> priority_of a < priority_of head)"
    if "b \<in> objs (ps_ctl q)" for b
    using s(1) that unfolding stops_below_def by blast
  have "priority_of b \<le> priority_of head"
    if w: "b \<in> objs (ps_ctl q)" "waits_on environment b" "queue_of b \<notin> set (ps_closed q)" for b
  proof -
    obtain a where a: "a \<in> objs (ps_ctl p)" "same_seat a b" "waits_on environment a \<or> priority_of a < priority_of head"
      using seat [OF w(1)] w(2) by blast
    have "queue_of a \<notin> set (ps_closed p)" using w(3) cl same_seatD(3) [OF a(2)] by auto
    with h(4) a show ?thesis using same_seatD(2) [OF a(2)] by fastforce
  qed
  moreover have "priority_of head \<le> priority_of b"
    if t: "b \<in> objs (ps_ctl q)" "st_ID (sb_Status b) \<in> set (ps_tried q)" for b
  proof -
    obtain a where a: "a \<in> objs (ps_ctl p)" "same_seat a b" using seat [OF t(1)] by blast
    show ?thesis
    proof (cases "st_ID (sb_Status b) = st_ID (sb_Status head)")
      case True
      then have "a = head" using same_object [OF ok a(1) h(1)] same_seatD(1) [OF a(2)] by simp
      then show ?thesis using same_seatD(2) [OF a(2)] by simp
    next
      case False
      then have "bound \<le> priority_of a"
        using t(2) tr a same_seatD(1) [OF a(2)] assms(2) by (simp add: pass_inv_def)
      then show ?thesis using le same_seatD(2) [OF a(2)] by simp
    qed
  qed
  ultimately show "pass_inv environment (priority_of head) q"
    using s(2) by (simp add: pass_inv_def)
  show "waits_in environment p vid" if v: "vid \<in> set (ps_tried p)" and w: "waits_in environment q vid"
  proof -
    obtain b where b: "b \<in> objs (ps_ctl q)" "st_ID (sb_Status b) = vid" "waits_on environment b"
      using w by (auto simp: waits_in_def)
    then obtain a where a: "a \<in> objs (ps_ctl p)" "same_seat a b" "waits_on environment a \<or> priority_of a < priority_of head"
      using seat by blast
    have "bound \<le> priority_of a"
      using a v b(2) same_seatD(1) [OF a(2)] assms(2) by (simp add: pass_inv_def)
    then show ?thesis using a le b(2) same_seatD(1) [OF a(2)] by (auto simp: waits_in_def)
  qed
qed

lemma pass_inv_start:
  assumes "objects_ok (co_objects (ps_ctl p))" and "ps_tried p = []"
  shows "\<exists>bound. pass_inv environment bound p"
proof -
  have "finite (priority_of ` objs (ps_ctl p))" by (simp add: objs_def)
  then have "\<forall>b \<in> objs (ps_ctl p). priority_of b \<le> Max (priority_of ` objs (ps_ctl p))" by simp
  with assms show ?thesis by (auto simp: pass_inv_def)
qed

lemma pass_run_inv:
  assumes "pass_run rz environment p heads q" and "quiet environment rz" and "pass_inv environment bound p"
  shows "(\<exists>bound'. pass_inv environment bound' q) \<and> (\<forall>h \<in> set heads. priority_of h \<le> bound)
    \<and> sorted_wrt (\<lambda>a b. priority_of b \<le> priority_of a) heads
    \<and> set (ps_tried q) = (\<lambda>h. st_ID (sb_Status h)) ` set heads \<union> set (ps_tried p)
    \<and> (\<forall>vid \<in> set (ps_tried p). waits_in environment q vid \<longrightarrow> waits_in environment p vid)"
  using assms
proof (induction arbitrary: bound rule: pass_run.induct)
  case (pass_done p)
  then show ?case by auto
next
  case (pass_more p head q heads r)
  note st = pass_step_inv [OF pass_more.prems(1,2) pass_more.hyps(1)]
  note ih = pass_more.IH [OF pass_more.prems(1) st(2)]
  from ih st(1,3,4) show ?case by (auto intro: order_trans)
qed

lemma pass_run_loop: "pass_run rz environment p heads q \<Longrightarrow> pass_loop rz environment p = pass_loop rz environment q"
proof (induction rule: pass_run.induct)
  case (pass_more p head q heads r)
  from pass_more.hyps(1) have "pass_loop rz environment p = pass_loop rz environment q"
    by (elim pass_stepE) (simp add: pass_loop.simps [of rz environment p])
  then show ?case using pass_more.IH by simp
qed simp

lemma pass_run_append:
  "pass_run rz environment p heads q \<Longrightarrow> pass_run rz environment q later r \<Longrightarrow> pass_run rz environment p (heads @ later) r"
  by (induction rule: pass_run.induct) (auto intro: pass_more)


subsection \<open>Witnesses\<close>

text \<open>A driver that starts what it is asked for at once, and nobody else at work.\<close>

definition started :: "unit realizer" where
  "started c vid =
     (case map_of (co_objects c) vid of
        None \<Rightarrow> (None, c)
      | Some obj \<Rightarrow> persist c (with_phase Running obj) MutationStarted)"

lemma with_phase_seat: "same_seat obj (with_phase phase obj)"
  by (simp add: same_seat_def with_phase_def priority_of_def queue_of_def)

lemma started_quiet: "quiet environment started"
  unfolding quiet_def
proof (intro allI impI)
  fix c :: "unit Controller" and vid
  assume ok: "objects_ok (co_objects c)"
  show "objects_ok (co_objects (snd (started c vid)))
    \<and> (\<forall>b \<in> objs (snd (started c vid)). \<exists>a \<in> objs c. same_seat a b \<and> (waits_on environment b \<longrightarrow> waits_on environment a))"
  proof (cases "map_of (co_objects c) vid")
    case None
    then show ?thesis using ok by (auto simp: started_def intro: same_seat_refl)
  next
    case (Some obj)
    let ?b = "with_phase Running obj"
    have a: "obj \<in> objs c" using Some by (force simp: objs_def dest: map_of_SomeD)
    obtain e c1 where r: "persist c ?b MutationStarted = (e, c1)" by (cases "persist c ?b MutationStarted")
    have "objs c1 \<subseteq> insert ?b (objs c)"
      using persist_nil [of c ?b MutationStarted c1] persist_err [of c ?b MutationStarted _ c1] r
        snd_update [of "st_ID (sb_Status ?b)" ?b "co_objects c"]
      by (cases e) (auto simp: objs_def)
    moreover have "\<not> waits_on environment ?b" by (simp add: waits_on_def with_phase_def Running_def PhaseQueued_def)
    ultimately show ?thesis
      using persist_objects_ok [OF ok, of ?b MutationStarted] a r Some with_phase_seat same_seat_refl
      by (fastforce simp: started_def)
  qed
qed

definition line_of_two :: "unit pass" where
  "line_of_two = \<lparr>ps_closed = [], ps_tried = [], ps_failed = None,
     ps_ctl = one_slot [ranked ''sbx_1'' PhaseQueued 0, ranked ''sbx_2'' PhaseQueued 5]\<rparr>"


lemma line_of_two_head: "open_waiting ''desk'' line_of_two = Inr [ranked ''sbx_2'' PhaseQueued 5, ranked ''sbx_1'' PhaseQueued 0]"
  by code_simp

definition after_two :: "unit pass" where
  "after_two = try_head started ''desk'' line_of_two (ranked ''sbx_2'' PhaseQueued 5)"

lemma after_two_head: "open_waiting ''desk'' after_two = Inr [ranked ''sbx_1'' PhaseQueued 0]"
  by code_simp

lemma after_two_placed: "\<not> waits_in ''desk'' after_two ''sbx_2''"
  by code_simp


section \<open>A create answered while the lock is released\<close>

text \<open>The driver starts the sandbox, and meanwhile a create of a higher priority finds no room and is
  answered as queued.\<close>

definition overtaken :: "unit realizer" where
  "overtaken c vid = (case started c vid of (e, c1) \<Rightarrow> (e, snd (persist c1 (ranked ''sbx_9'' PhaseQueued 9) MutationCreated)))"

definition line_of_one :: "unit pass" where
  "line_of_one = \<lparr>ps_closed = [], ps_tried = [], ps_failed = None, ps_ctl = one_slot [ranked ''sbx_1'' PhaseQueued 0]\<rparr>"

definition after_one :: "unit pass" where
  "after_one = try_head overtaken ''desk'' line_of_one (ranked ''sbx_1'' PhaseQueued 0)"

lemma overtaken_heads:
  "open_waiting ''desk'' line_of_one = Inr [ranked ''sbx_1'' PhaseQueued 0]"
  "open_waiting ''desk'' after_one = Inr [ranked ''sbx_9'' PhaseQueued 9]"
  by code_simp+

theorem pass_stops_what_it_placed:
  "pass_step overtaken ''desk'' line_of_one (ranked ''sbx_1'' PhaseQueued 0) after_one
   \<and> pass_step overtaken ''desk'' after_one (ranked ''sbx_9'' PhaseQueued 9) (try_head overtaken ''desk'' after_one (ranked ''sbx_9'' PhaseQueued 9))
   \<and> \<not> waits_in ''desk'' after_one ''sbx_1''
   \<and> waits_in ''desk'' (try_head overtaken ''desk'' after_one (ranked ''sbx_9'' PhaseQueued 9)) ''sbx_1''"
proof (intro conjI)
  show "pass_step overtaken ''desk'' line_of_one (ranked ''sbx_1'' PhaseQueued 0) after_one"
    unfolding after_one_def by (rule pass_step.intros [OF overtaken_heads(1)])
  show "pass_step overtaken ''desk'' after_one (ranked ''sbx_9'' PhaseQueued 9) (try_head overtaken ''desk'' after_one (ranked ''sbx_9'' PhaseQueued 9))"
    by (rule pass_step.intros [OF overtaken_heads(2)])
  show "\<not> waits_in ''desk'' after_one ''sbx_1''" by code_simp
  show "waits_in ''desk'' (try_head overtaken ''desk'' after_one (ranked ''sbx_9'' PhaseQueued 9)) ''sbx_1''" by code_simp
qed

end
