(* ===== verification/Egress_Gateway.thy ===== *)
theory Egress_Gateway
  imports Egress_Map Manifest_Validate Quantity
begin

text \<open>
  The gateway role (\<^verbatim>\<open>internal/egressd\<close>): what one gateway knows (\<^verbatim>\<open>store.go\<close>), the decision in front of both
  doors (\<^verbatim>\<open>gate.go\<close>) and what is substituted where (\<^verbatim>\<open>secret.go\<close>). The substitution engine's registry and the
  check of a public address belong to a package outside the repository: the registry is a parameter
  \<open>rg\<close> of the operations over an arbitrary type of registries, and the check is \<open>public\<close>,
  a predicate of an address and its zone.
  \<^verbatim>\<open>net.ParseIP\<close> and \<^verbatim>\<open>net.SplitHostPort\<close> are modelled. The theorems say that whatever maps are pushed,
  replaced and purged, a connection is let through only with the credential of a map the gateway holds
  and only toward a name that map admits, and, with the compiler's theorem, only toward a name inside
  the boundary of the sandbox that holds the credential.
\<close>

section \<open>Addresses\<close>

text \<open>\<^verbatim>\<open>netip.ParseAddr\<close>: the bytes of a dotted address, and the sixteen bytes of an address with colons.\<close>

definition hex_digit :: "char \<Rightarrow> int option" where
  "hex_digit c =
     (if is_digit c then Some (digit_val c)
      else if CHR ''a'' \<le> c \<and> c \<le> CHR ''f'' then Some (of_char c - of_char CHR ''a'' + 10)
      else if CHR ''A'' \<le> c \<and> c \<le> CHR ''F'' then Some (of_char c - of_char CHR ''A'' + 10)
      else None)"

fun hex_run :: "string \<Rightarrow> int \<Rightarrow> nat \<Rightarrow> (int \<times> nat \<times> string) option" where
  "hex_run [] acc off = Some (acc, off, [])"
| "hex_run (c # s) acc off =
     (case hex_digit c of
        None \<Rightarrow> Some (acc, off, c # s)
      | Some d \<Rightarrow> if off > 3 then None else hex_run s (acc * 16 + d) (off + 1))"

definition ipv4_bytes :: "string \<Rightarrow> int list option" where
  "ipv4_bytes s = (if is_ipv4 s then Some (map dec_value (split_on (CHR ''.'') s)) else None)"

lemma hex_run_shorter: "hex_run s acc off = Some (v, n, rest) \<Longrightarrow> length rest + n = length s + off"
  by (induction s arbitrary: acc off) (auto split: option.splits if_splits)

text \<open>The loop over the fields: the bytes so far, where the ellipsis stands and what is left of the text.\<close>

function ipv6_fields :: "int list \<Rightarrow> nat option \<Rightarrow> string \<Rightarrow> (int list \<times> nat option \<times> string) option" where
  "ipv6_fields bytes ellipsis s =
     (if length bytes \<ge> 16 then Some (bytes, ellipsis, s)
      else case hex_run s 0 0 of
             None \<Rightarrow> None
           | Some (acc, off, rest) \<Rightarrow>
               if off = 0 then None
               else if rest \<noteq> [] \<and> hd rest = CHR ''.''
                    then if ellipsis = None \<and> length bytes \<noteq> 12 then None
                         else if length bytes + 4 > 16 then None
                         else (case ipv4_bytes s of None \<Rightarrow> None | Some b \<Rightarrow> Some (bytes @ b, ellipsis, []))
               else let bytes' = bytes @ [acc div 256, acc mod 256]
                    in if rest = [] then Some (bytes', ellipsis, [])
                       else if hd rest \<noteq> CHR '':'' then None
                       else if tl rest = [] then None
                       else let s' = tl rest
                            in if hd s' = CHR '':''
                               then if ellipsis \<noteq> None then None
                                    else if tl s' = [] then Some (bytes', Some (length bytes'), [])
                                    else ipv6_fields bytes' (Some (length bytes')) (tl s')
                               else ipv6_fields bytes' ellipsis s')"
  by pat_completeness auto

termination
  by (relation "measure (\<lambda>(bytes, ellipsis, s). length s)") (auto dest!: hex_run_shorter simp: neq_Nil_conv)

definition ipv6_bytes :: "string \<Rightarrow> int list option" where
  "ipv6_bytes s =
     (let (start, s1) = (if has_prefix s ''::'' then (Some 0, drop 2 s) else (None, s))
      in if start = Some 0 \<and> s1 = [] then Some (replicate 16 0)
         else case ipv6_fields [] start s1 of
                None \<Rightarrow> None
              | Some (bytes, ellipsis, rest) \<Rightarrow>
                  if rest \<noteq> [] then None
                  else if length bytes < 16
                       then (case ellipsis of
                               None \<Rightarrow> None
                             | Some e \<Rightarrow> Some (take e bytes @ replicate (16 - length bytes) 0 @ drop e bytes))
                  else if ellipsis \<noteq> None then None else Some bytes)"

text \<open>\<^verbatim>\<open>net.ParseIP\<close>: an address with a zone is none. A dotted address and its form inside IPv6 are one.\<close>

definition ParseIP :: "string \<Rightarrow> int list option" where
  "ParseIP s =
     (case find_index (\<lambda>c. c = CHR ''.'' \<or> c = CHR '':'' \<or> c = CHR ''%'') s of
        None \<Rightarrow> None
      | Some i \<Rightarrow>
          if s ! i = CHR ''.'' then map_option (\<lambda>b. replicate 10 0 @ [255, 255] @ b) (ipv4_bytes s)
          else if s ! i = CHR '':'' \<and> CHR ''%'' \<notin> set s then ipv6_bytes s
          else None)"

definition To4 :: "int list \<Rightarrow> int list option" where
  "To4 ip = (if take 12 ip = replicate 10 0 @ [255, 255] then Some (drop 12 ip) else None)"

definition IsLoopback :: "int list \<Rightarrow> bool" where
  "IsLoopback ip = (case To4 ip of Some b \<Rightarrow> b ! 0 = 127 | None \<Rightarrow> ip = replicate 15 0 @ [1])"

definition IsUnspecified :: "int list \<Rightarrow> bool" where
  "IsUnspecified ip \<longleftrightarrow> ip = replicate 10 0 @ [255, 255, 0, 0, 0, 0] \<or> ip = replicate 16 0"

definition IsLinkLocalUnicast :: "int list \<Rightarrow> bool" where
  "IsLinkLocalUnicast ip = (case To4 ip of Some b \<Rightarrow> b ! 0 = 169 \<and> b ! 1 = 254 | None \<Rightarrow> ip ! 0 = 254 \<and> ip ! 1 div 64 = 2)"

definition IsLinkLocalMulticast :: "int list \<Rightarrow> bool" where
  "IsLinkLocalMulticast ip =
     (case To4 ip of Some b \<Rightarrow> b ! 0 = 224 \<and> b ! 1 = 0 \<and> b ! 2 = 0 | None \<Rightarrow> ip ! 0 = 255 \<and> ip ! 1 mod 16 = 2)"

text \<open>\<^verbatim>\<open>strings.Trim(host, "[]")\<close>.\<close>

definition trim_brackets :: "string \<Rightarrow> string" where
  "trim_brackets s = (let b = (\<lambda>c. c = CHR ''['' \<or> c = CHR '']'') in rev (dropWhile b (rev (dropWhile b s))))"

definition isLocalTarget :: "string \<Rightarrow> bool" where
  "isLocalTarget host =
     (if to_lower host = ''localhost'' \<or> has_suffix (to_lower host) ''.localhost'' then True
      else case ParseIP (trim_brackets host) of
             None \<Rightarrow> False
           | Some ip \<Rightarrow> IsLoopback ip \<or> IsUnspecified ip \<or> IsLinkLocalUnicast ip \<or> IsLinkLocalMulticast ip)"

text \<open>\<^verbatim>\<open>netip.ParseAddr\<close>, with the zone of an address.\<close>

definition ParseAddr :: "string \<Rightarrow> (int list \<times> string) option" where
  "ParseAddr s =
     (case find_index (\<lambda>c. c = CHR ''.'' \<or> c = CHR '':'' \<or> c = CHR ''%'') s of
        None \<Rightarrow> None
      | Some i \<Rightarrow>
          if s ! i = CHR ''.'' then map_option (\<lambda>b. (b, [])) (ipv4_bytes s)
          else if s ! i = CHR '':''
               then (case cut_byte s (CHR ''%'') of (addr, zone, found) \<Rightarrow>
                       if found \<and> zone = [] then None else map_option (\<lambda>b. (b, zone)) (ipv6_bytes addr))
          else None)"

definition isNonPublicAddress :: "(int list \<times> string \<Rightarrow> bool) \<Rightarrow> string \<Rightarrow> bool" where
  "isNonPublicAddress public host = (case ParseAddr (trim_brackets host) of None \<Rightarrow> False | Some ip \<Rightarrow> \<not> public ip)"

section \<open>What is substituted\<close>

definition b64_char :: "nat \<Rightarrow> char" where
  "b64_char n = ''ABCDEFGHIJKLMNOPQRSTUVWXYZabcdefghijklmnopqrstuvwxyz0123456789+/'' ! n"

text \<open>\<^verbatim>\<open>base64.StdEncoding\<close>.\<close>

fun base64 :: "string \<Rightarrow> string" where
  "base64 [] = []"
| "base64 [a] = [b64_char (of_char a div 4), b64_char (of_char a mod 4 * 16), CHR ''='', CHR ''='']"
| "base64 [a, b] = [b64_char (of_char a div 4), b64_char (of_char a mod 4 * 16 + of_char b div 16),
     b64_char (of_char b mod 16 * 4), CHR ''='']"
| "base64 (a # b # c # s) = b64_char (of_char a div 4) # b64_char (of_char a mod 4 * 16 + of_char b div 16)
     # b64_char (of_char b mod 16 * 4 + of_char c div 64) # b64_char (of_char c mod 64) # base64 s"

definition SecretOAuthClientCredentials :: string where "SecretOAuthClientCredentials = ''oauth_client_credentials''"
definition SchemeBasic :: string where "SchemeBasic = ''basic''"

definition valueOf :: "Entry \<Rightarrow> string" where
  "valueOf e =
     (if ey_Kind e = SecretOAuthClientCredentials \<or> ey_Value e = [] then []
      else if ey_Scheme e \<noteq> SchemeBasic then ey_Value e
      else case cut_byte (ey_Value e) (CHR '':'') of (user, password, _) \<Rightarrow> base64 (user @ '':'' @ password))"

record resolver =
  rs_fingerprint :: string
  rs_OAuth :: OAuth
  rs_Value :: string

definition fingerprintOf :: "Entry \<Rightarrow> string" where
  "fingerprintOf e =
     (case ey_OAuth e of
        None \<Rightarrow> []
      | Some o' \<Rightarrow> oa_TokenURL o' @ [CHR 0x00] @ oa_Scope o' @ [CHR 0x00] @ oa_Audience o' @ [CHR 0x00] @ ey_Value e)"

text \<open>One entry of the substitution engine: a value it writes as it stands, or a source it mints one from.\<close>

datatype source = Static string | Minted OAuth string

record engine_entry =
  ge_Placeholder :: string
  ge_AllowedHosts :: "string list"
  ge_SubstituteBody :: bool
  ge_Resolve :: source

record 'r Registry =
  rg_Set :: "string \<Rightarrow> engine_entry list \<Rightarrow> 'r \<Rightarrow> 'r"
  rg_Delete :: "string \<Rightarrow> 'r \<Rightarrow> 'r"
  rg_HostHasSecret :: "'r \<Rightarrow> string \<Rightarrow> string \<Rightarrow> bool"

section \<open>What one gateway knows\<close>

record 'r store =
  gs_maps :: "(string \<times> Map) list"
  gs_byCredential :: "(string \<times> string) list"
  gs_registry :: 'r
  gs_entries :: "(string \<times> (string \<times> engine_entry) list) list"
  gs_resolvers :: "(string \<times> (string \<times> resolver) list) list"
  gs_reported :: "(string \<times> gotime) list"

definition newStore :: "'r \<Rightarrow> 'r store" where
  "newStore registry = \<lparr>gs_maps = [], gs_byCredential = [], gs_registry = registry, gs_entries = [], gs_resolvers = [],
     gs_reported = []\<rparr>"

definition table :: "(string \<times> 'a list) list \<Rightarrow> string \<Rightarrow> 'a list" where
  "table m k = (case map_of m k of None \<Rightarrow> [] | Some t \<Rightarrow> t)"

definition resolverFor :: "string \<Rightarrow> Entry \<Rightarrow> 'r store \<Rightarrow> source option \<times> 'r store" where
  "resolverFor who e s =
     (case ey_OAuth e of
        None \<Rightarrow> (None, s)
      | Some o' \<Rightarrow>
          if ey_Value e = [] then (None, s)
          else let held = table (gs_resolvers s) who; fp = fingerprintOf e;
                   made = \<lparr>rs_fingerprint = fp, rs_OAuth = o', rs_Value = ey_Value e\<rparr>
               in case map_of held (ey_Secret e) of
                    Some r \<Rightarrow>
                      if rs_fingerprint r = fp then (Some (Minted (rs_OAuth r) (rs_Value r)), s)
                      else (Some (Minted o' (ey_Value e)),
                            s\<lparr>gs_resolvers := AList.update who (AList.update (ey_Secret e) made held) (gs_resolvers s)\<rparr>)
                  | None \<Rightarrow>
                      (Some (Minted o' (ey_Value e)),
                       s\<lparr>gs_resolvers := AList.update who (AList.update (ey_Secret e) made held) (gs_resolvers s)\<rparr>))"

fun substitutions :: "string \<Rightarrow> Entry list \<Rightarrow> 'r store \<Rightarrow> engine_entry list \<times> 'r store" where
  "substitutions who [] s = ([], s)"
| "substitutions who (e # es) s =
     (case resolverFor who e s of (source, s1) \<Rightarrow>
        (case substitutions who es s1 of (out, s2) \<Rightarrow>
           if valueOf e = [] \<and> source = None then (out, s2)
           else (\<lparr>ge_Placeholder = ey_Placeholder e, ge_AllowedHosts = ey_Hosts e, ge_SubstituteBody = ey_Body e,
                  ge_Resolve = (case source of None \<Rightarrow> Static (valueOf e) | Some m \<Rightarrow> m)\<rparr> # out, s2)))"

definition setLocked :: "'r Registry \<Rightarrow> Map \<Rightarrow> 'r store \<Rightarrow> 'r store" where
  "setLocked rg m s =
     (let who = mp_Principal m;
          s1 = (case map_of (gs_maps s) who of
                  Some held \<Rightarrow> if mp_Credential held \<noteq> mp_Credential m
                               then s\<lparr>gs_byCredential := AList.delete (mp_Credential held) (gs_byCredential s)\<rparr> else s
                | None \<Rightarrow> s);
          s2 = s1\<lparr>gs_maps := AList.update who m (gs_maps s1)\<rparr>;
          s3 = (if mp_Credential m \<noteq> [] then s2\<lparr>gs_byCredential := AList.update (mp_Credential m) who (gs_byCredential s2)\<rparr> else s2);
          (compiled, s4) = substitutions who (mp_Entries m) s3;
          s5 = s4\<lparr>gs_registry := rg_Set rg who compiled (gs_registry s4),
                 gs_entries := AList.update who (foldl (\<lambda>t e. AList.update (ge_Placeholder e) e t) [] compiled) (gs_entries s4)\<rparr>
      in case map_of (gs_resolvers s5) who of
           None \<Rightarrow> s5
         | Some held \<Rightarrow>
             s5\<lparr>gs_resolvers := AList.update who
                 (filter (\<lambda>(name, _). list_ex (\<lambda>e. ey_Secret e = name) (mp_Entries m)) held) (gs_resolvers s5)\<rparr>)"

definition Apply :: "'r Registry \<Rightarrow> Map \<Rightarrow> 'r store \<Rightarrow> bool \<times> 'r store" where
  "Apply rg m s =
     (case map_of (gs_maps s) (mp_Principal m) of
        Some held \<Rightarrow> if mp_Version held \<ge> mp_Version m then (False, s) else (True, setLocked rg m s)
      | None \<Rightarrow> (True, setLocked rg m s))"

definition Replace :: "'r Registry \<Rightarrow> Map list \<Rightarrow> 'r store \<Rightarrow> 'r store" where
  "Replace rg ms s =
     (let s1 = s\<lparr>gs_registry := foldl (\<lambda>r (who, _). rg_Delete rg who r) (gs_registry s) (gs_maps s),
                gs_maps := [], gs_byCredential := [], gs_entries := [], gs_resolvers := []\<rparr>
      in (foldl (\<lambda>s m. setLocked rg m s) s1 ms)\<lparr>gs_reported := []\<rparr>)"

definition Remove :: "'r Registry \<Rightarrow> string \<Rightarrow> 'r store \<Rightarrow> 'r store" where
  "Remove rg who s =
     (let s1 = (case map_of (gs_maps s) who of
                  Some held \<Rightarrow> s\<lparr>gs_byCredential := AList.delete (mp_Credential held) (gs_byCredential s)\<rparr>
                | None \<Rightarrow> s)
      in s1\<lparr>gs_maps := AList.delete who (gs_maps s1), gs_entries := AList.delete who (gs_entries s1),
           gs_resolvers := AList.delete who (gs_resolvers s1), gs_registry := rg_Delete rg who (gs_registry s1),
           gs_reported := filter (\<lambda>(key, _). \<not> has_prefix key (who @ [CHR 0x00])) (gs_reported s1)\<rparr>)"

definition store_Principal :: "'r store \<Rightarrow> string \<Rightarrow> string option" where
  "store_Principal s credential = (if credential = [] then None else map_of (gs_byCredential s) credential)"

definition Versions :: "'r store \<Rightarrow> (string \<times> int) list" where
  "Versions s = map (\<lambda>(who, m). (who, mp_Version m)) (gs_maps s)"

definition Principals :: "'r store \<Rightarrow> string list" where
  "Principals s = sort_ordered (map fst (gs_maps s))"

text \<open>Whether a use of a secret is reported, and the instant that is remembered of it.\<close>

definition used :: "string \<Rightarrow> string \<Rightarrow> gotime \<Rightarrow> 'r store \<Rightarrow> bool \<times> 'r store" where
  "used who secretID now s =
     (if secretID = [] then (False, s)
      else let key = who @ [CHR 0x00] @ secretID
           in case map_of (gs_reported s) key of
                Some prev \<Rightarrow>
                  if time_Sub now prev < SecretLastUsedResolution then (False, s)
                  else (True, s\<lparr>gs_reported := AList.update key now (gs_reported s)\<rparr>)
              | None \<Rightarrow> (True, s\<lparr>gs_reported := AList.update key now (gs_reported s)\<rparr>))"

section \<open>The decision\<close>

definition DecisionAllowed :: string where "DecisionAllowed = ''allowed''"
definition DecisionDenied :: string where "DecisionDenied = ''denied''"
definition DecisionUnknown :: string where "DecisionUnknown = ''unknown''"
definition DecisionPassthrough :: string where "DecisionPassthrough = ''passthrough''"

lemmas decision_words = DecisionAllowed_def DecisionDenied_def DecisionUnknown_def DecisionPassthrough_def

record decision =
  di_principal :: string
  di_verdict :: string
  di_reason :: string
  di_terminate :: bool

definition allowed :: "decision \<Rightarrow> bool" where
  "allowed d \<longleftrightarrow> di_verdict d = DecisionAllowed \<or> di_verdict d = DecisionPassthrough"

definition decide :: "'r Registry \<Rightarrow> (int list \<times> string \<Rightarrow> bool) \<Rightarrow> 'r store \<Rightarrow> string \<Rightarrow> string \<Rightarrow> int \<Rightarrow> decision" where
  "decide rg public s credential host port =
     (case store_Principal s credential of
        None \<Rightarrow> \<lparr>di_principal = [], di_verdict = DecisionDenied, di_reason = ''NoCredential'', di_terminate = False\<rparr>
      | Some who \<Rightarrow>
          (let d = (\<lambda>verdict reason t. \<lparr>di_principal = who, di_verdict = verdict, di_reason = reason, di_terminate = t\<rparr>)
           in if host = [] then d DecisionDenied ''BadDestination'' False
              else if isLocalTarget host then d DecisionDenied ''LocalTarget'' False
              else if isNonPublicAddress public host then d DecisionDenied ''NonPublicAddress'' False
              else case map_of (gs_maps s) who of
                     None \<Rightarrow> d DecisionUnknown ''NoMap'' False
                   | Some m \<Rightarrow>
                       if \<not> Admits m host
                       then d DecisionDenied
                              (if mp_Mode m = EgressNone then ''EgressNone''
                               else if mp_Mode m = EgressOpen then ''OnTheDeniedList'' else ''NotOnTheAllowList'') False
                       else if rg_HostHasSecret rg (gs_registry s) who host then d DecisionAllowed [] True
                       else d DecisionPassthrough [] False))"

definition entryAdmits :: "Entry \<Rightarrow> string \<Rightarrow> int \<Rightarrow> bool" where
  "entryAdmits e host port =
     (if ey_Ports e \<noteq> [] \<and> port \<notin> set (ey_Ports e) then False else HostMatches (ey_Hosts e) host)"

section \<open>Destinations as text\<close>

definition splitReversePath :: "string \<Rightarrow> string \<times> string \<times> bool" where
  "splitReversePath path =
     (let trimmed = (if has_prefix path ''/'' then tl path else path)
      in case cut_byte trimmed (CHR ''/'') of (host, rest, found) \<Rightarrow>
           if host = [] then ([], [], False)
           else if \<not> found then (host, ''/'', True)
           else (host, ''/'' @ rest, True))"

text \<open>\<^verbatim>\<open>net.JoinHostPort\<close>.\<close>

definition JoinHostPort :: "string \<Rightarrow> string \<Rightarrow> string" where
  "JoinHostPort host port = (if CHR '':'' \<in> set host then ''['' @ host @ '']:'' @ port else host @ '':'' @ port)"

definition authorityOf :: "string \<Rightarrow> int \<Rightarrow> string" where
  "authorityOf host port =
     (if port = 443 \<and> CHR '':'' \<notin> set host then host else JoinHostPort (trim_brackets host) (format_int port))"

text \<open>\<^verbatim>\<open>net.SplitHostPort\<close>, an error as none.\<close>

definition SplitHostPort :: "string \<Rightarrow> (string \<times> string) option" where
  "SplitHostPort hp =
     (case last_index_byte hp (CHR '':'') of
        None \<Rightarrow> None
      | Some i \<Rightarrow>
          if hd hp = CHR ''[''
          then (case index_byte hp (CHR '']'') of
                  None \<Rightarrow> None
                | Some e \<Rightarrow>
                    if e + 1 \<noteq> i then None
                    else if CHR ''['' \<in> set (drop 1 hp) \<or> CHR '']'' \<in> set (drop (e + 1) hp) then None
                    else Some (drop 1 (take e hp), drop (i + 1) hp))
          else if CHR '':'' \<in> set (take i hp) then None
          else if CHR ''['' \<in> set hp \<or> CHR '']'' \<in> set hp then None
          else Some (take i hp, drop (i + 1) hp))"

definition splitHostPort :: "string \<Rightarrow> int \<Rightarrow> string \<times> int" where
  "splitHostPort authority def =
     (case SplitHostPort authority of
        None \<Rightarrow> (authority, def)
      | Some (host, port) \<Rightarrow> (case parse_int64 port of None \<Rightarrow> (host, def) | Some n \<Rightarrow> (host, n)))"

section \<open>What a gateway holds after any run\<close>

text \<open>Every credential the gateway answers to is the credential of the map it holds for that principal.\<close>

definition credentials_ok :: "'r store \<Rightarrow> bool" where
  "credentials_ok s \<longleftrightarrow> (\<forall>credential who. map_of (gs_byCredential s) credential = Some who \<longrightarrow>
     (\<exists>m. map_of (gs_maps s) who = Some m \<and> mp_Credential m = credential \<and> mp_Principal m = who))"

lemma substitutions_frame: "substitutions who es s = (out, s') \<Longrightarrow> \<exists>r. s' = s\<lparr>gs_resolvers := r\<rparr>"
proof (induction es arbitrary: s out s')
  case Nil
  then have "s' = s\<lparr>gs_resolvers := gs_resolvers s\<rparr>" by simp
  then show ?case by (rule exI)
next
  case (Cons e es)
  obtain src s1 where r: "resolverFor who e s = (src, s1)" by (cases "resolverFor who e s")
  then have "\<exists>r. s1 = s\<lparr>gs_resolvers := r\<rparr>"
    by (auto simp: resolverFor_def Let_def split: option.splits if_splits intro: exI [of _ "gs_resolvers s"])
  moreover obtain out2 s2 where "substitutions who es s1 = (out2, s2)" by (cases "substitutions who es s1")
  moreover from this have "\<exists>r. s2 = s1\<lparr>gs_resolvers := r\<rparr>" by (rule Cons.IH)
  ultimately show ?case using Cons.prems r by (auto split: if_splits)
qed

lemma setLocked_maps:
  "gs_maps (setLocked rg m s) = AList.update (mp_Principal m) m (gs_maps s)"
  "gs_byCredential (setLocked rg m s) =
     (let by = (case map_of (gs_maps s) (mp_Principal m) of
                  Some held \<Rightarrow> if mp_Credential held \<noteq> mp_Credential m then AList.delete (mp_Credential held) (gs_byCredential s)
                               else gs_byCredential s
                | None \<Rightarrow> gs_byCredential s)
      in if mp_Credential m \<noteq> [] then AList.update (mp_Credential m) (mp_Principal m) by else by)"
proof -
  have fr: "gs_maps (snd (substitutions who es s')) = gs_maps s'" "gs_byCredential (snd (substitutions who es s')) = gs_byCredential s'" for who es and s' :: "'r store"
    using substitutions_frame [of who es s' "fst (substitutions who es s')" "snd (substitutions who es s')"] by auto
  show "gs_maps (setLocked rg m s) = AList.update (mp_Principal m) m (gs_maps s)"
    by (cases "map_of (gs_maps s) (mp_Principal m)") (simp_all add: setLocked_def Let_def case_prod_beta fr split: option.split)
  show "gs_byCredential (setLocked rg m s) =
     (let by = (case map_of (gs_maps s) (mp_Principal m) of
                  Some held \<Rightarrow> if mp_Credential held \<noteq> mp_Credential m then AList.delete (mp_Credential held) (gs_byCredential s)
                               else gs_byCredential s
                | None \<Rightarrow> gs_byCredential s)
      in if mp_Credential m \<noteq> [] then AList.update (mp_Credential m) (mp_Principal m) by else by)"
    by (cases "map_of (gs_maps s) (mp_Principal m)") (simp_all add: setLocked_def Let_def case_prod_beta fr split: option.split)
qed

lemma setLocked_credentials:
  assumes "credentials_ok s"
  shows "credentials_ok (setLocked rg m s)"
  unfolding credentials_ok_def
proof (intro allI impI)
  fix credential who
  assume "map_of (gs_byCredential (setLocked rg m s)) credential = Some who"
  then show "\<exists>m'. map_of (gs_maps (setLocked rg m s)) who = Some m' \<and> mp_Credential m' = credential \<and> mp_Principal m' = who"
    using assms
    by (cases "map_of (gs_maps s) (mp_Principal m)")
      (fastforce simp: setLocked_maps credentials_ok_def map_of_update map_of_delete Let_def split: if_splits)+
qed

datatype gateway_op = GApply Map | GReplace "Map list" | GRemove string

definition gateway_exec :: "'r Registry \<Rightarrow> 'r store \<Rightarrow> gateway_op \<Rightarrow> 'r store" where
  "gateway_exec rg s op =
     (case op of GApply m \<Rightarrow> snd (Apply rg m s) | GReplace ms \<Rightarrow> Replace rg ms s | GRemove who \<Rightarrow> Remove rg who s)"

fun pushed :: "gateway_op \<Rightarrow> Map set" where
  "pushed (GApply m) = {m}"
| "pushed (GReplace ms) = set ms"
| "pushed (GRemove who) = {}"

text \<open>What one operation keeps: the credentials, and that every map held was held before or is pushed now.\<close>

lemma Replace_fold:
  assumes "credentials_ok s"
  shows "credentials_ok (foldl (\<lambda>s m. setLocked rg m s) s ms)
    \<and> snd ` set (gs_maps (foldl (\<lambda>s m. setLocked rg m s) s ms)) \<subseteq> snd ` set (gs_maps s) \<union> set ms"
  using assms
proof (induction ms arbitrary: s)
  case (Cons m ms)
  have "snd ` set (AList.update k v l) \<subseteq> insert v (snd ` set l)" for k v and l :: "(string \<times> Map) list"
    by (induction l) auto
  from Cons.IH [OF setLocked_credentials [OF Cons.prems]] this [of "mp_Principal m" m "gs_maps s"]
  show ?case unfolding foldl.simps setLocked_maps(1) by (simp only: set_simps) blast
qed simp

lemma Remove_credentials:
  assumes "credentials_ok s"
  shows "credentials_ok (Remove rg who s)" "map_of (gs_byCredential (Remove rg who s)) credential \<noteq> Some who"
proof -
  have m: "gs_maps (Remove rg who s) = AList.delete who (gs_maps s)"
    and b: "gs_byCredential (Remove rg who s) =
      (case map_of (gs_maps s) who of Some held \<Rightarrow> AList.delete (mp_Credential held) (gs_byCredential s) | None \<Rightarrow> gs_byCredential s)"
    by (simp_all add: Remove_def Let_def split: option.split)
  have kept: "map_of (gs_byCredential (Remove rg who s)) credential = Some p \<Longrightarrow> map_of (gs_byCredential s) credential = Some p" for credential p
    by (cases "map_of (gs_maps s) who") (auto simp: b map_of_delete split: if_splits)
  show gone: "map_of (gs_byCredential (Remove rg who s)) credential \<noteq> Some who" for credential
  proof
    assume r: "map_of (gs_byCredential (Remove rg who s)) credential = Some who"
    then obtain m' where "map_of (gs_maps s) who = Some m'" "mp_Credential m' = credential"
      using kept assms unfolding credentials_ok_def by blast
    then show False using r by (simp add: b map_of_delete)
  qed
  show "credentials_ok (Remove rg who s)"
    using assms kept gone unfolding credentials_ok_def m map_of_delete by (metis fun_upd_other)
qed

lemma gateway_exec_keeps:
  assumes "credentials_ok s"
  shows "credentials_ok (gateway_exec rg s op)"
    "snd ` set (gs_maps (gateway_exec rg s op)) \<subseteq> snd ` set (gs_maps s) \<union> pushed op"
proof -
  have u: "snd ` set (AList.update k v l) \<subseteq> insert v (snd ` set l)" "snd ` set (AList.delete k l) \<subseteq> snd ` set l"
    for k v and l :: "(string \<times> Map) list"
    by (induction l) auto
  have "credentials_ok (gateway_exec rg s op) \<and> snd ` set (gs_maps (gateway_exec rg s op)) \<subseteq> snd ` set (gs_maps s) \<union> pushed op"
  proof (cases op)
    case (GApply m)
    then show ?thesis
      using assms u(1) [of "mp_Principal m" m "gs_maps s"]
      by (cases "map_of (gs_maps s) (mp_Principal m)") (auto simp: gateway_exec_def Apply_def setLocked_credentials setLocked_maps(1))
  next
    case (GReplace ms)
    let ?s = "s\<lparr>gs_registry := foldl (\<lambda>r (who, _). rg_Delete rg who r) (gs_registry s) (gs_maps s),
                gs_maps := [], gs_byCredential := [], gs_entries := [], gs_resolvers := []\<rparr>"
    have "credentials_ok ?s" by (simp add: credentials_ok_def)
    from Replace_fold [OF this, of rg ms] have
      "credentials_ok (Replace rg ms s)" "snd ` set (gs_maps (Replace rg ms s)) \<subseteq> set ms"
      by (simp_all add: Replace_def Let_def credentials_ok_def)
    with GReplace show ?thesis by (auto simp: gateway_exec_def)
  next
    case (GRemove who)
    have "gs_maps (Remove rg who s) = AList.delete who (gs_maps s)"
      by (simp add: Remove_def Let_def split: option.split)
    then show ?thesis
      using GRemove u(2) [of who "gs_maps s"] Remove_credentials(1) [OF assms] by (simp add: gateway_exec_def)
  qed
  then show "credentials_ok (gateway_exec rg s op)"
    "snd ` set (gs_maps (gateway_exec rg s op)) \<subseteq> snd ` set (gs_maps s) \<union> pushed op" by blast+
qed

definition gateway_run :: "'r Registry \<Rightarrow> 'r store \<Rightarrow> gateway_op list \<Rightarrow> 'r store" where
  "gateway_run rg s ops = foldl (gateway_exec rg) s ops"

lemma subset_step: "A \<subseteq> B \<union> C \<Longrightarrow> B \<subseteq> D \<union> E \<Longrightarrow> A \<subseteq> D \<union> (E \<union> C)"
  by blast

lemma gateway_run_keeps:
  assumes "credentials_ok s"
  shows "credentials_ok (gateway_run rg s ops)
    \<and> snd ` set (gs_maps (gateway_run rg s ops)) \<subseteq> snd ` set (gs_maps s) \<union> (\<Union>op \<in> set ops. pushed op)"
  using assms
proof (induction ops arbitrary: s)
  case (Cons op ops)
  note ih = Cons.IH [OF gateway_exec_keeps(1) [OF Cons.prems], of rg op]
  from subset_step [OF conjunct2 [OF ih] gateway_exec_keeps(2) [OF Cons.prems]] conjunct1 [OF ih]
  show ?case by (simp add: gateway_run_def)
qed (simp add: gateway_run_def)

lemma newStore_credentials: "credentials_ok (newStore registry)"
  by (simp add: credentials_ok_def newStore_def)

lemma decide_principal:
  "di_principal (decide rg public s credential host port) = (case store_Principal s credential of None \<Rightarrow> [] | Some who \<Rightarrow> who)"
proof (cases "store_Principal s credential")
  case (Some who)
  then show ?thesis by (cases "map_of (gs_maps s) who") (simp_all add: decide_def Let_def)
qed (simp add: decide_def)

lemma decide_allowed:
  assumes "allowed (decide rg public s credential host port)" and "credentials_ok s"
  shows "\<exists>m. map_of (gs_maps s) (di_principal (decide rg public s credential host port)) = Some m
    \<and> mp_Principal m = di_principal (decide rg public s credential host port)
    \<and> credential \<noteq> [] \<and> mp_Credential m = credential \<and> Admits m host \<and> host \<noteq> []
    \<and> \<not> isLocalTarget host \<and> \<not> isNonPublicAddress public host"
proof -
  obtain who where w: "store_Principal s credential = Some who"
    using assms(1) by (cases "store_Principal s credential") (simp_all add: decide_def allowed_def decision_words)
  then have c: "credential \<noteq> []" "map_of (gs_byCredential s) credential = Some who"
    by (auto simp: store_Principal_def split: if_splits)
  then obtain m where m: "map_of (gs_maps s) who = Some m" "mp_Credential m = credential" "mp_Principal m = who"
    using assms(2) unfolding credentials_ok_def by blast
  have "di_principal (decide rg public s credential host port) = who" using w by (simp add: decide_principal)
  then show ?thesis
    using assms(1) w m c by (auto simp: decide_def Let_def allowed_def decision_words split: if_splits)
qed

section \<open>The boundary\<close>

text \<open>C30: whatever maps of compiled sandboxes are pushed, replaced and purged, in whatever order, the gate
  lets a connection through only with the credential of one of those sandboxes, only toward a name that
  sandbox's egress or a mounted secret's scope admits, and never toward the gateway's own machine or an
  address that is not public.\<close>

theorem gate_holds_boundary:
  assumes "allowed (decide rg public (gateway_run rg (newStore registry) ops) credential host port)"
    and "\<forall>op \<in> set ops. \<forall>m \<in> pushed op. \<exists>(sb, views) \<in> sandboxes. Compile is_placeholder sb views = Inr m \<and> patterns_stable sb views"
    and "NormalizeHost host \<noteq> []"
  shows "\<exists>(sb, views) \<in> sandboxes.
     (\<exists>st. st_EgressState (sb_Status sb) = Some st \<and> es_Credential st = credential)
     \<and> di_principal (decide rg public (gateway_run rg (newStore registry) ops) credential host port) = Principal (st_ID (sb_Status sb))
     \<and> (NormalizeHost host \<in> egress_reach (nw_Egress (sp_Network (sb_Spec sb)))
        \<or> eg_Mode (nw_Egress (sp_Network (sb_Spec sb))) = EgressAllowlist
          \<and> (\<exists>v \<in> set views. NormalizeHost host \<in> scope_left (eg_DeniedHosts (nw_Egress (sp_Network (sb_Spec sb)))) v))
     \<and> \<not> isLocalTarget host \<and> \<not> isNonPublicAddress public host"
proof -
  let ?s = "gateway_run rg (newStore registry) ops" and ?d = "decide rg public (gateway_run rg (newStore registry) ops) credential host port"
  note run = gateway_run_keeps [OF newStore_credentials, of rg registry ops]
  obtain m where m: "map_of (gs_maps ?s) (di_principal ?d) = Some m" "mp_Principal m = di_principal ?d" "credential \<noteq> []"
    "mp_Credential m = credential" "Admits m host" "\<not> isLocalTarget host" "\<not> isNonPublicAddress public host"
    using decide_allowed [OF assms(1) conjunct1 [OF run]] by blast
  have "m \<in> snd ` set (gs_maps ?s)" using map_of_SomeD [OF m(1)] by force
  then have "m \<in> (\<Union>op \<in> set ops. pushed op)" using subsetD [OF conjunct2 [OF run]] by (simp add: newStore_def)
  then obtain sb views where c: "(sb, views) \<in> sandboxes" "Compile is_placeholder sb views = Inr m" "patterns_stable sb views"
    using assms(2) by blast
  note adm = iffD1 [OF Compile_admits [OF c(2,3) assms(3)] m(5)]
  have "mp_Principal m = Principal (st_ID (sb_Status sb))"
    "mp_Credential m = (case st_EgressState (sb_Status sb) of None \<Rightarrow> [] | Some s \<Rightarrow> es_Credential s)"
    by (rule Compile_Inr [OF c(2)], simp)+
  then have "di_principal ?d = Principal (st_ID (sb_Status sb))" "\<exists>st. st_EgressState (sb_Status sb) = Some st \<and> es_Credential st = credential"
    using m(2,3,4) by (auto split: option.splits)
  with c(1) adm m(6,7) show ?thesis by blast
qed

text \<open>C31: once a principal is purged no credential leads to it, whatever was pushed before.\<close>

theorem purge_ends_credential:
  assumes "who \<noteq> []"
  shows "di_principal (decide rg public (gateway_run rg (newStore registry) (ops @ [GRemove who])) credential host port) \<noteq> who"
proof -
  let ?s = "gateway_run rg (newStore registry) ops"
  note ok = conjunct1 [OF gateway_run_keeps [OF newStore_credentials, of rg registry ops]]
  have "store_Principal (Remove rg who ?s) credential \<noteq> Some who"
    using Remove_credentials(2) [OF ok] by (simp add: store_Principal_def)
  then have "di_principal (decide rg public (Remove rg who ?s) credential host port) \<noteq> who"
    using assms by (auto simp: decide_principal split: option.split)
  then show ?thesis by (simp add: gateway_run_def gateway_exec_def)
qed

text \<open>What a run of pushes leaves: for each principal a map of the highest version pushed for it.\<close>

lemma Apply_newest:
  assumes "gateway_run rg (newStore registry) (map GApply ms) = s"
  shows "case map_of (gs_maps s) who of
           None \<Rightarrow> \<forall>m \<in> set ms. mp_Principal m \<noteq> who
         | Some m \<Rightarrow> m \<in> set ms \<and> mp_Principal m = who \<and> (\<forall>m' \<in> set ms. mp_Principal m' = who \<longrightarrow> mp_Version m' \<le> mp_Version m)"
  using assms
proof (induction ms arbitrary: s rule: rev_induct)
  case Nil
  then show ?case by (auto simp: gateway_run_def newStore_def)
next
  case (snoc m ms)
  let ?s = "gateway_run rg (newStore registry) (map GApply ms)"
  have s: "s = snd (Apply rg m ?s)" using snoc.prems by (simp add: gateway_run_def gateway_exec_def)
  show ?case
    using snoc.IH [OF refl]
    by (cases "map_of (gs_maps ?s) (mp_Principal m)"; cases "mp_Principal m = who")
      (fastforce simp: s Apply_def setLocked_maps map_of_update split: option.splits)+
qed


section \<open>Two gaps\<close>

text \<open>The port of a scope is checked where the reverse door builds the request. What the proxy door's engine
  is given of an entry names no port, so there a value goes to its hosts on every port.\<close>

theorem proxy_ignores_ports: "substitutions who [e\<lparr>ey_Ports := ports\<rparr>] s = substitutions who [e] s"
proof -
  have "fingerprintOf (e\<lparr>ey_Ports := ports\<rparr>) = fingerprintOf e" by (cases "ey_OAuth e") (simp_all add: fingerprintOf_def)
  then have "resolverFor who (e\<lparr>ey_Ports := ports\<rparr>) s = resolverFor who e s"
    by (cases "ey_OAuth e") (simp_all add: resolverFor_def Let_def cong: option.case_cong if_cong)
  moreover have "valueOf (e\<lparr>ey_Ports := ports\<rparr>) = valueOf e" by (simp add: valueOf_def)
  ultimately show ?thesis by (simp cong: if_cong option.case_cong split: prod.split)
qed

definition open_map :: Map where
  "open_map = \<lparr>mp_Principal = ''sandbox:a'', mp_Version = 1, mp_Credential = ''k'', mp_Mode = EgressOpen, mp_Allow = [],
     mp_Deny = [], mp_Entries = [], mp_NotInjectable = []\<rparr>"

definition no_registry :: "unit Registry" where
  "no_registry = \<lparr>rg_Set = (\<lambda>_ _ r. r), rg_Delete = (\<lambda>_ r. r), rg_HostHasSecret = (\<lambda>_ _ _. False)\<rparr>"

text \<open>A trailing dot hides the gateway's own machine from the check of a name; only the dialer refuses it.\<close>

theorem trailing_dot_passes_gate:
  "di_verdict (decide no_registry (\<lambda>_. True) (gateway_run no_registry (newStore ()) [GApply open_map]) ''k'' ''localhost.'' 443) = DecisionPassthrough
   \<and> NormalizeHost ''localhost.'' = ''localhost''
   \<and> di_reason (decide no_registry (\<lambda>_. True) (gateway_run no_registry (newStore ()) [GApply open_map]) ''k'' ''localhost'' 443) = ''LocalTarget''"
  by code_simp

subsection \<open>Witnesses\<close>

definition keyed_sandbox :: Sandbox where
  "keyed_sandbox = listed_sandbox\<lparr>sb_Status := (sb_Status listed_sandbox)
     \<lparr>st_EgressState := Some \<lparr>es_Credential = ''k'', es_Version = 1, es_Secrets = [], es_EnvDigest = []\<rparr>\<rparr>\<rparr>"

definition keyed_map :: Map where
  "keyed_map = (case Compile (\<lambda>_. True) keyed_sandbox [] of Inr m \<Rightarrow> m)"

lemma keyed_map_compiled:
  "Compile (\<lambda>_. True) keyed_sandbox [] = Inr keyed_map" "patterns_stable keyed_sandbox []" "NormalizeHost ''a.b.c'' \<noteq> []"
  "allowed (decide no_registry (\<lambda>_. True) (gateway_run no_registry (newStore ()) [GApply keyed_map]) ''k'' ''a.b.c'' 443)"
  by code_simp+

theorem gate_holds_boundary_witness:
  "NormalizeHost ''a.b.c'' \<in> egress_reach (nw_Egress (sp_Network (sb_Spec keyed_sandbox)))"
  using gate_holds_boundary [OF keyed_map_compiled(4), of "{(keyed_sandbox, [])}" "\<lambda>_. True"] keyed_map_compiled(1-3)
  by simp

theorem purge_ends_credential_witness:
  "di_principal (decide no_registry (\<lambda>_. True) (gateway_run no_registry (newStore ()) ([GApply open_map] @ [GRemove ''sandbox:a'']))
     ''k'' ''a.b'' 443) \<noteq> ''sandbox:a''"
  by (rule purge_ends_credential) simp


end
