(* ===== verification/Tokens_Control.thy ===== *)
theory Tokens_Control
  imports Controller_State
begin

text \<open>
  The identities of sandboxes (\<^verbatim>\<open>controller/token.go\<close>): when a token is due for rotation, its mint, its
  revocation, and the one act that replaces it. The mint and the revocation list are the parameter
  \<open>co_tokens\<close>; what the rotation relies on of them and of the driver is \<open>token_world\<close>.
\<close>

definition rotateNumerator :: int where "rotateNumerator = 2"
definition rotateDenominator :: int where "rotateDenominator = 3"

definition dueForRotation :: "TokenState option \<Rightarrow> gotime \<Rightarrow> gotime \<Rightarrow> bool" where
  "dueForRotation state expiresAt now =
     (case state of
        None \<Rightarrow> False
      | Some st \<Rightarrow>
          if tk_ExpiresAt st = 0 \<or> \<not> tk_IssuedAt st < tk_ExpiresAt st then False
          else if expiresAt \<noteq> 0 \<and> \<not> tk_ExpiresAt st < expiresAt then False
          else let life = time_Sub (tk_ExpiresAt st) (tk_IssuedAt st)
               in \<not> now < tk_IssuedAt st + go_quot (wrap64 (life * rotateNumerator)) rotateDenominator)"

definition mintToken :: "'w Controller \<Rightarrow> Sandbox \<Rightarrow> (cerr + (string \<times> TokenState option)) \<times> 'w Controller" where
  "mintToken c obj =
     (case co_tokens c of
        None \<Rightarrow> (Inr ([], None), c)
      | Some t \<Rightarrow>
          (case ts_Mint t obj (co_world c) of
             (Inl e, w) \<Rightarrow> (Inl e, c\<lparr>co_world := w\<rparr>)
           | (Inr (tok, jti, till), w) \<Rightarrow>
               (Inr (tok, Some \<lparr>tk_JTI = jti, tk_IssuedAt = now_of (c\<lparr>co_world := w\<rparr>), tk_ExpiresAt = till\<rparr>),
                c\<lparr>co_world := w\<rparr>)))"

definition revokeToken :: "'w Controller \<Rightarrow> TokenState option \<Rightarrow> cerr option \<times> 'w Controller" where
  "revokeToken c state =
     (case (co_tokens c, state) of
        (Some t, Some st) \<Rightarrow>
          if tk_JTI st = [] then (None, c)
          else (case ts_Revoke t (tk_JTI st) (tk_ExpiresAt st) (co_world c) of (e, w) \<Rightarrow> (e, c\<lparr>co_world := w\<rparr>))
      | _ \<Rightarrow> (None, c))"

definition with_token :: "TokenState option \<Rightarrow> Sandbox \<Rightarrow> Sandbox" where
  "with_token state obj = obj\<lparr>sb_Status := (sb_Status obj)\<lparr>st_TokenState := state\<rparr>\<rparr>"

definition rotateLocked :: "'w Controller \<Rightarrow> Sandbox \<Rightarrow> cerr option \<times> 'w Controller" where
  "rotateLocked c obj =
     (case mintToken c obj of
        (Inl e, c1) \<Rightarrow> (Some e, c1)
      | (Inr (tok, None), c1) \<Rightarrow> (None, c1)
      | (Inr (tok, Some st), c1) \<Rightarrow>
          (case driverFor c1 (st_Environment (sb_Status obj)) of
             Inl e \<Rightarrow> (case revokeToken c1 (Some st) of (r, c2) \<Rightarrow> (errors_Join [Some e, r], c2))
           | Inr d \<Rightarrow>
               (case dr_Update d (st_ID (sb_Status obj)) (Change0\<lparr>ch_Token := tok\<rparr>) (co_world c1) of
                  (Some e, w) \<Rightarrow>
                    (case revokeToken (c1\<lparr>co_world := w\<rparr>) (Some st) of (r, c2) \<Rightarrow> (errors_Join [Some e, r], c2))
                | (None, w) \<Rightarrow>
                    (case persist (c1\<lparr>co_world := w\<rparr>) (with_token (Some st) obj) MutationStatus of
                       (Some e, c2) \<Rightarrow> (Some e, c2)
                     | (None, c2) \<Rightarrow> revokeToken c2 (st_TokenState (sb_Status obj))))))"

definition sweepRevocations :: "'w Controller \<Rightarrow> gotime \<Rightarrow> cerr option \<times> 'w Controller" where
  "sweepRevocations c now =
     (case co_tokens c of
        None \<Rightarrow> (None, c)
      | Some t \<Rightarrow>
          (case ts_Forget t of
             None \<Rightarrow> (None, c)
           | Some f \<Rightarrow> (case f now (co_world c) of (e, w) \<Rightarrow> (e, c\<lparr>co_world := w\<rparr>))))"

section \<open>When a token is replaced\<close>

text \<open>A token of a life below a hundred years is due exactly from the instant two thirds of its life have
  passed, and never once its expiry is the sandbox's own, so the rule cannot fire on every tick.\<close>

lemma dueForRotation_two_thirds:
  assumes "tk_IssuedAt st < tk_ExpiresAt st" and "tk_ExpiresAt st \<noteq> 0" and "tk_ExpiresAt st - tk_IssuedAt st < 2 ^ 62"
  shows "dueForRotation (Some st) expiresAt now \<longleftrightarrow>
    (expiresAt = 0 \<or> tk_ExpiresAt st < expiresAt)
    \<and> tk_IssuedAt st + (tk_ExpiresAt st - tk_IssuedAt st) * 2 div 3 \<le> now"
proof -
  let ?life = "tk_ExpiresAt st - tk_IssuedAt st"
  have "time_Sub (tk_ExpiresAt st) (tk_IssuedAt st) = ?life"
    using assms(1,3) by (simp add: time_Sub_def MaxInt64_def MinInt64_def)
  moreover have "wrap64 (?life * 2) = ?life * 2"
    using assms(1,3) by (intro wrap64_id) (simp add: MaxInt64_def MinInt64_def)
  moreover have "go_quot (?life * 2) 3 = ?life * 2 div 3" using assms(1) by (simp add: go_quot_nonneg)
  ultimately show ?thesis
    using assms(1,2) by (auto simp: dueForRotation_def Let_def rotateNumerator_def rotateDenominator_def)
qed

section \<open>The window in which neither token verifies is empty\<close>

text \<open>What a world shows of identities: the token the driver holds for each sandbox, and the ids that are
  refused. A mint answers an id that is not refused and was not answered before, and changes neither; an
  update that is taken projects its token and one that fails leaves the projection; a revocation that is
  written refuses that id and no other, and one that is not written changes nothing; the id of a token is
  \<open>jti_of\<close>.\<close>

record identities =
  ids_projected :: "string \<Rightarrow> string"
  ids_refused :: "string set"

definition token_world :: "('w \<Rightarrow> identities) \<Rightarrow> (string \<Rightarrow> string) \<Rightarrow> 'w Tokens \<Rightarrow> 'w Driver \<Rightarrow> bool" where
  "token_world obs jti_of t d \<longleftrightarrow>
     (\<forall>obj w. obs (snd (ts_Mint t obj w)) = obs w)
     \<and> (\<forall>obj w w' tok jti till. ts_Mint t obj w = (Inr (tok, jti, till), w') \<longrightarrow>
          jti = jti_of tok \<and> jti \<noteq> [] \<and> jti \<notin> ids_refused (obs w) \<and> jti \<notin> range (jti_of \<circ> ids_projected (obs w)))
     \<and> (\<forall>jti till w w'. ts_Revoke t jti till w = (None, w') \<longrightarrow> obs w' = (obs w)\<lparr>ids_refused := insert jti (ids_refused (obs w))\<rparr>)
     \<and> (\<forall>jti till w w' e. ts_Revoke t jti till w = (Some e, w') \<longrightarrow> obs w' = obs w)
     \<and> (\<forall>vid tok w w'. dr_Update d vid (Change0\<lparr>ch_Token := tok\<rparr>) w = (None, w') \<longrightarrow>
          obs w' = (obs w)\<lparr>ids_projected := (ids_projected (obs w))(vid := tok)\<rparr>)
     \<and> (\<forall>vid tok w w' e. dr_Update d vid (Change0\<lparr>ch_Token := tok\<rparr>) w = (Some e, w') \<longrightarrow> obs w' = obs w)"

lemma token_worldD:
  assumes "token_world obs jti_of t d"
  shows "obs (snd (ts_Mint t obj w)) = obs w"
    "ts_Mint t obj w = (Inr (tok, jti, till), w') \<Longrightarrow>
       jti = jti_of tok \<and> jti \<noteq> [] \<and> jti \<notin> ids_refused (obs w) \<and> jti \<notin> range (jti_of \<circ> ids_projected (obs w))"
    "ts_Revoke t jti till w = (None, w') \<Longrightarrow> obs w' = (obs w)\<lparr>ids_refused := insert jti (ids_refused (obs w))\<rparr>"
    "ts_Revoke t jti till w = (Some e, w') \<Longrightarrow> obs w' = obs w"
    "dr_Update d vid (Change0\<lparr>ch_Token := tok\<rparr>) w = (None, w') \<Longrightarrow>
       obs w' = (obs w)\<lparr>ids_projected := (ids_projected (obs w))(vid := tok)\<rparr>"
    "dr_Update d vid (Change0\<lparr>ch_Token := tok\<rparr>) w = (Some e, w') \<Longrightarrow> obs w' = obs w"
proof -
  note tw = assms [unfolded token_world_def]
  show "obs (snd (ts_Mint t obj w)) = obs w" by (rule conjunct1 [OF tw, rule_format])
  show "ts_Mint t obj w = (Inr (tok, jti, till), w') \<Longrightarrow>
       jti = jti_of tok \<and> jti \<noteq> [] \<and> jti \<notin> ids_refused (obs w) \<and> jti \<notin> range (jti_of \<circ> ids_projected (obs w))"
    by (rule conjunct1 [OF conjunct2 [OF tw], rule_format])
  show "ts_Revoke t jti till w = (None, w') \<Longrightarrow> obs w' = (obs w)\<lparr>ids_refused := insert jti (ids_refused (obs w))\<rparr>"
    by (rule conjunct1 [OF conjunct2 [OF conjunct2 [OF tw]], rule_format])
  show "ts_Revoke t jti till w = (Some e, w') \<Longrightarrow> obs w' = obs w"
    by (rule conjunct1 [OF conjunct2 [OF conjunct2 [OF conjunct2 [OF tw]]], rule_format])
  show "dr_Update d vid (Change0\<lparr>ch_Token := tok\<rparr>) w = (None, w') \<Longrightarrow>
       obs w' = (obs w)\<lparr>ids_projected := (ids_projected (obs w))(vid := tok)\<rparr>"
    by (rule conjunct1 [OF conjunct2 [OF conjunct2 [OF conjunct2 [OF conjunct2 [OF tw]]]], rule_format])
  show "dr_Update d vid (Change0\<lparr>ch_Token := tok\<rparr>) w = (Some e, w') \<Longrightarrow> obs w' = obs w"
    by (rule conjunct2 [OF conjunct2 [OF conjunct2 [OF conjunct2 [OF conjunct2 [OF tw]]]], rule_format])
qed

lemma revokeToken_obs:
  assumes "token_world obs jti_of t d" and "co_tokens c = Some t" and "revokeToken c (Some st) = (e, c')"
  shows "ids_projected (obs (co_world c')) = ids_projected (obs (co_world c))"
    "ids_refused (obs (co_world c')) \<subseteq> insert (tk_JTI st) (ids_refused (obs (co_world c)))"
    "e = None \<Longrightarrow> tk_JTI st \<noteq> [] \<Longrightarrow> tk_JTI st \<in> ids_refused (obs (co_world c'))"
proof -
  obtain e' w where r: "ts_Revoke t (tk_JTI st) (tk_ExpiresAt st) (co_world c) = (e', w)"
    by (cases "ts_Revoke t (tk_JTI st) (tk_ExpiresAt st) (co_world c)")
  have "obs w = (if e' = None then (obs (co_world c))\<lparr>ids_refused := insert (tk_JTI st) (ids_refused (obs (co_world c)))\<rparr> else obs (co_world c))"
    using token_worldD(3,4) [OF assms(1)] r by (cases e') simp_all
  with assms(2,3) r show "ids_projected (obs (co_world c')) = ids_projected (obs (co_world c))"
    "ids_refused (obs (co_world c')) \<subseteq> insert (tk_JTI st) (ids_refused (obs (co_world c)))"
    "e = None \<Longrightarrow> tk_JTI st \<noteq> [] \<Longrightarrow> tk_JTI st \<in> ids_refused (obs (co_world c'))"
    by (auto simp: revokeToken_def split: if_splits)
qed

lemma mintToken_obs:
  assumes "token_world obs jti_of t d" and "co_tokens c = Some t" and "mintToken c obj = (r, c')"
  shows "obs (co_world c') = obs (co_world c)" "\<exists>w. c' = c\<lparr>co_world := w\<rparr>"
    "r = Inr (tok, state) \<Longrightarrow> \<exists>st. state = Some st \<and> tk_JTI st = jti_of tok \<and> tk_JTI st \<noteq> []
       \<and> tk_JTI st \<notin> ids_refused (obs (co_world c)) \<and> tk_JTI st \<notin> range (jti_of \<circ> ids_projected (obs (co_world c)))"
proof -
  obtain r' w where m: "ts_Mint t obj (co_world c) = (r', w)" by (cases "ts_Mint t obj (co_world c)")
  then have "obs w = obs (co_world c)" using token_worldD(1) [OF assms(1), of obj "co_world c"] by simp
  then show "obs (co_world c') = obs (co_world c)" "\<exists>w. c' = c\<lparr>co_world := w\<rparr>"
    using assms(2,3) m by (auto simp: mintToken_def split: sum.splits)
  show "\<exists>st. state = Some st \<and> tk_JTI st = jti_of tok \<and> tk_JTI st \<noteq> []
       \<and> tk_JTI st \<notin> ids_refused (obs (co_world c)) \<and> tk_JTI st \<notin> range (jti_of \<circ> ids_projected (obs (co_world c)))"
    if r: "r = Inr (tok, state)"
  proof -
    obtain jti till where r': "r' = Inr (tok, jti, till)" and st: "state = Some \<lparr>tk_JTI = jti, tk_IssuedAt = now_of (c\<lparr>co_world := w\<rparr>), tk_ExpiresAt = till\<rparr>"
      using assms(2,3) m r by (auto simp: mintToken_def split: sum.splits)
    have "jti = jti_of tok \<and> jti \<noteq> [] \<and> jti \<notin> ids_refused (obs (co_world c)) \<and> jti \<notin> range (jti_of \<circ> ids_projected (obs (co_world c)))"
      using token_worldD(2) [OF assms(1)] m r' by blast
    with st show ?thesis by auto
  qed
qed


text \<open>An issuer over one machine: the token its sandbox holds and the ids refused there. A mint answers a token
  longer than every one of them, which is its own id.\<close>

record token_machine =
  tn_token :: string
  tn_refused :: "string list"

definition machine_ids :: "token_machine \<Rightarrow> identities" where
  "machine_ids w = \<lparr>ids_projected = (\<lambda>vid. if vid = ''sbx_1'' then tn_token w else []), ids_refused = set (tn_refused w)\<rparr>"

definition machine_tokens :: "token_machine Tokens" where
  "machine_tokens =
     \<lparr>ts_Mint = (\<lambda>_ w. let tok = CHR ''t'' # concat (tn_token w # tn_refused w) in (Inr (tok, tok, 3600 * Second), w)),
      ts_Revoke = (\<lambda>jti _ w. (None, w\<lparr>tn_refused := jti # tn_refused w\<rparr>)), ts_Forget = None\<rparr>"

definition machine_driver :: "token_machine Driver" where
  "machine_driver = sample_driver\<lparr>dr_Update := (\<lambda>vid ch w.
     if vid = ''sbx_1'' then (None, w\<lparr>tn_token := ch_Token ch\<rparr>) else (Some DriverNotFound, w))\<rparr>"

lemma longer_not_in: "CHR ''t'' # concat (x # xs) \<notin> set (x # xs)"
proof
  let ?t = "CHR ''t'' # concat (x # xs)"
  assume "?t \<in> set (x # xs)"
  then have "length ?t \<in> set (map length (x # xs))" unfolding set_map by (rule imageI)
  then have "length ?t \<le> sum_list (map length (x # xs))" by (rule member_le_sum_list) simp
  then show False by (simp add: length_concat)
qed

lemma machine_token_world: "token_world machine_ids (\<lambda>tok. tok) machine_tokens machine_driver"
  using longer_not_in
  by (auto simp: token_world_def machine_ids_def machine_tokens_def machine_driver_def Change0_def Let_def fun_eq_iff
      split: if_splits)

text \<open>A controller of one running sandbox whose token is \<open>old\<close>, with a store that accepts and one that refuses.\<close>

definition tokened :: Sandbox where
  "tokened = with_token (Some \<lparr>tk_JTI = ''old'', tk_IssuedAt = 0, tk_ExpiresAt = 60 * Second\<rparr>) (sample_sandbox ''sbx_1'' Running)"

definition token_controller :: "token_machine Store \<Rightarrow> token_machine Controller" where
  "token_controller s = (sample_over \<lparr>tn_token = ''old'', tn_refused = []\<rparr> Capacity0 [tokened])
     \<lparr>co_store := s, co_drivers := [(''desk'', machine_driver)], co_tokens := Some machine_tokens\<rparr>"

definition sample_refusing :: "'w Store" where
  "sample_refusing = \<lparr>so_Save = (\<lambda>_ w. (Some (ErrOther ''disk full''), w)), so_Durable = None, so_Spawner = None, so_Journaller = None\<rparr>"

lemma token_controller_ready:
  "store_keeps machine_ids (co_store (token_controller sample_accepting))"
  "co_tokens (token_controller s) = Some machine_tokens"
  "driverFor (token_controller s) (st_Environment (sb_Status tokened)) = Inr machine_driver"
  "st_TokenState (sb_Status tokened) = Some \<lparr>tk_JTI = ''old'', tk_IssuedAt = 0, tk_ExpiresAt = 60 * Second\<rparr>"
  "machine_ids (co_world (token_controller s)) = \<lparr>ids_projected = (\<lambda>vid. if vid = ''sbx_1'' then ''old'' else []), ids_refused = {}\<rparr>"
  "st_ID (sb_Status tokened) = ''sbx_1''"
  "fst (rotateLocked (token_controller sample_accepting) tokened) = None"
proof -
  show "fst (rotateLocked (token_controller sample_accepting) tokened) = None" by code_simp
qed (simp_all add: store_keeps_def token_controller_def tokened_def sample_over_def sample_object_defs with_token_def
      driverFor_def machine_ids_def fun_eq_iff)


text \<open>Where the new token is projected and the write of the object fails, the object keeps the old token's state,
  so the deletion of the sandbox ends the old token and not the one it holds.\<close>

theorem rotation_unrecorded_token_outlives:
  "(case rotateLocked (token_controller sample_refusing) tokened of
      (e, c) \<Rightarrow>
        (case map_of (co_objects c) ''sbx_1'' of
           None \<Rightarrow> False
         | Some obj \<Rightarrow>
             (case revokeToken c (st_TokenState (sb_Status obj)) of
                (e', c') \<Rightarrow> e \<noteq> None \<and> e' = None \<and> tn_token (co_world c') = ''told'' \<and> tn_refused (co_world c') = [''old''])))"
  by code_simp

end
