(* ===== verification/Manifest_Volume.thy ===== *)
theory Manifest_Volume
  imports Manifest_Resolve
begin

text \<open>
  The manifest of a Volume: its enumerations and the pinned form of an image (\<^verbatim>\<open>manifest/v1/volume.go\<close>) and
  its resolver (\<^verbatim>\<open>manifest/volume.go\<close>). The environment lookup and the admission step are the options', and
  nothing is assumed of their answers beyond what a theorem names. A clone is the value itself.
\<close>

section \<open>Enumerations\<close>

definition VolumeIDPrefix :: string where "VolumeIDPrefix = ''vol_''"
definition KindVolume :: string where "KindVolume = ''Volume''"
definition VolumeAccessSingle :: string where "VolumeAccessSingle = ''single''"
definition VolumeAccessSharedRead :: string where "VolumeAccessSharedRead = ''shared-read''"
definition VolumeAccesses :: "string list" where "VolumeAccesses = [VolumeAccessSingle, VolumeAccessSharedRead]"
definition VolumeSourceEmpty :: string where "VolumeSourceEmpty = ''empty''"
definition VolumeSourceSnapshot :: string where "VolumeSourceSnapshot = ''snapshot''"
definition VolumeSourceImage :: string where "VolumeSourceImage = ''image''"
definition VolumeSourceArchive :: string where "VolumeSourceArchive = ''archive''"
definition VolumeSources :: "string list" where
  "VolumeSources = [VolumeSourceEmpty, VolumeSourceSnapshot, VolumeSourceImage, VolumeSourceArchive]"
definition VolumePending :: string where "VolumePending = ''Pending''"
definition VolumeAvailable :: string where "VolumeAvailable = ''Available''"
definition VolumeFailed :: string where "VolumeFailed = ''Failed''"
definition VolumeDeleting :: string where "VolumeDeleting = ''Deleting''"
definition VolumeLost :: string where "VolumeLost = ''Lost''"

lemmas volume_phase_defs = VolumePending_def VolumeAvailable_def VolumeFailed_def VolumeDeleting_def VolumeLost_def
lemmas volume_source_defs = VolumeSourceEmpty_def VolumeSourceSnapshot_def VolumeSourceImage_def VolumeSourceArchive_def

definition VolumeStatus0 :: VolumeStatus where
  "VolumeStatus0 = \<lparr>vt_ID = [], vt_Owner = [], vt_Phase = [], vt_Reason = [], vt_Message = [], vt_AttachedTo = [],
     vt_Capacity = [], vt_CreatedAt = 0, vt_UpdatedAt = 0\<rparr>"

section \<open>Pinned images\<close>

text \<open>The classes of the regular expression: \<^verbatim>\<open>\s\<close>, and a lower-case hex digit.\<close>

definition regexp_space :: "char \<Rightarrow> bool" where
  "regexp_space c \<longleftrightarrow> c \<in> {CHR 0x09, CHR 0x0A, CHR 0x0C, CHR 0x0D, CHR 0x20}"

definition lower_hex :: "char \<Rightarrow> bool" where
  "lower_hex c \<longleftrightarrow> is_digit c \<or> c \<in> set ''abcdef''"

definition PinnedImage :: "string \<Rightarrow> bool" where
  "PinnedImage ref =
     (case cut_byte ref CHR ''@'' of (repo, digest, found) \<Rightarrow>
        found \<and> repo \<noteq> [] \<and> list_all (\<lambda>c. \<not> regexp_space c) repo
        \<and> take 7 digest = ''sha256:'' \<and> length digest = 71 \<and> list_all lower_hex (drop 7 digest))"

definition ImageDigest :: "string \<Rightarrow> string" where
  "ImageDigest ref = (if \<not> PinnedImage ref then [] else fst (snd (cut_byte ref CHR ''@'')))"

section \<open>The resolver\<close>

record VolumeOptions =
  vx_Actor :: Actor
  vx_Lookup :: "Lookup option"
  vx_Admit :: "AdmitFunc option"
  vx_Claims :: strmap
  vx_RequestID :: string
  vx_Existing :: "Volume option"

definition validateVolumeSource :: "VolumeSource \<Rightarrow> merr option" where
  "validateVolumeSource src =
     (let kind = (if vs_Kind src = [] then VolumeSourceEmpty else vs_Kind src)
      in if kind \<notin> set VolumeSources then Some (failAt ''invalid_field'' ''spec.source.kind'')
         else let extra = map (\<lambda>(field, _). ''spec.source.'' @ field)
                            (filter (\<lambda>(field, set'). set' \<and> field \<noteq> kind)
                               [(VolumeSourceArchive, vs_Archive src \<noteq> []), (VolumeSourceImage, vs_Image src \<noteq> []),
                                (VolumeSourceSnapshot, vs_Snapshot src \<noteq> [])])
                          @ (if vs_SHA256 src \<noteq> [] \<and> kind \<noteq> VolumeSourceArchive then [''spec.source.sha256''] else [])
              in if extra \<noteq> [] then Some (failPaths ''exclusive_fields'' extra)
                 else if kind = VolumeSourceSnapshot \<or> kind = VolumeSourceArchive
                   then Some (failAt ''capability_unsupported'' ''spec.source.kind'')
                 else if kind = VolumeSourceImage \<and> vs_Image src = [] then Some (failAt ''missing_field'' ''spec.source.image'')
                 else None)"

definition validateVolumeSpec :: "VolumeSpec \<Rightarrow> merr option" where
  "validateVolumeSpec s =
     (if vp_Environment s \<noteq> [] \<and> (length (vp_Environment s) > maxNameLength \<or> \<not> namePattern (vp_Environment s))
        then Some (failAt ''invalid_field'' ''spec.environment'')
      else if vp_Size s = [] then Some (failAt ''missing_field'' ''spec.size'')
      else case ParseQuantity (vp_Size s) of
             Inl _ \<Rightarrow> Some (failAt ''invalid_field'' ''spec.size'')
           | Inr bytes \<Rightarrow>
               if bytes \<le> 0 then Some (failAt ''invalid_field'' ''spec.size'')
               else if vp_Access s \<noteq> [] \<and> vp_Access s \<notin> set VolumeAccesses
                 then Some (failAt ''invalid_field'' ''spec.access'')
               else if vp_Class s \<noteq> [] then Some (failAt ''capability_unsupported'' ''spec.class'')
               else validateVolumeSource (vp_Source s))"

definition defaultVolume :: "VolumeSpec \<Rightarrow> VolumeSpec" where
  "defaultVolume s =
     s\<lparr>vp_Access := (if vp_Access s = [] then VolumeAccessSingle else vp_Access s),
       vp_Source := (if vs_Kind (vp_Source s) = [] then (vp_Source s)\<lparr>vs_Kind := VolumeSourceEmpty\<rparr> else vp_Source s),
       vp_Retain := (case vp_Retain s of None \<Rightarrow> Some True | Some r \<Rightarrow> Some r)\<rparr>"

definition volumeCapability :: "VolumeSpec \<Rightarrow> Environment \<Rightarrow> merr option" where
  "volumeCapability s env =
     (if \<not> cp_Volumes (et_Capabilities (ev_Status env)) then Some (failAt ''capability_unsupported'' ''spec.environment'')
      else if vs_Kind (vp_Source s) = VolumeSourceImage \<and> \<not> cp_VolumeImages (et_Capabilities (ev_Status env))
        then Some (failAt ''capability_unsupported'' ''spec.source.kind'')
      else None)"

definition imagePinned :: "VolumeSource \<Rightarrow> merr option" where
  "imagePinned src =
     (if vs_Kind src \<noteq> VolumeSourceImage \<or> PinnedImage (vs_Image src) then None
      else Some (failAt ''invalid_field'' ''spec.source.image''))"

definition admitVolumeImage :: "Volume \<Rightarrow> Environment \<Rightarrow> VolumeOptions \<Rightarrow> merr + string" where
  "admitVolumeImage obj env o' =
     (case vx_Admit o' of
        None \<Rightarrow> Inr (vs_Image (vp_Source (vo_Spec obj)))
      | Some f \<Rightarrow>
          (let probe = \<lparr>sb_APIVersion = APIVersion, sb_Kind = ''Sandbox'',
                 sb_Metadata = \<lparr>md_Name = [], md_Labels = md_Labels (vo_Metadata obj), md_Annotations = []\<rparr>,
                 sb_Spec = SandboxSpec0\<lparr>sp_Environment := vp_Environment (vo_Spec obj),
                             sp_Image := vs_Image (vp_Source (vo_Spec obj))\<rparr>,
                 sb_Status = SandboxStatus0\<rparr>
           in case f probe \<lparr>ar_Actor = vx_Actor o', ar_Claims = vx_Claims o', ar_Workload = None, ar_Action = ''create'',
                       ar_Existing = None, ar_Environment = env, ar_RequestID = vx_RequestID o', ar_Volume = Some obj\<rparr> of
                Inl (KnownErr known) \<Rightarrow> Inl known
              | Inl _ \<Rightarrow> Inl (fail ''admission_refused'')
              | Inr (None, _) \<Rightarrow> Inl (failAt ''admission_refused'' ''spec.source.image'')
              | Inr (Some out, _) \<Rightarrow>
                  if sp_Image (sb_Spec out) = [] then Inl (failAt ''admission_refused'' ''spec.source.image'')
                  else Inr (sp_Image (sb_Spec out))))"

definition with_image :: "string \<Rightarrow> Volume \<Rightarrow> Volume" where
  "with_image ref obj =
     obj\<lparr>vo_Spec := (vo_Spec obj)\<lparr>vp_Source := (vp_Source (vo_Spec obj))\<lparr>vs_Image := ref\<rparr>\<rparr>\<rparr>"

definition volume_changes :: "Volume \<Rightarrow> Volume \<Rightarrow> string list" where
  "volume_changes existing obj =
     map fst (filter snd
       [(''metadata.name'', md_Name (vo_Metadata existing) \<noteq> md_Name (vo_Metadata obj)),
        (''spec.environment'', vp_Environment (vo_Spec existing) \<noteq> vp_Environment (vo_Spec obj)),
        (''spec.class'', vp_Class (vo_Spec existing) \<noteq> vp_Class (vo_Spec obj)),
        (''spec.access'', vp_Access (vo_Spec existing) \<noteq> vp_Access (vo_Spec obj)),
        (''spec.source'', vp_Source (vo_Spec existing) \<noteq> vp_Source (vo_Spec obj))])"

definition volumeUpdate :: "Volume \<Rightarrow> Environment \<Rightarrow> Volume \<Rightarrow> VolumeOptions \<Rightarrow> merr + Volume" where
  "volumeUpdate obj env existing o' =
     (let src = vp_Source (vo_Spec obj); held = vp_Source (vo_Spec existing)
      in rbind (if vs_Kind src = VolumeSourceImage \<and> vs_Image src \<noteq> vs_Image held \<and> vs_Kind held = VolumeSourceImage
                then rbind (admitVolumeImage obj env o') (\<lambda>image.
                       Inr (if image = vs_Image held then with_image image obj else obj))
                else Inr obj) (\<lambda>obj.
           if volume_changes existing obj \<noteq> [] then Inl (failPaths ''immutable_field'' (volume_changes existing obj))
           else case ParseQuantity (vp_Size (vo_Spec existing)) of
                  Inl _ \<Rightarrow> Inl (ServerFault ''manifest'')
                | Inr before \<Rightarrow>
                    (case ParseQuantity (vp_Size (vo_Spec obj)) of
                       Inl _ \<Rightarrow> Inl (failAt ''invalid_field'' ''spec.size'')
                     | Inr after \<Rightarrow>
                         if after < before then Inl (failAt ''invalid_field'' ''spec.size'')
                         else if after > before then Inl (failAt ''capability_unsupported'' ''spec.size'')
                         else Inr (obj\<lparr>vo_Spec := (vo_Spec obj)\<lparr>vp_Size := vp_Size (vo_Spec existing)\<rparr>\<rparr>))))"

definition ResolveVolume :: "Volume option \<Rightarrow> VolumeOptions \<Rightarrow> merr + Volume" where
  "ResolveVolume input o' =
     (case (input, vx_Lookup o') of
        (None, _) \<Rightarrow> Inl (ServerFault ''manifest'')
      | (_, None) \<Rightarrow> Inl (ServerFault ''lookup'')
      | (Some obj, Some l) \<Rightarrow>
          if vo_APIVersion obj \<noteq> APIVersion then Inl (failAt ''unsupported_version'' ''apiVersion'')
          else if vo_Kind obj \<noteq> KindVolume then Inl (failAt ''unsupported_kind'' ''kind'')
          else guard_err (validateMetadata (vo_Metadata obj)) (
            if md_Name (vo_Metadata obj) = [] then Inl (failAt ''missing_field'' ''metadata.name'')
            else guard_err (validateVolumeSpec (vo_Spec obj)) (
              let named = (case vx_Existing o' of
                             Some e \<Rightarrow> if vp_Environment (vo_Spec obj) = [] then vp_Environment (vo_Spec e)
                                       else vp_Environment (vo_Spec obj)
                           | None \<Rightarrow> vp_Environment (vo_Spec obj))
              in rbind (lookupEnvironment l named) (\<lambda>env.
                let obj = obj\<lparr>vo_Status := VolumeStatus0,
                              vo_Spec := defaultVolume ((vo_Spec obj)\<lparr>vp_Environment := md_Name (ev_Metadata env)\<rparr>)\<rparr>
                in guard_err (volumeCapability (vo_Spec obj) env) (
                  case vx_Existing o' of
                    Some e \<Rightarrow> volumeUpdate obj env e o'
                  | None \<Rightarrow>
                      rbind (if vs_Kind (vp_Source (vo_Spec obj)) = VolumeSourceImage
                             then rbind (admitVolumeImage obj env o') (\<lambda>image. Inr (with_image image obj))
                             else Inr obj) (\<lambda>obj.
                        guard_err (imagePinned (vp_Source (vo_Spec obj))) (Inr obj)))))))"

section \<open>What a resolved volume is\<close>

lemma volume_changes_Nil:
  "volume_changes existing obj = [] \<longleftrightarrow>
     md_Name (vo_Metadata existing) = md_Name (vo_Metadata obj) \<and> vp_Environment (vo_Spec existing) = vp_Environment (vo_Spec obj)
     \<and> vp_Class (vo_Spec existing) = vp_Class (vo_Spec obj) \<and> vp_Access (vo_Spec existing) = vp_Access (vo_Spec obj)
     \<and> vp_Source (vo_Spec existing) = vp_Source (vo_Spec obj)"
  by (auto simp: volume_changes_def)

lemma with_image_simps [simp]:
  "vo_Metadata (with_image i obj) = vo_Metadata obj" "vp_Environment (vo_Spec (with_image i obj)) = vp_Environment (vo_Spec obj)"
  "vp_Class (vo_Spec (with_image i obj)) = vp_Class (vo_Spec obj)" "vp_Access (vo_Spec (with_image i obj)) = vp_Access (vo_Spec obj)"
  "vp_Size (vo_Spec (with_image i obj)) = vp_Size (vo_Spec obj)" "vp_Retain (vo_Spec (with_image i obj)) = vp_Retain (vo_Spec obj)"
  "vo_Status (with_image i obj) = vo_Status obj" "vp_Source (vo_Spec (with_image i obj)) = (vp_Source (vo_Spec obj))\<lparr>vs_Image := i\<rparr>"
  by (simp_all add: with_image_def)

lemma volumeUpdate_Inr:
  assumes "volumeUpdate obj env e o' = Inr out"
  obtains obj' where "volume_changes e obj' = []" "out = obj'\<lparr>vo_Spec := (vo_Spec obj')\<lparr>vp_Size := vp_Size (vo_Spec e)\<rparr>\<rparr>"
proof -
  from assms obtain obj' where "(if volume_changes e obj' \<noteq> [] then Inl (failPaths ''immutable_field'' (volume_changes e obj'))
      else case ParseQuantity (vp_Size (vo_Spec e)) of
             Inl _ \<Rightarrow> Inl (ServerFault ''manifest'')
           | Inr before \<Rightarrow>
               (case ParseQuantity (vp_Size (vo_Spec obj')) of
                  Inl _ \<Rightarrow> Inl (failAt ''invalid_field'' ''spec.size'')
                | Inr after \<Rightarrow>
                    if after < before then Inl (failAt ''invalid_field'' ''spec.size'')
                    else if after > before then Inl (failAt ''capability_unsupported'' ''spec.size'')
                    else Inr (obj'\<lparr>vo_Spec := (vo_Spec obj')\<lparr>vp_Size := vp_Size (vo_Spec e)\<rparr>\<rparr>))) = Inr out"
    unfolding volumeUpdate_def Let_def rbind_Inr by blast
  then show thesis by (intro that [of obj']) (auto split: if_splits sum.splits)
qed

lemma volumeUpdate_keeps:
  assumes "volumeUpdate obj env e o' = Inr out"
  shows "md_Name (vo_Metadata out) = md_Name (vo_Metadata e) \<and> (vo_Spec out)\<lparr>vp_Retain := vp_Retain (vo_Spec e)\<rparr> = vo_Spec e"
  by (rule volumeUpdate_Inr [OF assms]) (auto simp: volume_changes_Nil intro!: VolumeSpec.equality)

text \<open>An update that resolves keeps the stored volume's name and every field of its spec but \<open>retain\<close>: its
  environment, size, class, access and source are those it was created with, however the caller spelled them.\<close>

theorem ResolveVolume_update_keeps:
  assumes "ResolveVolume input o' = Inr out" and "vx_Existing o' = Some e"
  shows "md_Name (vo_Metadata out) = md_Name (vo_Metadata e) \<and> (vo_Spec out)\<lparr>vp_Retain := vp_Retain (vo_Spec e)\<rparr> = vo_Spec e"
proof -
  obtain obj env where "volumeUpdate obj env e o' = Inr out"
    using assms by (auto simp: ResolveVolume_def Let_def go_err split: option.splits if_splits)
  then show ?thesis by (rule volumeUpdate_keeps)
qed

text \<open>The volume as the stages before admission leave it.\<close>

definition prepared_volume :: "Volume \<Rightarrow> Environment \<Rightarrow> Volume" where
  "prepared_volume obj env =
     obj\<lparr>vo_Status := VolumeStatus0, vo_Spec := defaultVolume ((vo_Spec obj)\<lparr>vp_Environment := md_Name (ev_Metadata env)\<rparr>)\<rparr>"

lemma prepared_simps [simp]:
  "vo_Metadata (prepared_volume obj env) = vo_Metadata obj" "vp_Size (vo_Spec (prepared_volume obj env)) = vp_Size (vo_Spec obj)"
  "vp_Class (vo_Spec (prepared_volume obj env)) = vp_Class (vo_Spec obj)"
  "vp_Environment (vo_Spec (prepared_volume obj env)) = md_Name (ev_Metadata env)"
  "vp_Access (vo_Spec (prepared_volume obj env)) = (if vp_Access (vo_Spec obj) = [] then VolumeAccessSingle else vp_Access (vo_Spec obj))"
  "vp_Source (vo_Spec (prepared_volume obj env)) =
     (if vs_Kind (vp_Source (vo_Spec obj)) = [] then (vp_Source (vo_Spec obj))\<lparr>vs_Kind := VolumeSourceEmpty\<rparr> else vp_Source (vo_Spec obj))"
  by (simp_all add: prepared_volume_def defaultVolume_def)

definition named_environment :: "Volume \<Rightarrow> VolumeOptions \<Rightarrow> string" where
  "named_environment obj o' =
     (case vx_Existing o' of
        Some e \<Rightarrow> if vp_Environment (vo_Spec obj) = [] then vp_Environment (vo_Spec e) else vp_Environment (vo_Spec obj)
      | None \<Rightarrow> vp_Environment (vo_Spec obj))"

text \<open>The stages every apply passes before the two kinds of apply part.\<close>

definition volume_stages :: "Volume \<Rightarrow> VolumeOptions \<Rightarrow> Environment \<Rightarrow> bool" where
  "volume_stages obj o' env \<longleftrightarrow>
     (\<exists>l. vx_Lookup o' = Some l \<and> lookupEnvironment l (named_environment obj o') = Inr env)
     \<and> vo_APIVersion obj = APIVersion \<and> vo_Kind obj = KindVolume \<and> validateMetadata (vo_Metadata obj) = None
     \<and> md_Name (vo_Metadata obj) \<noteq> [] \<and> validateVolumeSpec (vo_Spec obj) = None
     \<and> volumeCapability (vo_Spec (prepared_volume obj env)) env = None"

definition admitted_volume :: "Volume \<Rightarrow> Environment \<Rightarrow> VolumeOptions \<Rightarrow> merr + Volume" where
  "admitted_volume obj env o' =
     (if vs_Kind (vp_Source (vo_Spec obj)) = VolumeSourceImage
      then rbind (admitVolumeImage obj env o') (\<lambda>ref. Inr (with_image ref obj)) else Inr obj)"

lemma ResolveVolume_Inr:
  "ResolveVolume input o' = Inr out \<longleftrightarrow>
     (\<exists>obj env. input = Some obj \<and> volume_stages obj o' env
        \<and> (case vx_Existing o' of
             Some e \<Rightarrow> volumeUpdate (prepared_volume obj env) env e o' = Inr out
           | None \<Rightarrow> admitted_volume (prepared_volume obj env) env o' = Inr out \<and> imagePinned (vp_Source (vo_Spec out)) = None))"
  (is "?l \<longleftrightarrow> ?r")
proof (cases "input = None \<or> vx_Lookup o' = None")
  case True
  then show ?thesis by (auto simp: ResolveVolume_def volume_stages_def split: option.splits)
next
  case False
  then obtain obj l where "input = Some obj" "vx_Lookup o' = Some l" by auto
  then show ?thesis
    by (cases "vx_Existing o'")
      (auto simp: ResolveVolume_def Let_def go_err volume_stages_def admitted_volume_def named_environment_def
        prepared_volume_def split: if_splits)
qed

lemma PinnedImage_digest:
  assumes "PinnedImage ref"
  shows "\<exists>repo hex. ref = repo @ ''@sha256:'' @ hex \<and> repo \<noteq> [] \<and> length hex = 64 \<and> list_all lower_hex hex"
proof -
  obtain i where i: "index_byte ref CHR ''@'' = Some i"
    using assms by (auto simp: PinnedImage_def cut_byte_def split: option.splits)
  let ?d = "drop (i + 1) ref"
  have d: "take i ref \<noteq> []" "take 7 ?d = ''sha256:''" "length ?d = 71" "list_all lower_hex (drop 7 ?d)"
    using assms i by (simp_all add: PinnedImage_def cut_byte_def)
  have "ref = take i ref @ ref ! i # ?d" using id_take_nth_drop [of i ref] index_byte_Some [OF i] by simp
  also have "?d = ''sha256:'' @ drop 7 ?d" using append_take_drop_id [of 7 ?d] d(2) by metis
  finally have "ref = take i ref @ ''@sha256:'' @ drop 7 ?d" using index_byte_Some [OF i] by simp
  with d show ?thesis by (intro exI [of _ "take i ref"] exI [of _ "drop 7 ?d"]) simp
qed

lemma validateVolumeSource_None:
  assumes "validateVolumeSource src = None"
  shows "vs_Kind src \<in> {[], VolumeSourceEmpty, VolumeSourceImage}"
proof -
  define kind where "kind = (if vs_Kind src = [] then VolumeSourceEmpty else vs_Kind src)"
  have "kind \<in> set VolumeSources" "kind \<noteq> VolumeSourceSnapshot" "kind \<noteq> VolumeSourceArchive"
    using assms unfolding validateVolumeSource_def kind_def [symmetric] Let_def by (metis option.distinct(1))+
  then show ?thesis by (auto simp: kind_def VolumeSources_def split: if_splits)
qed

lemma validateVolumeSpec_None:
  assumes "validateVolumeSpec s = None"
  shows "\<exists>n > 0. ParseQuantity (vp_Size s) = Inr n" "vp_Access s = [] \<or> vp_Access s \<in> set VolumeAccesses" "vp_Class s = []"
    "vs_Kind (vp_Source s) \<in> {[], VolumeSourceEmpty, VolumeSourceImage}"
proof -
  obtain n where n: "ParseQuantity (vp_Size s) = Inr n" "n > 0"
    using assms by (auto simp: validateVolumeSpec_def split: sum.splits if_splits)
  then show "\<exists>n > 0. ParseQuantity (vp_Size s) = Inr n" by auto
  show "vp_Access s = [] \<or> vp_Access s \<in> set VolumeAccesses" "vp_Class s = []"
    using assms n by (auto simp: validateVolumeSpec_def split: if_splits)
  have "validateVolumeSource (vp_Source s) = None"
    using assms n by (auto simp: validateVolumeSpec_def split: if_splits)
  then show "vs_Kind (vp_Source s) \<in> {[], VolumeSourceEmpty, VolumeSourceImage}" by (rule validateVolumeSource_None)
qed

text \<open>A volume a create resolves to has one of the two accesses, a positive size, no class and a source that is
  empty or an image pinned by its digest: what it will hold is named by content and not by a tag. It lives in
  the environment the lookup answered, which keeps volumes, and carries no status of the caller's.\<close>

theorem ResolveVolume_create_ok:
  assumes "ResolveVolume input o' = Inr out" and "vx_Existing o' = None"
  shows "vp_Access (vo_Spec out) \<in> set VolumeAccesses \<and> (\<exists>n > 0. ParseQuantity (vp_Size (vo_Spec out)) = Inr n)
    \<and> vp_Class (vo_Spec out) = [] \<and> vo_Status out = VolumeStatus0
    \<and> (vs_Kind (vp_Source (vo_Spec out)) = VolumeSourceEmpty
       \<or> vs_Kind (vp_Source (vo_Spec out)) = VolumeSourceImage
         \<and> (\<exists>repo hex. vs_Image (vp_Source (vo_Spec out)) = repo @ ''@sha256:'' @ hex \<and> length hex = 64 \<and> list_all lower_hex hex))
    \<and> (\<exists>l env. vx_Lookup o' = Some l \<and> (\<exists>name. lookupEnvironment l name = Inr env)
         \<and> vp_Environment (vo_Spec out) = md_Name (ev_Metadata env) \<and> cp_Volumes (et_Capabilities (ev_Status env)))"
proof -
  obtain obj env where s: "volume_stages obj o' env" and a: "admitted_volume (prepared_volume obj env) env o' = Inr out"
    and pin: "imagePinned (vp_Source (vo_Spec out)) = None"
    using assms by (auto simp: ResolveVolume_Inr)
  have spec: "validateVolumeSpec (vo_Spec obj) = None" using s by (simp add: volume_stages_def)
  note v = validateVolumeSpec_None [OF this]
  obtain ref where out: "out = (if vs_Kind (vp_Source (vo_Spec (prepared_volume obj env))) = VolumeSourceImage
      then with_image ref (prepared_volume obj env) else prepared_volume obj env)"
    using a by (auto simp: admitted_volume_def go_err split: if_splits)
  have "vs_Kind (vp_Source (vo_Spec out)) = vs_Kind (vp_Source (vo_Spec (prepared_volume obj env)))" using out by simp
  moreover have "vp_Environment (vo_Spec out) = md_Name (ev_Metadata env)" using out by simp
  moreover have "vo_Status out = VolumeStatus0" using out by (simp add: prepared_volume_def)
  moreover have "\<exists>l. vx_Lookup o' = Some l \<and> lookupEnvironment l (named_environment obj o') = Inr env"
    "cp_Volumes (et_Capabilities (ev_Status env))"
    using s by (auto simp: volume_stages_def volumeCapability_def split: if_splits)
  moreover have "vp_Access (vo_Spec out) \<in> set VolumeAccesses" "vp_Class (vo_Spec out) = []"
    "\<exists>n > 0. ParseQuantity (vp_Size (vo_Spec out)) = Inr n"
    using out v(1-3) by (auto simp: VolumeAccesses_def)
  ultimately show ?thesis
    using v(4) pin PinnedImage_digest [of "vs_Image (vp_Source (vo_Spec out))"]
    by (auto simp: imagePinned_def VolumeSourceEmpty_def VolumeSourceImage_def split: if_splits)
qed

lemma volumeUpdate_same:
  assumes "vs_Kind (vp_Source (vo_Spec p)) = VolumeSourceImage \<Longrightarrow> admitVolumeImage p env o' = Inr ref"
    and "q = (if vs_Kind (vp_Source (vo_Spec p)) = VolumeSourceImage then with_image ref p else p)"
    and "vo_Metadata e = vo_Metadata q" and "vo_Spec e = vo_Spec q" and "ParseQuantity (vp_Size (vo_Spec p)) = Inr n"
  shows "volumeUpdate p env e o' = Inr q"
proof -
  have size: "vp_Size (vo_Spec e) = vp_Size (vo_Spec p)" "vp_Size (vo_Spec q) = vp_Size (vo_Spec p)" using assms(2,4) by simp_all
  have keep: "q\<lparr>vo_Spec := (vo_Spec q)\<lparr>vp_Size := vp_Size (vo_Spec p)\<rparr>\<rparr> = q" using size(2) by simp
  have same: "volume_changes e q = []" using assms(3,4) by (simp add: volume_changes_Nil)
  have "(if vs_Kind (vp_Source (vo_Spec p)) = VolumeSourceImage \<and> vs_Image (vp_Source (vo_Spec p)) \<noteq> vs_Image (vp_Source (vo_Spec e))
            \<and> vs_Kind (vp_Source (vo_Spec e)) = VolumeSourceImage
         then rbind (admitVolumeImage p env o') (\<lambda>image.
                Inr (if image = vs_Image (vp_Source (vo_Spec e)) then with_image image p else p))
         else Inr p) = (Inr q :: merr + Volume)"
    using assms(1,2,4) by (auto simp: with_image_def)
  then show ?thesis
    unfolding volumeUpdate_def Let_def by (simp add: same size keep assms(5))
qed

text \<open>C37: a manifest applied twice is not refused: where an environment's own name looks the environment up, the
  manifest that created a volume resolves against the stored volume to the same volume, also where it names
  its image by a name that admission answers with the pinned reference.\<close>

theorem ResolveVolume_apply_twice:
  assumes "ResolveVolume (Some obj) o' = Inr out" and "vx_Existing o' = None" and "vx_Lookup o' = Some l"
    and "\<And>name env. lookupEnvironment l name = Inr env \<Longrightarrow> lookupEnvironment l (md_Name (ev_Metadata env)) = Inr env"
  shows "ResolveVolume (Some obj) (o'\<lparr>vx_Existing := Some (out\<lparr>vo_Status := status\<rparr>)\<rparr>) = Inr out"
proof -
  let ?o = "o'\<lparr>vx_Existing := Some (out\<lparr>vo_Status := status\<rparr>)\<rparr>"
  obtain env where s: "volume_stages obj o' env" and a: "admitted_volume (prepared_volume obj env) env o' = Inr out"
    using assms by (auto simp: ResolveVolume_Inr)
  let ?p = "prepared_volume obj env"
  have admit: "admitVolumeImage v env (o'\<lparr>vx_Existing := x\<rparr>) = admitVolumeImage v env o'" for v x
    by (simp add: admitVolumeImage_def cong: option.case_cong)
  obtain ref where out: "out = (if vs_Kind (vp_Source (vo_Spec ?p)) = VolumeSourceImage then with_image ref ?p else ?p)"
    and ref: "vs_Kind (vp_Source (vo_Spec ?p)) = VolumeSourceImage \<Longrightarrow> admitVolumeImage ?p env o' = Inr ref"
    using a by (auto simp: admitted_volume_def go_err split: if_splits)
  have "volume_stages obj ?o env"
    using s assms(2-4) out by (auto simp: volume_stages_def named_environment_def)
  moreover obtain n where "ParseQuantity (vp_Size (vo_Spec obj)) = Inr n"
    using validateVolumeSpec_None(1) s by (auto simp: volume_stages_def)
  then have "volumeUpdate ?p env (out\<lparr>vo_Status := status\<rparr>) ?o = Inr out"
    using ref out by (intro volumeUpdate_same [of ?p env ?o ref]) (simp_all add: admit)
  ultimately show ?thesis by (auto simp: ResolveVolume_Inr)
qed

section \<open>Witnesses\<close>

text \<open>An environment that keeps volumes, an admission step that answers a catalog name with a pinned reference, and
  a manifest that names its image by that name and neither its environment nor its access.\<close>

definition volume_environment :: Environment where
  "volume_environment = \<lparr>ev_APIVersion = [], ev_Kind = [],
     ev_Metadata = \<lparr>md_Name = ''desk'', md_Labels = [], md_Annotations = []\<rparr>,
     ev_Spec = \<lparr>en_Mode = [], en_Isolation = [],
       en_Capacity = \<lparr>ca_CPU = [], ca_Memory = [], ca_Disk = [], ca_Sandboxes = 0, ca_Auto = True\<rparr>,
       en_Scheduling = \<lparr>ds_Mode = [], ds_Queues = [], ds_DefaultQueue = []\<rparr>,
       en_Pool = \<lparr>pl_Size = 0, pl_Image = [], pl_Resources = sp_Resources SandboxSpec0, pl_Display = None\<rparr>,
       en_WorkspaceClass = [], en_Gateway = [], en_Workers = \<lparr>wk_Max = 0\<rparr>\<rparr>,
     ev_Status = \<lparr>et_ID = [], et_Owner = [], et_Phase = [], et_Reason = [], et_Driver = [], et_Isolation = [],
       et_Capabilities = \<lparr>cp_Egress = [], cp_Mesh = False, cp_Ingress = False, cp_Volumes = True,
         cp_VolumeImages = True, cp_Snapshots = False, cp_Attach = False, cp_Dial = False, cp_Display = False,
         cp_Input = False, cp_Resize = False, cp_Pool = False, cp_Files = False, cp_Detach = False,
         cp_HostWorkspace = False, cp_ExecStdin = False, cp_EgressLocal = False,
         cp_Autosize = \<lparr>az_CPU = False, az_Memory = False, az_Disk = False\<rparr>\<rparr>,
       et_Workers = 0, et_Hosts = [], et_Gateways = 0, et_LastHeartbeat = 0,
       et_Used = \<lparr>ca_CPU = [], ca_Memory = [], ca_Disk = [], ca_Sandboxes = 0, ca_Auto = False\<rparr>,
       et_Version = 0, et_CreatedAt = 0, et_UpdatedAt = 0\<rparr>\<rparr>"

definition pinned_ref :: string where
  "pinned_ref = ''images.local/base@sha256:'' @ replicate 64 CHR ''0''"

definition catalog_options :: VolumeOptions where
  "catalog_options = \<lparr>vx_Actor = \<lparr>ac_Subject = ''o'', ac_Issuer = [], ac_Sub = [], ac_Workload = False\<rparr>,
     vx_Lookup = Some (FixedEnvironment volume_environment),
     vx_Admit = Some (\<lambda>obj _. Inr (Some (obj\<lparr>sb_Spec := (sb_Spec obj)\<lparr>sp_Image := pinned_ref\<rparr>\<rparr>), [])),
     vx_Claims = [], vx_RequestID = [], vx_Existing = None\<rparr>"

definition catalog_manifest :: Volume where
  "catalog_manifest = \<lparr>vo_APIVersion = APIVersion, vo_Kind = KindVolume,
     vo_Metadata = \<lparr>md_Name = ''data'', md_Labels = [], md_Annotations = []\<rparr>,
     vo_Spec = \<lparr>vp_Environment = [], vp_Size = ''1Gi'', vp_Class = [], vp_Access = [],
       vp_Source = \<lparr>vs_Kind = VolumeSourceImage, vs_Snapshot = [], vs_Image = ''base'', vs_Archive = [], vs_SHA256 = []\<rparr>,
       vp_Retain = None\<rparr>,
     vo_Status = VolumeStatus0\<rparr>"

definition catalog_volume :: Volume where
  "catalog_volume = with_image pinned_ref (prepared_volume catalog_manifest volume_environment)"

lemma catalog_stage: "validateVolumeSpec (vo_Spec catalog_manifest) = None" "PinnedImage pinned_ref" "dns_label ''data''"
  by code_simp+

lemma catalog_stages:
  "x = None \<or> x = Some catalog_volume \<Longrightarrow> volume_stages catalog_manifest (catalog_options\<lparr>vx_Existing := x\<rparr>) volume_environment"
  using catalog_stage(1,3)
  by (auto simp: volume_stages_def named_environment_def catalog_options_def catalog_volume_def catalog_manifest_def
      volume_environment_def FixedEnvironment_def lookupEnvironment_def lookup_answer_def volumeCapability_def validate_eval
      prepared_volume_def defaultVolume_def)

lemma catalog_admits: "admitVolumeImage obj env (catalog_options\<lparr>vx_Existing := x\<rparr>) = Inr pinned_ref"
  by (simp add: admitVolumeImage_def catalog_options_def pinned_ref_def)

lemma catalog_resolves: "ResolveVolume (Some catalog_manifest) catalog_options = Inr catalog_volume"
  using catalog_stages [of None] catalog_admits [of _ _ None] catalog_stage(2)
  by (auto simp: ResolveVolume_Inr admitted_volume_def catalog_volume_def imagePinned_def catalog_options_def catalog_manifest_def
      volume_source_defs)

lemma catalog_lookup:
  "lookupEnvironment (FixedEnvironment volume_environment) name = Inr env \<Longrightarrow>
   lookupEnvironment (FixedEnvironment volume_environment) (md_Name (ev_Metadata env)) = Inr env"
  by (auto simp: lookupEnvironment_def lookup_answer_def FixedEnvironment_def split: if_splits)

lemma catalog_options_simps: "vx_Existing catalog_options = None"
  "vx_Lookup catalog_options = Some (FixedEnvironment volume_environment)"
  by (simp_all add: catalog_options_def)

theorem ResolveVolume_create_ok_witness:
  "vp_Access (vo_Spec catalog_volume) \<in> set VolumeAccesses"
  using ResolveVolume_create_ok [OF catalog_resolves catalog_options_simps(1)] by (rule conjunct1)

theorem ResolveVolume_apply_twice_witness:
  "ResolveVolume (Some catalog_manifest)
     (catalog_options\<lparr>vx_Existing := Some (catalog_volume\<lparr>vo_Status := VolumeStatus0\<rparr>)\<rparr>) = Inr catalog_volume"
  by (rule ResolveVolume_apply_twice [OF catalog_resolves catalog_options_simps catalog_lookup])

theorem ResolveVolume_update_keeps_witness:
  "md_Name (vo_Metadata catalog_volume) = md_Name (vo_Metadata catalog_volume)
   \<and> (vo_Spec catalog_volume)\<lparr>vp_Retain := vp_Retain (vo_Spec catalog_volume)\<rparr> = vo_Spec catalog_volume"
proof (rule ResolveVolume_update_keeps)
  let ?o = "catalog_options\<lparr>vx_Existing := Some catalog_volume\<rparr>"
  have "ParseQuantity ''1Gi'' = Inr 1073741824000" by code_simp
  then have "volumeUpdate (prepared_volume catalog_manifest volume_environment) volume_environment catalog_volume ?o = Inr catalog_volume"
    using catalog_admits by (intro volumeUpdate_same) (auto simp: catalog_volume_def catalog_manifest_def volume_source_defs)
  then show "ResolveVolume (Some catalog_manifest) ?o = Inr catalog_volume"
    using catalog_stages by (auto simp: ResolveVolume_Inr)
qed simp

end
