(* ===== verification/Volumes_Control.thy ===== *)
theory Volumes_Control
  imports Controller_State Manifest_Volume
begin

text \<open>
  The Volume kind as the controller keeps it (\<^verbatim>\<open>controller/volume.go\<close>): the caller's acts, the attach of a
  sandbox's mounts, the volume loop and the observation of volumes that went away. The store of volumes is
  the parameter \<open>co_volumes\<close> and each driver's volumes are its \<open>dr_VolumeDriver\<close>. A record the journal takes
  is part of the write; the emitter of a store without one, and the texts of errors, are left out. The loop
  releases the controller's lock while a driver works, so a fill is two operations, \<open>fill_ask\<close> and
  \<open>settleVolume\<close>, and the step relation below lets every other act run between them.
\<close>

section \<open>Constants\<close>

definition MutationVolumeCreated :: string where "MutationVolumeCreated = ''volume.created''"
definition MutationVolumeUpdated :: string where "MutationVolumeUpdated = ''volume.updated''"
definition MutationVolumeAttached :: string where "MutationVolumeAttached = ''volume.attached''"
definition MutationVolumeDetached :: string where "MutationVolumeDetached = ''volume.detached''"
definition MutationVolumeFailed :: string where "MutationVolumeFailed = ''volume.failed''"
definition MutationVolumeDeleted :: string where "MutationVolumeDeleted = ''volume.deleted''"
definition MutationVolumeStatus :: string where "MutationVolumeStatus = ''volume.status''"
definition VolumeModeReadOnly :: string where "VolumeModeReadOnly = ''read-only''"
definition VolumeModeReadWrite :: string where "VolumeModeReadWrite = ''read-write''"
definition ReasonVolumesUnavailable :: string where "ReasonVolumesUnavailable = ''VolumeUnavailable''"
definition ReasonSourceUnsupported :: string where "ReasonSourceUnsupported = ''SourceUnsupported''"
definition ConditionVolumesAttached :: string where "ConditionVolumesAttached = ''VolumesAttached''"

definition volume_act :: "string \<Rightarrow> Volume \<Rightarrow> VolumeAct" where
  "volume_act kind obj = \<lparr>ac_Type = kind, ac_Object = obj, ac_Sandbox = None, ac_Mode = []\<rparr>"

definition Volume0 :: Volume where
  "Volume0 = \<lparr>vo_APIVersion = [], vo_Kind = [], vo_Metadata = \<lparr>md_Name = [], md_Labels = [], md_Annotations = []\<rparr>,
     vo_Spec = \<lparr>vp_Environment = [], vp_Size = [], vp_Class = [], vp_Access = [],
       vp_Source = \<lparr>vs_Kind = [], vs_Snapshot = [], vs_Image = [], vs_Archive = [], vs_SHA256 = []\<rparr>, vp_Retain = None\<rparr>,
     vo_Status = VolumeStatus0\<rparr>"

section \<open>Reads\<close>

definition volumeDriver :: "'w Controller \<Rightarrow> string \<Rightarrow> cerr + 'w VolumeDriver" where
  "volumeDriver c environment =
     (case driverFor c environment of
        Inl e \<Rightarrow> Inl e
      | Inr d \<Rightarrow>
          (case dr_VolumeDriver d of
             Some vd \<Rightarrow> if cp_Volumes (dr_Capabilities d) then Inr vd else Inl DriverUnsupported
           | None \<Rightarrow> Inl DriverUnsupported))"

definition countVolumesLocked :: "'w Controller \<Rightarrow> string \<Rightarrow> int" where
  "countVolumesLocked c owner =
     int (length (filter (\<lambda>(_, v). vt_Owner (vo_Status v) = owner \<and> vt_Phase (vo_Status v) \<noteq> VolumeDeleting) (co_volumeObjects c)))"

definition attachedToLocked :: "'w Controller \<Rightarrow> string \<Rightarrow> string list" where
  "attachedToLocked c vid =
     sort_ordered (map (\<lambda>(_, sb). st_ID (sb_Status sb))
       (filter (\<lambda>(_, sb). st_Phase (sb_Status sb) \<noteq> PhaseDeleting
                 \<and> list_ex (\<lambda>a. va_Volume a = vid) (st_Volumes (sb_Status sb))) (co_objects c)))"

definition volumeRead :: "'w Controller \<Rightarrow> string \<Rightarrow> Volume" where
  "volumeRead c vid =
     (let out = (case map_of (co_volumeObjects c) vid of Some v \<Rightarrow> v | None \<Rightarrow> Volume0)
      in out\<lparr>vo_Status := (vo_Status out)\<lparr>vt_AttachedTo := attachedToLocked c vid\<rparr>\<rparr>)"

definition volumeIDLocked :: "'w Controller \<Rightarrow> string \<Rightarrow> string \<Rightarrow> string" where
  "volumeIDLocked c key owner =
     (if has_prefix key VolumeIDPrefix
      then (case map_of (co_volumeObjects c) key of Some _ \<Rightarrow> key | None \<Rightarrow> [])
      else case find (\<lambda>(_, v). vt_Owner (vo_Status v) = owner \<and> md_Name (vo_Metadata v) = key) (co_volumeObjects c) of
             Some (vid, _) \<Rightarrow> vid
           | None \<Rightarrow> [])"

definition GetVolume :: "'w Controller \<Rightarrow> string \<Rightarrow> string \<Rightarrow> cerr + Volume" where
  "GetVolume c key owner =
     (let vid = volumeIDLocked c key owner in if vid = [] then Inl cerr.ErrNotFound else Inr (volumeRead c vid))"

definition ListVolumes :: "'w Controller \<Rightarrow> Volume list" where
  "ListVolumes c = sort_key (\<lambda>v. vt_ID (vo_Status v)) (map (\<lambda>(vid, _). volumeRead c vid) (co_volumeObjects c))"

definition VolumeFor :: "'w Controller \<Rightarrow> string \<Rightarrow> string \<Rightarrow> seam_err + Volume option" where
  "VolumeFor c nameOrID owner =
     (let vid = volumeIDLocked c nameOrID owner
      in if vid = [] then Inl seam_err.ErrNotFound else Inr (Some (volumeRead c vid)))"

section \<open>Writes\<close>

definition wakeVolumes :: "'w Controller \<Rightarrow> 'w Controller" where
  "wakeVolumes c = c\<lparr>co_volumeWake := True\<rparr>"

definition persistVolume :: "'w Controller \<Rightarrow> VolumeAct \<Rightarrow> cerr option \<times> 'w Controller" where
  "persistVolume c act =
     (case co_volumes c of
        None \<Rightarrow> (Some ErrNoVolumeStore, c)
      | Some vl \<Rightarrow>
          (let obj = (ac_Object act)\<lparr>vo_Status := (vo_Status (ac_Object act))\<lparr>vt_AttachedTo := []\<rparr>\<rparr>
           in case vl_WriteVolume vl (act\<lparr>ac_Object := obj\<rparr>) (co_world c) of
                (Some e, w) \<Rightarrow> (Some e, c\<lparr>co_world := w\<rparr>)
              | (None, w) \<Rightarrow>
                  (None, c\<lparr>co_world := w, co_volumeObjects := AList.update (vt_ID (vo_Status obj)) obj (co_volumeObjects c)\<rparr>)))"

definition removeVolume :: "'w Controller \<Rightarrow> VolumeAct \<Rightarrow> cerr option \<times> 'w Controller" where
  "removeVolume c act =
     (case co_volumes c of
        None \<Rightarrow> (Some ErrNoVolumeStore, c)
      | Some vl \<Rightarrow>
          (let obj = (ac_Object act)\<lparr>vo_Status := (vo_Status (ac_Object act))\<lparr>vt_AttachedTo := []\<rparr>\<rparr>
           in case vl_RemoveVolume vl (act\<lparr>ac_Object := obj\<rparr>) (co_world c) of
                (Some e, w) \<Rightarrow> (Some e, c\<lparr>co_world := w\<rparr>)
              | (None, w) \<Rightarrow>
                  (None, c\<lparr>co_world := w, co_volumeObjects := AList.delete (vt_ID (vo_Status obj)) (co_volumeObjects c)\<rparr>)))"

definition volume_phase :: "string \<Rightarrow> gotime \<Rightarrow> Volume \<Rightarrow> Volume" where
  "volume_phase phase now obj = obj\<lparr>vo_Status := (vo_Status obj)\<lparr>vt_Phase := phase, vt_UpdatedAt := now\<rparr>\<rparr>"

definition CreateVolume :: "'w Controller \<Rightarrow> Volume \<Rightarrow> string \<Rightarrow> int \<Rightarrow> (cerr + Volume) \<times> 'w Controller" where
  "CreateVolume c obj owner mx =
     (if co_volumes c = None then (Inl ErrNoVolumeStore, c)
      else if owner = [] then (Inl (ErrOther ''owner''), c)
      else if list_ex (\<lambda>(_, v). vt_Owner (vo_Status v) = owner \<and> md_Name (vo_Metadata v) = md_Name (vo_Metadata obj)) (co_volumeObjects c)
        then (Inl ErrNameTaken, c)
      else if mx > 0 \<and> countVolumesLocked c owner \<ge> mx then (Inl ErrVolumeQuota, c)
      else case admits c (vp_Environment (vo_Spec obj)) of
             Some e \<Rightarrow> (Inl e, c)
           | None \<Rightarrow>
               (case volumeDriver c (vp_Environment (vo_Spec obj)) of
                  Inl e \<Rightarrow> (Inl e, c)
                | Inr _ \<Rightarrow>
                    (let (vid, w) = co_newID c VolumeIDPrefix (co_world c);
                         c1 = c\<lparr>co_world := w\<rparr>;
                         now = co_wall c1 w;
                         made = obj\<lparr>vo_Status := VolumeStatus0\<lparr>vt_ID := vid, vt_Owner := owner, vt_Phase := VolumePending,
                                  vt_CreatedAt := now, vt_UpdatedAt := now\<rparr>\<rparr>
                     in case persistVolume c1 (volume_act MutationVolumeCreated made) of
                          (Some e, c2) \<Rightarrow> (Inl e, c2)
                        | (None, c2) \<Rightarrow> (Inr (volumeRead (wakeVolumes c2) vid), wakeVolumes c2))))"

definition UpdateVolume :: "'w Controller \<Rightarrow> Volume \<Rightarrow> string \<Rightarrow> (cerr + Volume) \<times> 'w Controller" where
  "UpdateVolume c obj vid =
     (if co_volumes c = None then (Inl ErrNoVolumeStore, c)
      else case map_of (co_volumeObjects c) vid of
             None \<Rightarrow> (Inl cerr.ErrNotFound, c)
           | Some held \<Rightarrow>
               (let made = obj\<lparr>vo_Status := (vo_Status held)\<lparr>vt_UpdatedAt := co_wall c (co_world c)\<rparr>\<rparr>
                in case persistVolume c (volume_act MutationVolumeUpdated made) of
                     (Some e, c1) \<Rightarrow> (Inl e, c1)
                   | (None, c1) \<Rightarrow> (Inr (volumeRead c1 vid), c1)))"

definition finishVolumeDelete :: "'w Controller \<Rightarrow> Volume \<Rightarrow> cerr option \<times> 'w Controller" where
  "finishVolumeDelete c held =
     (case volumeDriver c (vp_Environment (vo_Spec held)) of
        Inl e \<Rightarrow> (Some e, c)
      | Inr vd \<Rightarrow>
          (case vd_DeleteVolume vd (vt_ID (vo_Status held)) (co_world c) of
             (Some e, w) \<Rightarrow>
               if errors_Is e DriverNotFound then removeVolume (c\<lparr>co_world := w\<rparr>) (volume_act MutationVolumeDeleted held)
               else (Some e, c\<lparr>co_world := w\<rparr>)
           | (None, w) \<Rightarrow> removeVolume (c\<lparr>co_world := w\<rparr>) (volume_act MutationVolumeDeleted held)))"

definition DeleteVolume :: "'w Controller \<Rightarrow> string \<Rightarrow> (cerr + Volume) \<times> 'w Controller" where
  "DeleteVolume c vid =
     (if co_volumes c = None then (Inl ErrNoVolumeStore, c)
      else case map_of (co_volumeObjects c) vid of
             None \<Rightarrow> (Inl cerr.ErrNotFound, c)
           | Some held \<Rightarrow>
               if attachedToLocked c vid \<noteq> [] then (Inl ErrVolumeBusy, c)
               else let gone = (if vt_Phase (vo_Status held) \<noteq> VolumeDeleting
                                then volume_phase VolumeDeleting (co_wall c (co_world c)) held else held);
                        (e, c1) = (if vt_Phase (vo_Status held) \<noteq> VolumeDeleting
                                   then persistVolume c (volume_act MutationVolumeStatus gone) else (None, c))
                    in case e of
                         Some e' \<Rightarrow> (Inl e', c1)
                       | None \<Rightarrow>
                           if vid \<in> set (co_filling c1) then (Inr (volumeRead c1 vid), c1)
                           else case finishVolumeDelete c1 gone of (f, c2) \<Rightarrow>
                                  (Inr (gone\<lparr>vo_Status := (vo_Status gone)\<lparr>vt_AttachedTo := []\<rparr>\<rparr>),
                                   if f = None then c2 else wakeVolumes c2))"

section \<open>Attaching\<close>

definition mountReadOnly :: "Sandbox \<Rightarrow> string \<Rightarrow> bool" where
  "mountReadOnly sb name =
     (case find (\<lambda>m. vm_Name m = name) (sp_Volumes (sb_Spec sb)) of Some m \<Rightarrow> vm_ReadOnly m | None \<Rightarrow> False)"

definition attachableLocked :: "'w Controller \<Rightarrow> Volume \<Rightarrow> bool \<Rightarrow> cerr option" where
  "attachableLocked c vol readOnly =
     (if vp_Access (vo_Spec vol) = VolumeAccessSharedRead then (if \<not> readOnly then Some ErrVolumeBusy else None)
      else if list_ex (\<lambda>(_, sb). st_Phase (sb_Status sb) \<noteq> PhaseDeleting
                \<and> list_ex (\<lambda>a. va_Volume a = vt_ID (vo_Status vol) \<and> (\<not> readOnly \<or> \<not> mountReadOnly sb (va_Name a)))
                    (st_Volumes (sb_Status sb))) (co_objects c)
        then Some ErrVolumeBusy
      else None)"

fun bind_mounts :: "'w Controller \<Rightarrow> Sandbox \<Rightarrow> VolumeMount list \<Rightarrow> cerr + VolumeAttachment list" where
  "bind_mounts c obj [] = Inr []"
| "bind_mounts c obj (m # ms) =
     (let vid = volumeIDLocked c (vm_Volume m) (st_Owner (sb_Status obj))
      in if vid = [] then Inl cerr.ErrNotFound
         else let vol = (case map_of (co_volumeObjects c) vid of Some v \<Rightarrow> v | None \<Rightarrow> Volume0)
              in if vp_Environment (vo_Spec vol) \<noteq> st_Environment (sb_Status obj) then Inl (ErrInvalidField ''spec.volumes'')
                 else if vt_Phase (vo_Status vol) \<noteq> VolumeAvailable \<and> vt_Phase (vo_Status vol) \<noteq> VolumePending
                   then Inl (ErrInvalidField ''spec.volumes'')
                 else case attachableLocked c vol (vm_ReadOnly m) of
                        Some e \<Rightarrow> Inl e
                      | None \<Rightarrow>
                          rbind (bind_mounts c obj ms) (\<lambda>bound.
                            Inr (\<lparr>va_Name = vm_Name m, va_Volume = vid, va_Attached = False\<rparr> # bound)))"

definition bindVolumesLocked :: "'w Controller \<Rightarrow> Sandbox \<Rightarrow> cerr + Sandbox" where
  "bindVolumesLocked c obj =
     (if sp_Volumes (sb_Spec obj) = [] then Inr obj
      else if co_volumes c = None then Inl ErrNoVolumeStore
      else rbind (bind_mounts c obj (sp_Volumes (sb_Spec obj))) (\<lambda>bound.
             Inr (obj\<lparr>sb_Status := (sb_Status obj)\<lparr>st_Volumes := bound\<rparr>\<rparr>)))"

fun ready_loop :: "'w Controller \<Rightarrow> bool \<Rightarrow> VolumeAttachment list \<Rightarrow> cerr + bool" where
  "ready_loop c ready [] = Inr ready"
| "ready_loop c ready (a # as) =
     (case map_of (co_volumeObjects c) (va_Volume a) of
        None \<Rightarrow> Inl (ErrOther ''gone'')
      | Some vol \<Rightarrow>
          if vt_Phase (vo_Status vol) = VolumePending then ready_loop c False as
          else if vt_Phase (vo_Status vol) \<noteq> VolumeAvailable then Inl (ErrOther ''unavailable'')
          else ready_loop c ready as)"

definition volumesReadyLocked :: "'w Controller \<Rightarrow> Sandbox \<Rightarrow> cerr + bool" where
  "volumesReadyLocked c obj = ready_loop c True (st_Volumes (sb_Status obj))"

definition volumesUnavailable :: "gotime \<Rightarrow> Condition" where
  "volumesUnavailable now =
     \<lparr>cd_Type = ConditionVolumesAttached, cd_Status = ConditionFalse, cd_Reason = ReasonVolumesUnavailable,
      cd_Message = ''A volume could not be attached.'', cd_Since = now\<rparr>"

definition mountsOf :: "Sandbox \<Rightarrow> Mount list" where
  "mountsOf obj =
     (let ids = rev (map (\<lambda>a. (va_Name a, va_Volume a)) (st_Volumes (sb_Status obj)))
      in map (\<lambda>m. \<lparr>mo_Name = vm_Name m, mo_VolumeID = map_get ids (vm_Name m), mo_Path = vm_Path m, mo_ReadOnly = vm_ReadOnly m\<rparr>)
           (sp_Volumes (sb_Spec obj)))"

definition markAttached :: "Sandbox \<Rightarrow> gotime \<Rightarrow> Sandbox" where
  "markAttached obj now =
     (if st_Volumes (sb_Status obj) = [] then obj
      else obj\<lparr>sb_Status := (sb_Status obj)\<lparr>
             st_Volumes := map (\<lambda>a. a\<lparr>va_Attached := True\<rparr>) (st_Volumes (sb_Status obj)),
             st_Conditions := setCondition (st_Conditions (sb_Status obj))
               \<lparr>cd_Type = ConditionVolumesAttached, cd_Status = ConditionTrue, cd_Reason = [], cd_Message = [], cd_Since = now\<rparr>\<rparr>\<rparr>)"

text \<open>A record that is not written is logged and the act stands. The sandbox of a record is its exported view, which
  no definition here reads; the record carries the object.\<close>

fun record_each :: "'w Controller \<Rightarrow> Sandbox \<Rightarrow> string \<Rightarrow> VolumeAttachment list \<Rightarrow> 'w Controller" where
  "record_each c obj mutation [] = c"
| "record_each c obj mutation (a # as) =
     (case map_of (co_volumeObjects c) (va_Volume a) of
        None \<Rightarrow> record_each c obj mutation as
      | Some vol \<Rightarrow>
          let mode = (if mountReadOnly obj (va_Name a) then VolumeModeReadOnly else VolumeModeReadWrite)
          in record_each (snd (persistVolume c \<lparr>ac_Type = mutation, ac_Object = vol, ac_Sandbox = Some obj, ac_Mode = mode\<rparr>))
               obj mutation as)"

definition recordAttachments :: "'w Controller \<Rightarrow> Sandbox \<Rightarrow> string \<Rightarrow> 'w Controller" where
  "recordAttachments c obj mutation = record_each c obj mutation (st_Volumes (sb_Status obj))"

fun release_each :: "'w Controller \<Rightarrow> bool \<Rightarrow> VolumeAttachment list \<Rightarrow> bool \<times> 'w Controller" where
  "release_each c woken [] = (woken, c)"
| "release_each c woken (a # as) =
     (case map_of (co_volumeObjects c) (va_Volume a) of
        None \<Rightarrow> release_each c woken as
      | Some vol \<Rightarrow>
          if VolumeSpec_Retains (vo_Spec vol) \<or> vt_Phase (vo_Status vol) = VolumeDeleting \<or> attachedToLocked c (va_Volume a) \<noteq> []
          then release_each c woken as
          else case persistVolume c (volume_act MutationVolumeStatus (volume_phase VolumeDeleting (co_wall c (co_world c)) vol)) of
                 (Some _, c1) \<Rightarrow> release_each c1 woken as
               | (None, c1) \<Rightarrow> release_each c1 True as)"

definition releaseVolumesLocked :: "'w Controller \<Rightarrow> Sandbox \<Rightarrow> 'w Controller" where
  "releaseVolumesLocked c obj =
     (if st_Volumes (sb_Status obj) = [] then c
      else case release_each (recordAttachments c obj MutationVolumeDetached) False (st_Volumes (sb_Status obj)) of
             (woken, c1) \<Rightarrow> if woken then wakeVolumes c1 else c1)"

section \<open>The volume loop\<close>

definition FillVolumes :: "'w Controller \<Rightarrow> Volume list \<times> 'w Controller" where
  "FillVolumes c =
     (let due = map snd (filter (\<lambda>(vid, obj). vid \<notin> set (co_filling c)
                    \<and> (vt_Phase (vo_Status obj) = VolumePending \<or> vt_Phase (vo_Status obj) = VolumeDeleting)) (co_volumeObjects c))
      in (due, c\<lparr>co_filling := map (\<lambda>obj. vt_ID (vo_Status obj)) due @ co_filling c\<rparr>))"

definition volumeSpecOf :: "Volume \<Rightarrow> DriverVolumeSpec" where
  "volumeSpecOf obj =
     \<lparr>dvs_ID = vt_ID (vo_Status obj), dvs_Name = md_Name (vo_Metadata obj), dvs_Owner = vt_Owner (vo_Status obj),
      dvs_Size = vp_Size (vo_Spec obj), dvs_Access = vp_Access (vo_Spec obj),
      dvs_Source_Kind = vs_Kind (vp_Source (vo_Spec obj)), dvs_Source_Image = vs_Image (vp_Source (vo_Spec obj))\<rparr>"

fun first_fill_error :: "cerr \<Rightarrow> (string \<times> string) option" and first_fill_errors :: "cerr list \<Rightarrow> (string \<times> string) option" where
  "first_fill_error (FillError reason message) = Some (reason, message)"
| "first_fill_error (ErrJoin es) = first_fill_errors es"
| "first_fill_error _ = None"
| "first_fill_errors [] = None"
| "first_fill_errors (e # es) = (case first_fill_error e of Some f \<Rightarrow> Some f | None \<Rightarrow> first_fill_errors es)"

definition applySource :: "'w VolumeDriver \<Rightarrow> Volume \<Rightarrow> 'w \<Rightarrow> (cerr + VolumeState) \<times> 'w" where
  "applySource vd obj w =
     (let vid = vt_ID (vo_Status obj);
          state = \<lambda>phase reason message. \<lparr>vst_ID = vid, vst_Phase = phase, vst_Reason = reason, vst_Message = message, vst_Capacity = []\<rparr>;
          read = \<lambda>w. (case vd_InspectVolume vd vid w of
                        (Inl e, w') \<Rightarrow> if errors_Is e DriverNotFound then (Inr (state VolumePending [] []), w') else (Inl e, w')
                      | (Inr st, w') \<Rightarrow> (Inr st, w'))
      in case vd_CreateVolume vd (volumeSpecOf obj) w of
           (None, w1) \<Rightarrow> read w1
         | (Some e, w1) \<Rightarrow>
             if errors_Is e DriverAlreadyExists then read w1
             else case first_fill_error e of
                    Some (reason, message) \<Rightarrow> (Inr (state VolumeFailed reason message), w1)
                  | None \<Rightarrow>
                      if errors_Is e DriverUnsupported then (Inr (state VolumeFailed ReasonSourceUnsupported []), w1)
                      else (Inl e, w1))"

definition settleVolume :: "'w Controller \<Rightarrow> 'w VolumeDriver \<Rightarrow> string \<Rightarrow> VolumeState \<Rightarrow> 'w Controller" where
  "settleVolume c vd vid state =
     (case map_of (co_volumeObjects c) vid of
        None \<Rightarrow> c\<lparr>co_world := snd (vd_DeleteVolume vd vid (co_world c))\<rparr>
      | Some cur \<Rightarrow>
          if vt_Phase (vo_Status cur) = VolumeDeleting then snd (finishVolumeDelete c cur)
          else if vt_Phase (vo_Status cur) \<noteq> VolumePending then c
          else let now = co_wall c (co_world c);
                   filled = volume_phase VolumeAvailable now cur;
                   filled = filled\<lparr>vo_Status := (vo_Status filled)\<lparr>vt_Capacity :=
                     (if vst_Capacity state = [] then vp_Size (vo_Spec cur) else vst_Capacity state)\<rparr>\<rparr>;
                   failed = volume_phase VolumeFailed now cur;
                   failed = failed\<lparr>vo_Status := (vo_Status failed)\<lparr>vt_Reason := vst_Reason state, vt_Message := vst_Message state\<rparr>\<rparr>;
                   settle = \<lambda>act. (case persistVolume c act of (Some _, c1) \<Rightarrow> c1 | (None, c1) \<Rightarrow> wakeScheduler c1)
               in if vst_Phase state = VolumeAvailable then settle (volume_act MutationVolumeStatus filled)
                  else if vst_Phase state = VolumeFailed then settle (volume_act MutationVolumeFailed failed)
                  else c)"

definition unfill :: "string \<Rightarrow> 'w Controller \<Rightarrow> 'w Controller" where
  "unfill vid c = c\<lparr>co_filling := removeAll vid (co_filling c)\<rparr>"

text \<open>The half of \<^verbatim>\<open>fill\<close> before the lock is taken again: the driver's answer to a Pending volume, with
  the driver it was asked of; a delete left to the loop needs none.\<close>

definition fill_ask :: "'w Controller \<Rightarrow> Volume \<Rightarrow> ('w VolumeDriver \<times> VolumeState) option \<times> 'w Controller" where
  "fill_ask c obj =
     (case volumeDriver c (vp_Environment (vo_Spec obj)) of
        Inl _ \<Rightarrow> (None, c)
      | Inr vd \<Rightarrow>
          if vt_Phase (vo_Status obj) = VolumeDeleting
          then (None, case map_of (co_volumeObjects c) (vt_ID (vo_Status obj)) of
                        Some cur \<Rightarrow> if vt_Phase (vo_Status cur) = VolumeDeleting then snd (finishVolumeDelete c cur) else c
                      | None \<Rightarrow> c)
          else case applySource vd obj (co_world c) of
                 (Inl _, w) \<Rightarrow> (None, c\<lparr>co_world := w\<rparr>)
               | (Inr state, w) \<Rightarrow> (Some (vd, state), c\<lparr>co_world := w\<rparr>))"

definition fill :: "'w Controller \<Rightarrow> Volume \<Rightarrow> bool \<Rightarrow> 'w Controller" where
  "fill c obj cancelled =
     (case fill_ask c obj of
        (None, c1) \<Rightarrow> unfill (vt_ID (vo_Status obj)) c1
      | (Some (vd, state), c1) \<Rightarrow>
          unfill (vt_ID (vo_Status obj)) (if cancelled then c1 else settleVolume c1 vd (vt_ID (vo_Status obj)) state))"

definition observe_volume :: "'w Controller \<Rightarrow> Volume \<Rightarrow> cerr option \<times> 'w Controller" where
  "observe_volume c obj =
     (case volumeDriver c (vp_Environment (vo_Spec obj)) of
        Inl _ \<Rightarrow> (None, c)
      | Inr vd \<Rightarrow>
          (case vd_InspectVolume vd (vt_ID (vo_Status obj)) (co_world c) of
             (Inr _, w) \<Rightarrow> (None, c\<lparr>co_world := w\<rparr>)
           | (Inl e, w) \<Rightarrow>
               if \<not> errors_Is e DriverNotFound then (Some e, c\<lparr>co_world := w\<rparr>)
               else case map_of (co_volumeObjects c) (vt_ID (vo_Status obj)) of
                      None \<Rightarrow> (None, c\<lparr>co_world := w\<rparr>)
                    | Some cur \<Rightarrow>
                        if vt_Phase (vo_Status cur) = VolumeAvailable
                        then persistVolume (c\<lparr>co_world := w\<rparr>) (volume_act MutationVolumeStatus (volume_phase VolumeLost (co_wall c w) cur))
                        else (None, c\<lparr>co_world := w\<rparr>)))"

fun observe_volumes :: "'w Controller \<Rightarrow> Volume list \<Rightarrow> cerr option list \<times> 'w Controller" where
  "observe_volumes c [] = ([], c)"
| "observe_volumes c (obj # objs) =
     (case observe_volume c obj of (e, c1) \<Rightarrow> (case observe_volumes c1 objs of (es, c2) \<Rightarrow> (e # es, c2)))"

definition observeVolumes :: "'w Controller \<Rightarrow> cerr option \<times> 'w Controller" where
  "observeVolumes c =
     (if co_volumes c = None then (None, c)
      else case observe_volumes c (map snd (filter (\<lambda>(_, obj). vt_Phase (vo_Status obj) = VolumeAvailable) (co_volumeObjects c))) of
             (es, c1) \<Rightarrow> (errors_Join es, c1))"

end
