(* ===== verification/Volumes_Facts.thy ===== *)
theory Volumes_Facts
  imports Volumes_Control
begin

text \<open>
  What the volume half of the controller keeps, over every interleaving of the caller's acts, the volume loop,
  the reaper's observation and the life of sandboxes. \<open>volume_change\<close> is the abstract step of the collection
  of volumes, which every operation refines; \<open>volume_step\<close> is the system.
\<close>

section \<open>The collection and its abstract step\<close>

type_synonym objects = "(string \<times> Sandbox) list"
type_synonym volumes = "(string \<times> Volume) list"

definition live :: "objects \<Rightarrow> string \<Rightarrow> Sandbox \<Rightarrow> bool" where
  "live objs k sb \<longleftrightarrow> map_of objs k = Some sb \<and> st_Phase (sb_Status sb) \<noteq> PhaseDeleting"

definition attachments :: "Sandbox \<Rightarrow> VolumeAttachment set" where
  "attachments sb = set (st_Volumes (sb_Status sb))"

text \<open>No sandbox that has not begun to go is bound to the volume.\<close>

definition unbound :: "objects \<Rightarrow> string \<Rightarrow> bool" where
  "unbound objs vid \<longleftrightarrow> (\<forall>k sb a. live objs k sb \<longrightarrow> a \<in> attachments sb \<longrightarrow> va_Volume a \<noteq> vid)"

abbreviation volume_access :: "Volume \<Rightarrow> string" where "volume_access v \<equiv> vp_Access (vo_Spec v)"
abbreviation vphase :: "Volume \<Rightarrow> string" where "vphase v \<equiv> vt_Phase (vo_Status v)"

definition same_volume :: "Volume \<Rightarrow> Volume \<Rightarrow> bool" where
  "same_volume v v' \<longleftrightarrow> vt_ID (vo_Status v') = vt_ID (vo_Status v) \<and> vt_Owner (vo_Status v') = vt_Owner (vo_Status v)
     \<and> md_Name (vo_Metadata v') = md_Name (vo_Metadata v) \<and> volume_access v' = volume_access v"

inductive volume_change :: "objects \<Rightarrow> volumes \<Rightarrow> volumes \<Rightarrow> bool" for objs where
  change: "map_of vols vid = Some v \<Longrightarrow> same_volume v v' \<Longrightarrow>
    (vphase v' = VolumeDeleting \<longrightarrow> vphase v = VolumeDeleting \<or> unbound objs vid) \<Longrightarrow>
    volume_change objs vols (AList.update vid v' vols)"
| drop: "map_of vols vid = Some v \<Longrightarrow> vphase v = VolumeDeleting \<Longrightarrow> volume_change objs vols (AList.delete vid vols)"

section \<open>The invariant\<close>

text \<open>Each volume is held under its own id; two volumes of one owner have two names; a volume that a live sandbox is
  bound to is held and is not being deleted; a shared-read volume is attached read-only, and a volume two
  live sandboxes are bound to is attached read-only by both.\<close>

definition volumes_keyed :: "volumes \<Rightarrow> bool" where
  "volumes_keyed vols \<longleftrightarrow> map_ok vols \<and> list_all (\<lambda>(k, v). vt_ID (vo_Status v) = k) vols"

definition names_unique :: "volumes \<Rightarrow> bool" where
  "names_unique vols \<longleftrightarrow> (\<forall>i v j u. map_of vols i = Some v \<longrightarrow> map_of vols j = Some u \<longrightarrow>
     vt_Owner (vo_Status v) = vt_Owner (vo_Status u) \<longrightarrow> md_Name (vo_Metadata v) = md_Name (vo_Metadata u) \<longrightarrow> i = j)"

definition bound_held :: "objects \<Rightarrow> volumes \<Rightarrow> bool" where
  "bound_held objs vols \<longleftrightarrow> (\<forall>k sb a. live objs k sb \<longrightarrow> a \<in> attachments sb \<longrightarrow>
     (\<exists>v. map_of vols (va_Volume a) = Some v \<and> vphase v \<noteq> VolumeDeleting))"

definition access_kept :: "objects \<Rightarrow> volumes \<Rightarrow> bool" where
  "access_kept objs vols \<longleftrightarrow> (\<forall>k sb a v. live objs k sb \<longrightarrow> a \<in> attachments sb \<longrightarrow> map_of vols (va_Volume a) = Some v \<longrightarrow>
     (volume_access v = VolumeAccessSharedRead \<or> (\<exists>k' sb' a'. k' \<noteq> k \<and> live objs k' sb' \<and> a' \<in> attachments sb' \<and> va_Volume a' = va_Volume a) \<longrightarrow>
        mountReadOnly sb (va_Name a)))"

definition volume_inv :: "objects \<Rightarrow> volumes \<Rightarrow> bool" where
  "volume_inv objs vols \<longleftrightarrow> objects_ok objs \<and> volumes_keyed vols \<and> names_unique vols \<and> bound_held objs vols \<and> access_kept objs vols"

lemma volumes_keyed_update: "volumes_keyed vols \<Longrightarrow> vt_ID (vo_Status v) = vid \<Longrightarrow> volumes_keyed (AList.update vid v vols)"
  by (simp add: volumes_keyed_def map_ok_update list_all_update)

lemma volumes_keyed_ID: "volumes_keyed vols \<Longrightarrow> map_of vols vid = Some v \<Longrightarrow> vt_ID (vo_Status v) = vid"
  by (auto simp: volumes_keyed_def list_all_iff dest: map_of_SomeD)

lemma volumes_keyed_delete: "volumes_keyed vols \<Longrightarrow> volumes_keyed (AList.delete vid vols)"
  by (simp add: volumes_keyed_def map_ok_delete) (auto simp: list_all_iff AList.delete_eq)

lemma bound_held_change:
  assumes "bound_held objs vols" and "map_of vols vid = Some v"
    and "vphase v' = VolumeDeleting \<longrightarrow> vphase v = VolumeDeleting \<or> unbound objs vid"
  shows "bound_held objs (AList.update vid v' vols)"
  unfolding bound_held_def
proof (intro allI impI)
  fix k sb a
  assume l: "live objs k sb" "a \<in> attachments sb"
  then obtain u where u: "map_of vols (va_Volume a) = Some u" "vphase u \<noteq> VolumeDeleting"
    using assms(1) unfolding bound_held_def by blast
  show "\<exists>v. map_of (AList.update vid v' vols) (va_Volume a) = Some v \<and> vphase v \<noteq> VolumeDeleting"
  proof (cases "va_Volume a = vid")
    case True
    then have "\<not> unbound objs vid" "u = v" using l u(1) assms(2) by (auto simp: unbound_def)
    with assms(3) u(2) True show ?thesis by (auto simp: map_of_update)
  qed (use u in \<open>auto simp: map_of_update\<close>)
qed

lemma access_kept_change:
  assumes "access_kept objs vols" and "map_of vols vid = Some v" and "volume_access v' = volume_access v"
  shows "access_kept objs (AList.update vid v' vols)"
  using assms unfolding access_kept_def by (auto simp: map_of_update split: if_splits)

lemma names_unique_change:
  assumes "names_unique vols" and "map_of vols vid = Some v" and "same_volume v v'"
  shows "names_unique (AList.update vid v' vols)"
  using assms unfolding names_unique_def same_volume_def by (auto simp: map_of_update split: if_splits)

lemma volume_drop_inv:
  assumes "volume_inv objs vols" and "map_of vols vid = Some v" and "vphase v = VolumeDeleting"
  shows "volume_inv objs (AList.delete vid vols)"
proof -
  have m: "map_of (AList.delete vid vols) k = Some u \<longleftrightarrow> k \<noteq> vid \<and> map_of vols k = Some u" for k u
    by (simp add: delete_conv')
  have "va_Volume a \<noteq> vid" if "live objs k sb" "a \<in> attachments sb" for k sb a
    using that assms unfolding volume_inv_def bound_held_def by (metis option.inject)
  then show ?thesis
    using assms(1) unfolding volume_inv_def names_unique_def bound_held_def access_kept_def m
    by (simp add: volumes_keyed_delete)
qed

lemma volume_change_inv:
  assumes "volume_change objs vols vols'" and "volume_inv objs vols"
  shows "volume_inv objs vols'"
  using assms
proof cases
  case (change vid v v')
  have "vt_ID (vo_Status v') = vid"
    using change volumes_keyed_ID [of vols vid v] assms(2) by (simp add: same_volume_def volume_inv_def)
  with change assms(2) show ?thesis
    by (simp add: volume_inv_def volumes_keyed_update names_unique_change bound_held_change access_kept_change same_volume_def)
next
  case (drop vid v)
  with assms(2) show ?thesis by (simp add: volume_drop_inv)
qed

lemma volume_changes_inv: "(volume_change objs)\<^sup>*\<^sup>* vols vols' \<Longrightarrow> volume_inv objs vols \<Longrightarrow> volume_inv objs vols'"
  by (induction rule: rtranclp_induct) (auto intro: volume_change_inv)

section \<open>What the operations do to the collection\<close>

lemma sort_ordered_Nil: "sort_ordered xs = [] \<longleftrightarrow> xs = []"
  unfolding sort_ordered_sort by (metis length_0_conv length_sort)

lemma attachedToLocked_Nil: "map_ok (co_objects c) \<Longrightarrow> attachedToLocked c vid = [] \<longleftrightarrow> unbound (co_objects c) vid"
  by (auto simp: attachedToLocked_def sort_ordered_Nil unbound_def live_def attachments_def map_of_iff_set filter_empty_conv
      list_ex_iff)

text \<open>What the drivers were asked to remove, as the world \<open>obs\<close> shows it: a delete asks for its own volume, and no other
  call of a driver or of a store asks for any.\<close>

definition asks_own :: "('w \<Rightarrow> string set) \<Rightarrow> 'w VolumeDriver \<Rightarrow> bool" where
  "asks_own obs vd \<longleftrightarrow>
     (\<forall>vid w. obs (snd (vd_DeleteVolume vd vid w)) \<subseteq> insert vid (obs w))
     \<and> (\<forall>spec w. obs (snd (vd_CreateVolume vd spec w)) \<subseteq> obs w)
     \<and> (\<forall>vid w. obs (snd (vd_InspectVolume vd vid w)) \<subseteq> obs w)"

definition asks_none :: "('w \<Rightarrow> string set) \<Rightarrow> 'w Volumes \<Rightarrow> bool" where
  "asks_none obs vl \<longleftrightarrow>
     (\<forall>act w. obs (snd (vl_WriteVolume vl act w)) \<subseteq> obs w) \<and> (\<forall>act w. obs (snd (vl_RemoveVolume vl act w)) \<subseteq> obs w)"

definition volume_world :: "('w \<Rightarrow> string set) \<Rightarrow> 'w Controller \<Rightarrow> bool" where
  "volume_world obs c \<longleftrightarrow>
     (\<forall>env vd. volumeDriver c env = Inr vd \<longrightarrow> asks_own obs vd)
     \<and> (\<forall>vl. co_volumes c = Some vl \<longrightarrow> asks_none obs vl) \<and> store_keeps obs (co_store c)
     \<and> (\<forall>p w. obs (snd (co_newID c p w)) \<subseteq> obs w)"

lemma volume_world_config: "config c' = config c \<Longrightarrow> volume_world obs c' = volume_world obs c"
  using config_fields [of c' c] config_lookups(2) [of c' c] by (simp add: volume_world_def volumeDriver_def)

text \<open>The effect of one operation on the volumes: the sandboxes and the collaborators stay, the collection takes
  abstract steps, and the drivers are asked to remove only volumes no live sandbox is bound to.\<close>

definition volume_effect :: "('w \<Rightarrow> string set) \<Rightarrow> 'w Controller \<Rightarrow> 'w Controller \<Rightarrow> bool" where
  "volume_effect obs c c' \<longleftrightarrow> co_objects c' = co_objects c \<and> config c' = config c
     \<and> (volume_change (co_objects c))\<^sup>*\<^sup>* (co_volumeObjects c) (co_volumeObjects c')
     \<and> obs (co_world c') \<subseteq> obs (co_world c) \<union> {vid. unbound (co_objects c) vid}"

abbreviation inv_of :: "'w Controller \<Rightarrow> bool" where "inv_of c \<equiv> volume_inv (co_objects c) (co_volumeObjects c)"

lemma volume_effect_trans [trans]:
  "volume_effect obs a b \<Longrightarrow> volume_effect obs b c \<Longrightarrow> volume_effect obs a c"
  by (auto simp: volume_effect_def)

lemma volume_effect_inv: "volume_effect obs c c' \<Longrightarrow> inv_of c \<Longrightarrow> inv_of c'"
  by (auto simp: volume_effect_def intro: volume_changes_inv)

lemma volume_effect_world: "volume_effect obs c c' \<Longrightarrow> volume_world obs c \<Longrightarrow> volume_world obs c'"
  using volume_world_config by (auto simp: volume_effect_def)

lemma config_volume_fields [simp]: "config (c\<lparr>co_volumeObjects := v\<rparr>) = config c" "config (c\<lparr>co_filling := f\<rparr>) = config c"
  "config (c\<lparr>co_volumeWake := b\<rparr>) = config c"
  by (simp_all add: config_def)

lemma volume_effect_world_only:
  "obs w \<subseteq> obs (co_world c) \<union> {vid. unbound (co_objects c) vid} \<Longrightarrow> volume_effect obs c (c\<lparr>co_world := w\<rparr>)"
  by (simp add: volume_effect_def)

lemma volume_effect_flags [simp]: "volume_effect obs c (unfill vid c)" "volume_effect obs c (wakeVolumes c)"
  "volume_effect obs c (wakeScheduler c)" "volume_effect obs c c" "volume_effect obs c (c\<lparr>co_filling := f\<rparr>)"
  by (simp_all add: volume_effect_def unfill_def wakeVolumes_def wakeScheduler_def)

definition unattached :: "Volume \<Rightarrow> Volume" where
  "unattached v = v\<lparr>vo_Status := (vo_Status v)\<lparr>vt_AttachedTo := []\<rparr>\<rparr>"

lemma persistVolume_Some:
  "co_volumes c = Some vl \<Longrightarrow> persistVolume c act =
     (case vl_WriteVolume vl (act\<lparr>ac_Object := unattached (ac_Object act)\<rparr>) (co_world c) of
        (Some e, w) \<Rightarrow> (Some e, c\<lparr>co_world := w\<rparr>)
      | (None, w) \<Rightarrow> (None, c\<lparr>co_world := w, co_volumeObjects :=
           AList.update (vt_ID (vo_Status (ac_Object act))) (unattached (ac_Object act)) (co_volumeObjects c)\<rparr>))"
  by (simp add: persistVolume_def unattached_def Let_def split: prod.splits option.splits)

lemma removeVolume_Some:
  "co_volumes c = Some vl \<Longrightarrow> removeVolume c act =
     (case vl_RemoveVolume vl (act\<lparr>ac_Object := unattached (ac_Object act)\<rparr>) (co_world c) of
        (Some e, w) \<Rightarrow> (Some e, c\<lparr>co_world := w\<rparr>)
      | (None, w) \<Rightarrow> (None, c\<lparr>co_world := w, co_volumeObjects :=
           AList.delete (vt_ID (vo_Status (ac_Object act))) (co_volumeObjects c)\<rparr>))"
  by (simp add: removeVolume_def unattached_def Let_def split: prod.splits option.splits)

lemma persistVolume_cases:
  assumes "persistVolume c act = (e, c')" and "volume_world obs c"
  obtains (failed) w where "e \<noteq> None" "c' = c\<lparr>co_world := w\<rparr>" "obs w \<subseteq> obs (co_world c)"
  | (written) w where "e = None" "obs w \<subseteq> obs (co_world c)"
      "c' = c\<lparr>co_world := w, co_volumeObjects := AList.update (vt_ID (vo_Status (ac_Object act))) (unattached (ac_Object act)) (co_volumeObjects c)\<rparr>"
proof (cases "co_volumes c")
  case None
  with assms(1) show thesis by (intro failed [of "co_world c"]) (auto simp: persistVolume_def)
next
  case (Some vl)
  obtain e' w where w: "vl_WriteVolume vl (act\<lparr>ac_Object := unattached (ac_Object act)\<rparr>) (co_world c) = (e', w)"
    by (cases "vl_WriteVolume vl (act\<lparr>ac_Object := unattached (ac_Object act)\<rparr>) (co_world c)")
  have o: "obs w \<subseteq> obs (co_world c)" using assms(2) Some w unfolding volume_world_def asks_none_def by (metis snd_conv)
  show thesis
  proof (cases e')
    case None
    with assms(1) Some w show thesis by (intro written [OF _ o]) (simp_all add: persistVolume_Some)
  next
    case (Some e'')
    with assms(1) \<open>co_volumes c = Some vl\<close> w show thesis by (intro failed [OF _ _ o]) (auto simp: persistVolume_Some)
  qed
qed

lemma removeVolume_cases:
  assumes "removeVolume c act = (e, c')" and "volume_world obs c"
  obtains (failed) w where "e \<noteq> None" "c' = c\<lparr>co_world := w\<rparr>" "obs w \<subseteq> obs (co_world c)"
  | (written) w where "e = None" "obs w \<subseteq> obs (co_world c)"
      "c' = c\<lparr>co_world := w, co_volumeObjects := AList.delete (vt_ID (vo_Status (ac_Object act))) (co_volumeObjects c)\<rparr>"
proof (cases "co_volumes c")
  case None
  with assms(1) show thesis by (intro failed [of "co_world c"]) (auto simp: removeVolume_def)
next
  case (Some vl)
  obtain e' w where w: "vl_RemoveVolume vl (act\<lparr>ac_Object := unattached (ac_Object act)\<rparr>) (co_world c) = (e', w)"
    by (cases "vl_RemoveVolume vl (act\<lparr>ac_Object := unattached (ac_Object act)\<rparr>) (co_world c)")
  have o: "obs w \<subseteq> obs (co_world c)" using assms(2) Some w unfolding volume_world_def asks_none_def by (metis snd_conv)
  show thesis
  proof (cases e')
    case None
    with assms(1) Some w show thesis by (intro written [OF _ o]) (simp_all add: removeVolume_Some)
  next
    case (Some e'')
    with assms(1) \<open>co_volumes c = Some vl\<close> w show thesis by (intro failed [OF _ _ o]) (auto simp: removeVolume_Some)
  qed
qed

lemma same_volume_unattached [simp]: "same_volume v (unattached v') = same_volume v v'" "vphase (unattached v) = vphase v"
  "vt_ID (vo_Status (unattached v)) = vt_ID (vo_Status v)"
  by (simp_all add: same_volume_def unattached_def)

lemma same_volume_simps [simp]: "same_volume v v" "same_volume v (volume_phase p now v)"
  "vphase (volume_phase p now v) = p" "vt_ID (vo_Status (volume_phase p now v)) = vt_ID (vo_Status v)"
  by (simp_all add: same_volume_def volume_phase_def)

lemma volume_act_simps [simp]: "ac_Object (volume_act k obj) = obj"
  by (simp add: volume_act_def)

text \<open>A write of a held volume under its own id that keeps who it is, and that marks it for deletion only where no live
  sandbox is bound to it.\<close>

lemma persistVolume_effect:
  assumes "persistVolume c act = (e, c')" and "volume_world obs c"
    and "map_of (co_volumeObjects c) (vt_ID (vo_Status (ac_Object act))) = Some v" and "same_volume v (ac_Object act)"
    and "vphase (ac_Object act) = VolumeDeleting \<longrightarrow> vphase v = VolumeDeleting \<or> unbound (co_objects c) (vt_ID (vo_Status (ac_Object act)))"
  shows "volume_effect obs c c'"
  using assms(1,2)
proof (cases rule: persistVolume_cases)
  case (failed w)
  then show ?thesis by (auto simp: volume_effect_def)
next
  case (written w)
  have "volume_change (co_objects c) (co_volumeObjects c)
    (AList.update (vt_ID (vo_Status (ac_Object act))) (unattached (ac_Object act)) (co_volumeObjects c))"
    using assms(3-5) by (intro volume_change.change) simp_all
  with written show ?thesis by (auto simp: volume_effect_def)
qed

lemma removeVolume_effect:
  assumes "removeVolume c act = (e, c')" and "volume_world obs c"
    and "map_of (co_volumeObjects c) (vt_ID (vo_Status (ac_Object act))) = Some v" and "vphase v = VolumeDeleting"
  shows "volume_effect obs c c'"
  using assms(1,2)
proof (cases rule: removeVolume_cases)
  case (failed w)
  then show ?thesis by (auto simp: volume_effect_def)
next
  case (written w)
  with volume_change.drop [OF assms(3,4)] show ?thesis by (auto simp: volume_effect_def)
qed

text \<open>A volume that is held as Deleting is bound to no live sandbox.\<close>

lemma deleting_unbound: "volume_inv objs vols \<Longrightarrow> map_of vols vid = Some v \<Longrightarrow> vphase v = VolumeDeleting \<Longrightarrow> unbound objs vid"
  unfolding volume_inv_def bound_held_def unbound_def by (metis option.inject)

lemma absent_unbound: "volume_inv objs vols \<Longrightarrow> map_of vols vid = None \<Longrightarrow> unbound objs vid"
  unfolding volume_inv_def bound_held_def unbound_def by (metis option.distinct(1))

lemma finishVolumeDelete_effect:
  assumes "finishVolumeDelete c gone = (e, c')" and "volume_world obs c" and "inv_of c"
    and "map_of (co_volumeObjects c) (vt_ID (vo_Status gone)) = Some v" and "vphase v = VolumeDeleting"
  shows "volume_effect obs c c'"
proof (cases "volumeDriver c (vp_Environment (vo_Spec gone))")
  case (Inl e')
  with assms(1) show ?thesis by (simp add: finishVolumeDelete_def)
next
  case (Inr vd)
  obtain f w where d: "vd_DeleteVolume vd (vt_ID (vo_Status gone)) (co_world c) = (f, w)"
    by (cases "vd_DeleteVolume vd (vt_ID (vo_Status gone)) (co_world c)")
  have "obs w \<subseteq> insert (vt_ID (vo_Status gone)) (obs (co_world c))"
    using assms(2) Inr d unfolding volume_world_def asks_own_def by (metis snd_conv)
  then have eff: "volume_effect obs c (c\<lparr>co_world := w\<rparr>)"
    using deleting_unbound [OF assms(3-5)] by (intro volume_effect_world_only) auto
  have "volume_effect obs (c\<lparr>co_world := w\<rparr>) c''" if "removeVolume (c\<lparr>co_world := w\<rparr>) (volume_act MutationVolumeDeleted gone) = (e', c'')" for e' c''
    using assms(4,5) by (intro removeVolume_effect [OF that volume_effect_world [OF eff assms(2)]]) simp_all
  with eff assms(1) Inr d show ?thesis
    by (auto simp: finishVolumeDelete_def split: option.splits if_splits intro: volume_effect_trans)
qed

lemma UpdateVolume_effect:
  assumes "UpdateVolume c obj vid = (r, c')" and "volume_world obs c" and "inv_of c"
    and "\<And>v. map_of (co_volumeObjects c) vid = Some v \<Longrightarrow> md_Name (vo_Metadata obj) = md_Name (vo_Metadata v) \<and> volume_access obj = volume_access v"
  shows "volume_effect obs c c'"
proof (cases "co_volumes c = None \<or> map_of (co_volumeObjects c) vid = None")
  case True
  then show ?thesis using assms(1) by (auto simp: UpdateVolume_def split: if_splits option.splits)
next
  case False
  then obtain held where h: "map_of (co_volumeObjects c) vid = Some held" by auto
  let ?made = "obj\<lparr>vo_Status := (vo_Status held)\<lparr>vt_UpdatedAt := co_wall c (co_world c)\<rparr>\<rparr>"
  have "vt_ID (vo_Status held) = vid" using assms(3) h volumes_keyed_ID by (auto simp: volume_inv_def)
  moreover obtain e c1 where p: "persistVolume c (volume_act MutationVolumeUpdated ?made) = (e, c1)"
    by (cases "persistVolume c (volume_act MutationVolumeUpdated ?made)")
  ultimately have "volume_effect obs c c1"
    using h assms(4) [OF h] by (intro persistVolume_effect [OF p assms(2), of held]) (auto simp: same_volume_def)
  moreover have "c' = c1" using False h p assms(1) by (auto simp: UpdateVolume_def split: option.splits)
  ultimately show ?thesis by simp
qed

text \<open>The phase of one held volume is written.\<close>

lemma persist_phase_effect:
  assumes "persistVolume c (volume_act k (volume_phase p now v)) = (e, c')" and "volume_world obs c" and "inv_of c"
    and "map_of (co_volumeObjects c) vid = Some v" and "p = VolumeDeleting \<longrightarrow> unbound (co_objects c) vid"
  shows "volume_effect obs c c'"
proof -
  have "vt_ID (vo_Status v) = vid" using assms(3,4) volumes_keyed_ID by (auto simp: volume_inv_def)
  with assms(4,5) show ?thesis by (intro persistVolume_effect [OF assms(1,2), of v]) auto
qed

lemma persist_phase_written:
  assumes "persistVolume c (volume_act k (volume_phase p now v)) = (None, c')" and "inv_of c"
    and "map_of (co_volumeObjects c) vid = Some v"
  shows "map_of (co_volumeObjects c') vid = Some (unattached (volume_phase p now v))"
proof -
  have "vt_ID (vo_Status v) = vid" using assms(2,3) volumes_keyed_ID by (auto simp: volume_inv_def)
  moreover obtain vl where "co_volumes c = Some vl" using assms(1) by (cases "co_volumes c") (auto simp: persistVolume_def)
  ultimately show ?thesis using assms(1) by (auto simp: persistVolume_Some map_of_update split: prod.splits option.splits)
qed

lemma DeleteVolume_effect:
  assumes "DeleteVolume c vid = (r, c')" and "volume_world obs c" and "inv_of c"
  shows "volume_effect obs c c'"
proof (cases "co_volumes c = None \<or> map_of (co_volumeObjects c) vid = None \<or> attachedToLocked c vid \<noteq> []")
  case True
  then show ?thesis using assms(1) by (auto simp: DeleteVolume_def split: if_splits option.splits)
next
  case False
  then obtain held where h: "map_of (co_volumeObjects c) vid = Some held" and un: "unbound (co_objects c) vid" and vs: "co_volumes c \<noteq> None"
    and at: "attachedToLocked c vid = []"
    using attachedToLocked_Nil [of c vid] assms(3) by (auto simp: volume_inv_def objects_ok_def)
  have hid: "vt_ID (vo_Status held) = vid" using assms(3) h volumes_keyed_ID by (auto simp: volume_inv_def)
  define gone where "gone = (if vphase held \<noteq> VolumeDeleting then volume_phase VolumeDeleting (co_wall c (co_world c)) held else held)"
  obtain e c1 where p: "(if vphase held \<noteq> VolumeDeleting then persistVolume c (volume_act MutationVolumeStatus gone) else (None, c)) = (e, c1)"
    by (cases "if vphase held \<noteq> VolumeDeleting then persistVolume c (volume_act MutationVolumeStatus gone) else (None, c)")
  have eff: "volume_effect obs c c1"
    using p un persist_phase_effect [OF _ assms(2,3) h, of MutationVolumeStatus VolumeDeleting] by (auto simp: gone_def split: if_splits)
  have marked: "\<exists>v. map_of (co_volumeObjects c1) vid = Some v \<and> vphase v = VolumeDeleting" if "e = None"
    using p that h persist_phase_written [OF _ assms(3) h, of MutationVolumeStatus VolumeDeleting] by (auto simp: gone_def split: if_splits)
  have gid: "vt_ID (vo_Status gone) = vid" using hid by (simp add: gone_def)
  have fin: "volume_effect obs c c2" if "finishVolumeDelete c1 gone = (f, c2)" "e = None" for f c2
    using marked [OF that(2)] eff gid
      finishVolumeDelete_effect [OF that(1) volume_effect_world [OF eff assms(2)] volume_effect_inv [OF eff assms(3)]]
    by (auto intro: volume_effect_trans)
  have "DeleteVolume c vid = (case e of Some e' \<Rightarrow> (Inl e', c1)
      | None \<Rightarrow> if vid \<in> set (co_filling c1) then (Inr (volumeRead c1 vid), c1)
                else case finishVolumeDelete c1 gone of (f, c2) \<Rightarrow>
                  (Inr (gone\<lparr>vo_Status := (vo_Status gone)\<lparr>vt_AttachedTo := []\<rparr>\<rparr>), if f = None then c2 else wakeVolumes c2))"
    using vs h at p by (auto simp: DeleteVolume_def gone_def [symmetric] Let_def split: option.splits)
  with assms(1) eff fin show ?thesis
    by (auto split: option.splits if_splits prod.splits intro: volume_effect_trans [OF _ volume_effect_flags(2)])
qed

lemma record_each_effect:
  "volume_world obs c \<Longrightarrow> inv_of c \<Longrightarrow> volume_effect obs c (record_each c obj mutation as)"
proof (induction c obj mutation as rule: record_each.induct)
  case (2 c obj mutation a as)
  show ?case
  proof (cases "map_of (co_volumeObjects c) (va_Volume a)")
    case None
    with 2 show ?thesis by simp
  next
    case (Some vol)
    let ?act = "\<lparr>ac_Type = mutation, ac_Object = vol, ac_Sandbox = Some obj,
      ac_Mode = if mountReadOnly obj (va_Name a) then VolumeModeReadOnly else VolumeModeReadWrite\<rparr>"
    have "vt_ID (vo_Status vol) = va_Volume a" using 2(4) Some volumes_keyed_ID by (auto simp: volume_inv_def)
    then have eff: "volume_effect obs c (snd (persistVolume c ?act))"
      using Some by (intro persistVolume_effect [of c ?act "fst (persistVolume c ?act)" _ obs vol, OF _ 2(3)]) auto
    show ?thesis
      using 2(2) [OF Some refl volume_effect_world [OF eff 2(3)] volume_effect_inv [OF eff 2(4)]] eff Some
      by (auto simp: Let_def intro: volume_effect_trans)
  qed
qed simp

lemma release_each_effect:
  "volume_world obs c \<Longrightarrow> inv_of c \<Longrightarrow> volume_effect obs c (snd (release_each c woken as))"
proof (induction c woken as rule: release_each.induct)
  case (2 c woken a as)
  show ?case
  proof (cases "map_of (co_volumeObjects c) (va_Volume a)")
    case None
    with 2 show ?thesis by simp
  next
    case (Some vol)
    let ?skip = "VolumeSpec_Retains (vo_Spec vol) \<or> vphase vol = VolumeDeleting \<or> attachedToLocked c (va_Volume a) \<noteq> []"
    let ?act = "volume_act MutationVolumeStatus (volume_phase VolumeDeleting (co_wall c (co_world c)) vol)"
    show ?thesis
    proof (cases ?skip)
      case True
      with 2(2) [OF Some True 2(5,6)] Some show ?thesis by simp
    next
      case False
      obtain e c1 where p: "persistVolume c ?act = (e, c1)" by (cases "persistVolume c ?act")
      have "unbound (co_objects c) (va_Volume a)"
        using False attachedToLocked_Nil [of c] 2(6) by (auto simp: volume_inv_def objects_ok_def)
      then have eff: "volume_effect obs c c1" using persist_phase_effect [OF p 2(5,6) Some] by simp
      note k = volume_effect_world [OF eff 2(5)] volume_effect_inv [OF eff 2(6)]
      show ?thesis
      proof (cases e)
        case None
        with volume_effect_trans [OF eff 2(3) [OF Some False p [symmetric] None k]] Some False p show ?thesis by simp
      next
        case e: (Some e')
        with volume_effect_trans [OF eff 2(4) [OF Some False p [symmetric] e k]] Some False p show ?thesis by simp
      qed
    qed
  qed
qed simp

lemma releaseVolumesLocked_effect:
  assumes "volume_world obs c" and "inv_of c"
  shows "volume_effect obs c (releaseVolumesLocked c obj)"
proof -
  let ?c = "recordAttachments c obj MutationVolumeDetached"
  have eff: "volume_effect obs c ?c" using record_each_effect [OF assms] by (simp add: recordAttachments_def)
  note r = release_each_effect [OF volume_effect_world [OF eff assms(1)] volume_effect_inv [OF eff assms(2)], of False "st_Volumes (sb_Status obj)"]
  show ?thesis
    using volume_effect_trans [OF eff r]
    by (auto simp: releaseVolumesLocked_def split: prod.splits intro: volume_effect_trans [OF _ volume_effect_flags(2)])
qed

lemma inspect_effect:
  assumes "volumeDriver c env = Inr vd" and "volume_world obs c" and "vd_InspectVolume vd vid (co_world c) = (r, w)"
  shows "volume_effect obs c (c\<lparr>co_world := w\<rparr>)"
proof -
  have "obs w \<subseteq> obs (co_world c)" using assms unfolding volume_world_def asks_own_def by (metis snd_conv)
  then show ?thesis by (intro volume_effect_world_only) auto
qed

lemma applySource_asks:
  assumes "asks_own obs vd" and "applySource vd obj w = (r, w')"
  shows "obs w' \<subseteq> obs w"
proof -
  obtain e w1 where c: "vd_CreateVolume vd (volumeSpecOf obj) w = (e, w1)" by (cases "vd_CreateVolume vd (volumeSpecOf obj) w")
  obtain s w2 where i: "vd_InspectVolume vd (vt_ID (vo_Status obj)) w1 = (s, w2)"
    by (cases "vd_InspectVolume vd (vt_ID (vo_Status obj)) w1")
  have "obs w1 \<subseteq> obs w" "obs w2 \<subseteq> obs w1" using assms(1) c i unfolding asks_own_def by (metis snd_conv)+
  then show ?thesis
    using assms(2) c i by (auto simp: applySource_def Let_def split: option.splits sum.splits if_splits)
qed

lemma fill_ask_effect:
  assumes "fill_ask c obj = (r, c')" and "volume_world obs c" and "inv_of c"
  shows "volume_effect obs c c' \<and> (\<forall>vd state. r = Some (vd, state) \<longrightarrow> asks_own obs vd)"
proof (cases "volumeDriver c (vp_Environment (vo_Spec obj))")
  case (Inl e)
  with assms(1) show ?thesis by (auto simp: fill_ask_def)
next
  case (Inr vd)
  then have own: "asks_own obs vd" using assms(2) by (auto simp: volume_world_def)
  show ?thesis
  proof (cases "vphase obj = VolumeDeleting")
    case True
    have "volume_effect obs c (snd (finishVolumeDelete c cur))"
      if "map_of (co_volumeObjects c) (vt_ID (vo_Status obj)) = Some cur" "vphase cur = VolumeDeleting" for cur
      using that assms(3) volumes_keyed_ID [of "co_volumeObjects c" _ cur]
      by (intro finishVolumeDelete_effect [OF _ assms(2,3), of cur "fst (finishVolumeDelete c cur)" _ cur]) (auto simp: volume_inv_def)
    with True Inr assms(1) show ?thesis by (auto simp: fill_ask_def split: option.splits)
  next
    case False
    obtain s w where a: "applySource vd obj (co_world c) = (s, w)" by (cases "applySource vd obj (co_world c)")
    have "volume_effect obs c (c\<lparr>co_world := w\<rparr>)" using applySource_asks [OF own a] by (intro volume_effect_world_only) auto
    with False Inr a own assms(1) show ?thesis by (cases s) (auto simp: fill_ask_def)
  qed
qed

lemma settleVolume_effect:
  assumes "asks_own obs vd" and "volume_world obs c" and "inv_of c"
  shows "volume_effect obs c (settleVolume c vd vid state)"
proof (cases "map_of (co_volumeObjects c) vid")
  case None
  have "obs (snd (vd_DeleteVolume vd vid (co_world c))) \<subseteq> insert vid (obs (co_world c))"
    using assms(1) by (auto simp: asks_own_def)
  then show ?thesis
    using None absent_unbound [OF assms(3) None] by (auto simp: settleVolume_def intro!: volume_effect_world_only)
next
  case (Some cur)
  have id: "vt_ID (vo_Status cur) = vid" using assms(3) Some volumes_keyed_ID by (auto simp: volume_inv_def)
  have w: "volume_effect obs c (case persistVolume c act of (Some e, c1) \<Rightarrow> c1 | (None, c1) \<Rightarrow> wakeScheduler c1)"
    if "same_volume cur (ac_Object act)" "vphase (ac_Object act) \<noteq> VolumeDeleting" for act
  proof -
    obtain e c1 where p: "persistVolume c act = (e, c1)" by (cases "persistVolume c act")
    have "volume_effect obs c c1" using that id Some by (intro persistVolume_effect [OF p assms(2), of cur]) (auto simp: same_volume_def)
    with p show ?thesis by (cases e) (auto intro: volume_effect_trans [OF _ volume_effect_flags(3)])
  qed
  have f: "volume_effect obs c (snd (finishVolumeDelete c cur))" if "vphase cur = VolumeDeleting"
    using that id Some by (intro finishVolumeDelete_effect [OF _ assms(2,3), of cur "fst (finishVolumeDelete c cur)" _ cur]) auto
  show ?thesis
    using f Some by (auto simp: settleVolume_def Let_def same_volume_def volume_phase_def volume_phase_defs intro!: w)
qed

lemma observe_volume_effect:
  assumes "observe_volume c obj = (e, c')" and "volume_world obs c" and "inv_of c"
  shows "volume_effect obs c c'"
proof (cases "volumeDriver c (vp_Environment (vo_Spec obj))")
  case (Inl e')
  with assms(1) show ?thesis by (simp add: observe_volume_def)
next
  case (Inr vd)
  let ?vid = "vt_ID (vo_Status obj)"
  obtain r w where i: "vd_InspectVolume vd ?vid (co_world c) = (r, w)" by (cases "vd_InspectVolume vd ?vid (co_world c)")
  note eff = inspect_effect [OF Inr assms(2) i]
  have p: "volume_effect obs c c''" if "persistVolume (c\<lparr>co_world := w\<rparr>) (volume_act MutationVolumeStatus (volume_phase VolumeLost (co_wall c w) cur)) = (e'', c'')"
    "map_of (co_volumeObjects c) ?vid = Some cur" for e'' c'' cur
    by (rule volume_effect_trans [OF eff persist_phase_effect [OF that(1) volume_effect_world [OF eff assms(2)] volume_effect_inv [OF eff assms(3)]]])
      (use that in \<open>auto simp: volume_phase_defs\<close>)
  show ?thesis
    using assms(1) Inr i eff p by (auto simp: observe_volume_def split: sum.splits if_splits option.splits)
qed

end
