(* ===== verification/Volumes_System.thy ===== *)
theory Volumes_System
  imports Volumes_Facts
begin

text \<open>
  The system of volumes: the caller's acts with the resolver in front of them, the volume loop whose driver
  calls run with the lock released, the reaper's observation, and sandboxes that are created, written and
  forgotten, in any order. The theorems carry the invariant of \<open>Volumes_Facts\<close> over every run, whatever the
  drivers and the stores answer.
\<close>

section \<open>The steps that are no change of a held volume\<close>

lemma volume_make_inv:
  assumes "volume_inv objs vols" and "map_of vols vid = None" and "vt_ID (vo_Status made) = vid"
    and "\<And>i v. map_of vols i = Some v \<Longrightarrow> vt_Owner (vo_Status v) = vt_Owner (vo_Status made) \<Longrightarrow> md_Name (vo_Metadata v) \<noteq> md_Name (vo_Metadata made)"
  shows "volume_inv objs (AList.update vid made vols)"
proof -
  have other: "va_Volume a \<noteq> vid" if "live objs k sb" "a \<in> attachments sb" for k sb a
    using that absent_unbound [OF assms(1,2)] by (auto simp: unbound_def)
  have "names_unique (AList.update vid made vols)"
    unfolding names_unique_def
  proof (intro allI impI)
    fix i v j u
    assume h: "map_of (AList.update vid made vols) i = Some v" "map_of (AList.update vid made vols) j = Some u"
      "vt_Owner (vo_Status v) = vt_Owner (vo_Status u)" "md_Name (vo_Metadata v) = md_Name (vo_Metadata u)"
    then show "i = j"
      using assms(4) [of i v] assms(4) [of j u] assms(1)
      by (cases "i = vid"; cases "j = vid") (auto simp: map_of_update volume_inv_def names_unique_def)
  qed
  moreover have "bound_held objs (AList.update vid made vols)" "access_kept objs (AList.update vid made vols)"
    using assms(1) other unfolding volume_inv_def bound_held_def access_kept_def by (simp_all add: map_of_update)
  ultimately show ?thesis
    using assms(1,3) by (simp add: volume_inv_def volumes_keyed_update)
qed

text \<open>The live sandboxes of the second collection are live in the first, bound to the same volumes in the same way.\<close>

definition bindings :: "Sandbox \<Rightarrow> (string \<times> string) set" where
  "bindings sb = (\<lambda>a. (va_Name a, va_Volume a)) ` attachments sb"

definition no_more_bound :: "objects \<Rightarrow> objects \<Rightarrow> bool" where
  "no_more_bound objs objs' \<longleftrightarrow> (\<forall>k sb'. live objs' k sb' \<longrightarrow>
     (\<exists>sb. live objs k sb \<and> bindings sb' \<subseteq> bindings sb \<and> sp_Volumes (sb_Spec sb') = sp_Volumes (sb_Spec sb)))"

lemma no_more_boundE:
  assumes "no_more_bound objs objs'" and "live objs' k sb'" and "a' \<in> attachments sb'"
  obtains sb a where "live objs k sb" "a \<in> attachments sb" "va_Name a = va_Name a'" "va_Volume a = va_Volume a'"
    "mountReadOnly sb = mountReadOnly sb'"
proof -
  obtain sb where sb: "live objs k sb" "bindings sb' \<subseteq> bindings sb" "sp_Volumes (sb_Spec sb') = sp_Volumes (sb_Spec sb)"
    using assms(1,2) unfolding no_more_bound_def by blast
  have "(va_Name a', va_Volume a') \<in> bindings sb" using sb(2) assms(3) by (auto simp: bindings_def)
  then obtain a where "a \<in> attachments sb" "va_Name a = va_Name a'" "va_Volume a = va_Volume a'" by (auto simp: bindings_def)
  with sb show thesis by (intro that [of sb a]) (auto simp: mountReadOnly_def)
qed

lemma no_more_bound_inv:
  assumes "volume_inv objs vols" and "no_more_bound objs objs'" and "objects_ok objs'"
  shows "volume_inv objs' vols"
proof -
  have "bound_held objs' vols"
    unfolding bound_held_def
  proof (intro allI impI)
    fix k sb' a'
    assume "live objs' k sb'" "a' \<in> attachments sb'"
    then obtain sb a where "live objs k sb" "a \<in> attachments sb" "va_Volume a = va_Volume a'"
      by (rule no_more_boundE [OF assms(2)])
    with assms(1) show "\<exists>v. map_of vols (va_Volume a') = Some v \<and> vphase v \<noteq> VolumeDeleting"
      unfolding volume_inv_def bound_held_def by metis
  qed
  moreover have "access_kept objs' vols"
    unfolding access_kept_def
  proof (intro allI impI)
    fix k sb' a' v
    assume h: "live objs' k sb'" "a' \<in> attachments sb'" "map_of vols (va_Volume a') = Some v"
      "volume_access v = VolumeAccessSharedRead
       \<or> (\<exists>k1 sb1 a1. k1 \<noteq> k \<and> live objs' k1 sb1 \<and> a1 \<in> attachments sb1 \<and> va_Volume a1 = va_Volume a')"
    obtain sb a where a: "live objs k sb" "a \<in> attachments sb" "va_Name a = va_Name a'" "va_Volume a = va_Volume a'"
      "mountReadOnly sb = mountReadOnly sb'" by (rule no_more_boundE [OF assms(2) h(1,2)])
    have "volume_access v = VolumeAccessSharedRead
       \<or> (\<exists>k1 sb1 a1. k1 \<noteq> k \<and> live objs k1 sb1 \<and> a1 \<in> attachments sb1 \<and> va_Volume a1 = va_Volume a)"
      using h(4) no_more_boundE [OF assms(2)] a(4) by metis
    then have "mountReadOnly sb (va_Name a)"
      using assms(1) a(1,2,4) h(3) unfolding volume_inv_def access_kept_def by metis
    with a show "mountReadOnly sb' (va_Name a')" by simp
  qed
  ultimately show ?thesis using assms(1,3) by (simp add: volume_inv_def)
qed

section \<open>Attaching the mounts of a create\<close>

definition may_attach :: "objects \<Rightarrow> volumes \<Rightarrow> Sandbox \<Rightarrow> bool" where
  "may_attach objs vols sb \<longleftrightarrow> (\<forall>a \<in> attachments sb. \<exists>v. map_of vols (va_Volume a) = Some v \<and> vphase v \<noteq> VolumeDeleting
     \<and> (if volume_access v = VolumeAccessSharedRead then mountReadOnly sb (va_Name a)
        else \<forall>k' sb' a'. live objs k' sb' \<longrightarrow> a' \<in> attachments sb' \<longrightarrow> va_Volume a' = va_Volume a \<longrightarrow>
               mountReadOnly sb (va_Name a) \<and> mountReadOnly sb' (va_Name a')))"

lemma live_update: "live (AList.update k sb objs) k' sb' \<longleftrightarrow>
   (if k' = k then sb' = sb \<and> st_Phase (sb_Status sb) \<noteq> PhaseDeleting else live objs k' sb')"
  by (auto simp: live_def map_of_update)

lemma attach_inv:
  assumes "volume_inv objs vols" and "map_of objs (st_ID (sb_Status sb)) = None" and "may_attach objs vols sb"
  shows "volume_inv (AList.update (st_ID (sb_Status sb)) sb objs) vols"
proof -
  let ?k = "st_ID (sb_Status sb)"
  have fresh: "\<not> live objs ?k x" for x using assms(2) by (simp add: live_def)
  have "bound_held (AList.update ?k sb objs) vols"
    using assms(1,3) unfolding bound_held_def live_update volume_inv_def may_attach_def by (metis (no_types))
  moreover have "access_kept (AList.update ?k sb objs) vols"
    unfolding access_kept_def
  proof (intro allI impI)
    fix k sb0 a v
    assume h: "live (AList.update ?k sb objs) k sb0" "a \<in> attachments sb0" "map_of vols (va_Volume a) = Some v"
      "volume_access v = VolumeAccessSharedRead
       \<or> (\<exists>k1 sb1 a1. k1 \<noteq> k \<and> live (AList.update ?k sb objs) k1 sb1 \<and> a1 \<in> attachments sb1 \<and> va_Volume a1 = va_Volume a)"
    show "mountReadOnly sb0 (va_Name a)"
    proof (cases "k = ?k")
      case True
      then show ?thesis using h assms(3) by (auto simp: live_update may_attach_def split: if_splits)
    next
      case False
      with h(1) have l: "live objs k sb0" by (simp add: live_update)
      show ?thesis
      proof (cases "volume_access v = VolumeAccessSharedRead
         \<or> (\<exists>k1 sb1 a1. k1 \<noteq> k \<and> live objs k1 sb1 \<and> a1 \<in> attachments sb1 \<and> va_Volume a1 = va_Volume a)")
        case True
        with l h(2,3) assms(1) show ?thesis unfolding volume_inv_def access_kept_def by metis
      next
        case f: False
        then obtain a1 where "a1 \<in> attachments sb" "va_Volume a1 = va_Volume a" "volume_access v \<noteq> VolumeAccessSharedRead"
          using h(4) by (auto simp: live_update split: if_splits)
        with l h(2,3) assms(3) show ?thesis unfolding may_attach_def by fastforce
      qed
    qed
  qed
  ultimately show ?thesis using assms(1) by (simp add: volume_inv_def objects_ok_update)
qed

lemma volumeIDLocked_held:
  assumes "volumeIDLocked c key owner = vid" and "vid \<noteq> []" and "map_ok (co_volumeObjects c)"
  shows "\<exists>v. map_of (co_volumeObjects c) vid = Some v"
proof -
  have "(vid, v) \<in> set (co_volumeObjects c)" if "find P (co_volumeObjects c) = Some (vid, v)" for P v
    using that by (auto simp: find_Some_iff)
  with assms show ?thesis
    by (auto simp: volumeIDLocked_def map_of_iff_set [symmetric] split: if_splits option.splits)
qed

lemma attachableLocked_None:
  assumes "attachableLocked c vol readOnly = None" and "map_ok (co_objects c)"
  shows "if volume_access vol = VolumeAccessSharedRead then readOnly
    else \<forall>k sb a. live (co_objects c) k sb \<longrightarrow> a \<in> attachments sb \<longrightarrow> va_Volume a = vt_ID (vo_Status vol) \<longrightarrow>
           readOnly \<and> mountReadOnly sb (va_Name a)"
  using assms
  by (auto simp: attachableLocked_def live_def attachments_def map_of_iff_set list_ex_iff split: if_splits)

lemma bind_mounts_bound:
  assumes "bind_mounts c obj ms = Inr bound" and "inv_of c" and "a \<in> set bound"
  shows "\<exists>m \<in> set ms. \<exists>v. va_Name a = vm_Name m \<and> map_of (co_volumeObjects c) (va_Volume a) = Some v
    \<and> (vphase v = VolumeAvailable \<or> vphase v = VolumePending) \<and> attachableLocked c v (vm_ReadOnly m) = None"
  using assms(1,3)
proof (induction ms arbitrary: bound)
  case (Cons m ms)
  let ?vid = "volumeIDLocked c (vm_Volume m) (st_Owner (sb_Status obj))"
  have ok: "map_ok (co_volumeObjects c)" using assms(2) by (simp add: volume_inv_def volumes_keyed_def)
  from Cons.prems(1) have vid: "?vid \<noteq> []" by (auto simp: Let_def)
  obtain v where v: "map_of (co_volumeObjects c) ?vid = Some v" using volumeIDLocked_held [OF refl vid ok] by blast
  from Cons.prems(1) vid v obtain rest where r: "bind_mounts c obj ms = Inr rest"
    "bound = \<lparr>va_Name = vm_Name m, va_Volume = ?vid, va_Attached = False\<rparr> # rest"
    and p: "vphase v = VolumeAvailable \<or> vphase v = VolumePending" "attachableLocked c v (vm_ReadOnly m) = None"
    by (auto simp: Let_def go_err split: if_splits option.splits)
  show ?case
  proof (cases "a \<in> set rest")
    case True
    with Cons.IH [OF r(1)] show ?thesis by auto
  next
    case False
    with Cons.prems(2) r(2) v p show ?thesis by auto
  qed
qed simp

lemma mountReadOnly_mount:
  assumes "distinct (map vm_Name (sp_Volumes (sb_Spec sb)))" and "m \<in> set (sp_Volumes (sb_Spec sb))"
  shows "mountReadOnly sb (vm_Name m) = vm_ReadOnly m"
proof -
  have "find (\<lambda>x. vm_Name x = vm_Name m) ms = Some m" if "distinct (map vm_Name ms)" "m \<in> set ms" for ms
    using that by (induction ms) auto
  with assms show ?thesis by (simp add: mountReadOnly_def)
qed

lemma bindVolumesLocked_may_attach:
  assumes "bindVolumesLocked c obj = Inr out" and "inv_of c" and "st_Volumes (sb_Status obj) = []"
    and "distinct (map vm_Name (sp_Volumes (sb_Spec obj)))"
  shows "may_attach (co_objects c) (co_volumeObjects c) out"
  unfolding may_attach_def
proof
  fix a
  assume a: "a \<in> attachments out"
  then have ne: "sp_Volumes (sb_Spec obj) \<noteq> []" using assms(1,3) by (auto simp: bindVolumesLocked_def attachments_def)
  then obtain bound where b: "bind_mounts c obj (sp_Volumes (sb_Spec obj)) = Inr bound"
    "out = obj\<lparr>sb_Status := (sb_Status obj)\<lparr>st_Volumes := bound\<rparr>\<rparr>"
    using assms(1) by (auto simp: bindVolumesLocked_def go_err split: if_splits)
  have "a \<in> set bound" using a b(2) by (simp add: attachments_def)
  then obtain m v where m: "m \<in> set (sp_Volumes (sb_Spec obj))" "va_Name a = vm_Name m"
    "map_of (co_volumeObjects c) (va_Volume a) = Some v" "vphase v = VolumeAvailable \<or> vphase v = VolumePending"
    "attachableLocked c v (vm_ReadOnly m) = None"
    using bind_mounts_bound [OF b(1) assms(2)] by blast
  have ro: "mountReadOnly out (va_Name a) = vm_ReadOnly m"
    using mountReadOnly_mount [of out m] assms(4) m(1,2) b(2) by simp
  have id: "vt_ID (vo_Status v) = va_Volume a" using assms(2) m(3) volumes_keyed_ID by (auto simp: volume_inv_def)
  show "\<exists>v. map_of (co_volumeObjects c) (va_Volume a) = Some v \<and> vphase v \<noteq> VolumeDeleting
     \<and> (if volume_access v = VolumeAccessSharedRead then mountReadOnly out (va_Name a)
        else \<forall>k' sb' a'. live (co_objects c) k' sb' \<longrightarrow> a' \<in> attachments sb' \<longrightarrow> va_Volume a' = va_Volume a \<longrightarrow>
               mountReadOnly out (va_Name a) \<and> mountReadOnly sb' (va_Name a'))"
    using m(3,4) attachableLocked_None [OF m(5)] assms(2) ro id
    by (auto simp: volume_phase_defs volume_inv_def objects_ok_def split: if_splits)
qed

section \<open>The system\<close>

text \<open>The controller, the clones the loop has handed out, the answers of drivers that are not settled yet, and the
  updates that were resolved and are not written yet.\<close>

record 'w volume_system =
  sy_C :: "'w Controller"
  sy_Due :: "Volume list"
  sy_Asked :: "('w VolumeDriver \<times> string \<times> VolumeState) list"
  sy_Updates :: "(string \<times> Volume) list"

text \<open>An id that no volume has and no act on its way names.\<close>

definition fresh_id :: "'w volume_system \<Rightarrow> string \<Rightarrow> bool" where
  "fresh_id s vid \<longleftrightarrow> map_of (co_volumeObjects (sy_C s)) vid = None \<and> vid \<notin> fst ` set (sy_Updates s)"

text \<open>A write of a sandbox that keeps its mounts and its bindings, as every writer but the create does, and that does
  not bring back one that has begun to go.\<close>

definition keeps_bindings :: "Sandbox \<Rightarrow> Sandbox \<Rightarrow> bool" where
  "keeps_bindings sb sb' \<longleftrightarrow> st_ID (sb_Status sb') = st_ID (sb_Status sb) \<and> bindings sb' \<subseteq> bindings sb
     \<and> sp_Volumes (sb_Spec sb') = sp_Volumes (sb_Spec sb)
     \<and> (st_Phase (sb_Status sb) = PhaseDeleting \<longrightarrow> st_Phase (sb_Status sb') = PhaseDeleting)"

inductive volume_step :: "'w volume_system \<Rightarrow> 'w volume_system \<Rightarrow> bool" where
  create: "volume_step s (s\<lparr>sy_C := c'\<rparr>)"
    if "CreateVolume (sy_C s) obj owner mx = (r, c')"
      and "fresh_id s (fst (co_newID (sy_C s) VolumeIDPrefix (co_world (sy_C s))))"
| resolve: "volume_step s (s\<lparr>sy_Updates := (vid, obj) # sy_Updates s\<rparr>)"
    if "map_of (co_volumeObjects (sy_C s)) vid = Some v"
      and "ResolveVolume input (o'\<lparr>vx_Existing := Some (volumeRead (sy_C s) vid)\<rparr>) = Inr obj"
| update: "volume_step s (s\<lparr>sy_C := c'\<rparr>)"
    if "(vid, obj) \<in> set (sy_Updates s)" and "UpdateVolume (sy_C s) obj vid = (r, c')"
| delete: "volume_step s (s\<lparr>sy_C := c'\<rparr>)" if "DeleteVolume (sy_C s) vid = (r, c')"
| fill: "volume_step s (s\<lparr>sy_C := c', sy_Due := due @ sy_Due s\<rparr>)" if "FillVolumes (sy_C s) = (due, c')"
| ask: "volume_step s (s\<lparr>sy_C := c', sy_Asked := (vd, vt_ID (vo_Status obj), state) # sy_Asked s\<rparr>)"
    if "obj \<in> set (sy_Due s)" and "fill_ask (sy_C s) obj = (Some (vd, state), c')"
| asked: "volume_step s (s\<lparr>sy_C := unfill (vt_ID (vo_Status obj)) c'\<rparr>)"
    if "obj \<in> set (sy_Due s)" and "fill_ask (sy_C s) obj = (None, c')"
| settle: "volume_step s (s\<lparr>sy_C := unfill vid (settleVolume (sy_C s) vd vid state)\<rparr>)"
    if "(vd, vid, state) \<in> set (sy_Asked s)"
| cancel: "volume_step s (s\<lparr>sy_C := unfill vid (sy_C s)\<rparr>)"
| observe: "volume_step s (s\<lparr>sy_C := c'\<rparr>)" if "observe_volume (sy_C s) obj = (e, c')"
| attach: "volume_step s (s\<lparr>sy_C := c'\<rparr>)"
    if "map_of (co_objects (sy_C s)) (st_ID (sb_Status sb)) = None" and "st_Volumes (sb_Status sb) = []"
      and "distinct (map vm_Name (sp_Volumes (sb_Spec sb)))"
      and "bindVolumesLocked (sy_C s) sb = Inr out" and "persist (sy_C s) out mutation = (e, c')"
| keep: "volume_step s (s\<lparr>sy_C := c'\<rparr>)"
    if "map_of (co_objects (sy_C s)) (st_ID (sb_Status sb)) = Some held" and "keeps_bindings held sb"
      and "persist (sy_C s) sb mutation = (e, c')"
| kept: "volume_step s (s\<lparr>sy_C := c'\<rparr>)" if "forget (sy_C s) k mutation = (Some e, c')"
| gone: "volume_step s (s\<lparr>sy_C := releaseVolumesLocked c' held\<rparr>)"
    if "map_of (co_objects (sy_C s)) k = Some held" and "forget (sy_C s) k mutation = (None, c')"

section \<open>The invariant of the system\<close>

definition updates_ok :: "volumes \<Rightarrow> (string \<times> Volume) list \<Rightarrow> bool" where
  "updates_ok vols us \<longleftrightarrow> (\<forall>vid obj v. (vid, obj) \<in> set us \<longrightarrow> map_of vols vid = Some v \<longrightarrow>
     md_Name (vo_Metadata obj) = md_Name (vo_Metadata v) \<and> volume_access obj = volume_access v)"

definition system_inv :: "('w \<Rightarrow> string set) \<Rightarrow> 'w volume_system \<Rightarrow> bool" where
  "system_inv obs s \<longleftrightarrow> inv_of (sy_C s) \<and> volume_world obs (sy_C s)
     \<and> (\<forall>x \<in> set (sy_Asked s). asks_own obs (fst x)) \<and> updates_ok (co_volumeObjects (sy_C s)) (sy_Updates s)"

text \<open>What a step may ask the drivers to remove: volumes no live sandbox is bound to when it ends.\<close>

definition asks_unbound :: "('w \<Rightarrow> string set) \<Rightarrow> 'w volume_system \<Rightarrow> 'w volume_system \<Rightarrow> bool" where
  "asks_unbound obs s s' \<longleftrightarrow>
     obs (co_world (sy_C s')) \<subseteq> obs (co_world (sy_C s)) \<union> {vid. unbound (co_objects (sy_C s')) vid}"

lemma updates_ok_change:
  assumes "(volume_change objs)\<^sup>*\<^sup>* vols vols'" and "updates_ok vols us"
  shows "updates_ok vols' us"
  using assms
proof (induction rule: rtranclp_induct)
  case (step vols1 vols2)
  from step.hyps(2) step.IH [OF step.prems] show ?case
    by cases (auto simp: updates_ok_def same_volume_def map_of_update delete_conv')
qed simp

lemma effect_step:
  assumes "volume_effect obs (sy_C s) c'" and "system_inv obs s"
    and "\<forall>x \<in> set asked. asks_own obs (fst x)"
  shows "system_inv obs (s\<lparr>sy_C := c', sy_Due := due, sy_Asked := asked\<rparr>)
    \<and> asks_unbound obs s (s\<lparr>sy_C := c', sy_Due := due, sy_Asked := asked\<rparr>)"
  using assms volume_effect_inv [OF assms(1)] volume_effect_world [OF assms(1)] updates_ok_change
  by (auto simp: system_inv_def asks_unbound_def volume_effect_def)

lemma effect_step_C:
  assumes "volume_effect obs (sy_C s) c'" and "system_inv obs s"
  shows "system_inv obs (s\<lparr>sy_C := c'\<rparr>) \<and> asks_unbound obs s (s\<lparr>sy_C := c'\<rparr>)"
  using effect_step [OF assms, of "sy_Asked s" "sy_Due s"] assms(2) by (simp add: system_inv_def)

lemma CreateVolume_Inr:
  assumes "CreateVolume c obj owner mx = (r, c')" and "volume_world obs c"
  obtains (refused) e where "r = Inl e" "volume_effect obs c c'" "co_volumeObjects c' = co_volumeObjects c"
  | (made) v made where "r = Inr v" "vt_ID (vo_Status made) = fst (co_newID c VolumeIDPrefix (co_world c))"
      "vt_Owner (vo_Status made) = owner" "md_Name (vo_Metadata made) = md_Name (vo_Metadata obj)" "vphase made = VolumePending"
      "\<And>i u. (i, u) \<in> set (co_volumeObjects c) \<Longrightarrow> vt_Owner (vo_Status u) = owner \<Longrightarrow> md_Name (vo_Metadata u) \<noteq> md_Name (vo_Metadata obj)"
      "mx > 0 \<Longrightarrow> countVolumesLocked c owner < mx"
      "co_objects c' = co_objects c" "config c' = config c" "obs (co_world c') \<subseteq> obs (co_world c)"
      "co_volumeObjects c' = AList.update (vt_ID (vo_Status made)) made (co_volumeObjects c)"
proof -
  obtain vid w where n: "co_newID c VolumeIDPrefix (co_world c) = (vid, w)" by (cases "co_newID c VolumeIDPrefix (co_world c)")
  have ow: "obs w \<subseteq> obs (co_world c)" using assms(2) n unfolding volume_world_def by (metis snd_conv)
  let ?now = "co_wall c w"
  let ?made = "obj\<lparr>vo_Status := VolumeStatus0\<lparr>vt_ID := vid, vt_Owner := owner, vt_Phase := VolumePending, vt_CreatedAt := ?now, vt_UpdatedAt := ?now\<rparr>\<rparr>"
  let ?c1 = "c\<lparr>co_world := w\<rparr>"
  let ?early = "co_volumes c = None \<or> owner = []
    \<or> list_ex (\<lambda>(_, v). vt_Owner (vo_Status v) = owner \<and> md_Name (vo_Metadata v) = md_Name (vo_Metadata obj)) (co_volumeObjects c)
    \<or> mx > 0 \<and> countVolumesLocked c owner \<ge> mx \<or> admits c (vp_Environment (vo_Spec obj)) \<noteq> None
    \<or> (\<exists>e. volumeDriver c (vp_Environment (vo_Spec obj)) = Inl e)"
  obtain e c2 where p: "persistVolume ?c1 (volume_act MutationVolumeCreated ?made) = (e, c2)"
    by (cases "persistVolume ?c1 (volume_act MutationVolumeCreated ?made)")
  have vw: "volume_world obs ?c1" using assms(2) volume_world_config [of ?c1 c] by simp
  show thesis
  proof (cases ?early)
    case True
    then have "c' = c" "\<exists>e. r = Inl e" using assms(1) by (auto simp: CreateVolume_def split: if_splits option.splits sum.splits)
    then show thesis using refused by auto
  next
    case False
    then have eq: "(r, c') = (case persistVolume ?c1 (volume_act MutationVolumeCreated ?made) of
        (Some e, c2) \<Rightarrow> (Inl e, c2) | (None, c2) \<Rightarrow> (Inr (volumeRead (wakeVolumes c2) vid), wakeVolumes c2))"
      using assms(1) n by (auto simp: CreateVolume_def Let_def split: option.splits sum.splits prod.splits)
    show thesis
      using p vw
    proof (cases rule: persistVolume_cases)
      case (failed w')
      then obtain e1 where "e = Some e1" by auto
      with failed eq p ow show thesis by (intro refused [of e1]) (auto simp: volume_effect_def)
    next
      case (written w')
      have "r = Inr (volumeRead (wakeVolumes c2) vid)" "c' = wakeVolumes c2" using eq p written(1) by simp_all
      with written ow False n show thesis
        by (intro made [of _ "unattached ?made"]) (auto simp: wakeVolumes_def unattached_def list_ex_iff)
    qed
  qed
qed

lemma create_step:
  assumes "CreateVolume (sy_C s) obj owner mx = (r, c')" and "system_inv obs s"
    and "fresh_id s (fst (co_newID (sy_C s) VolumeIDPrefix (co_world (sy_C s))))"
  shows "system_inv obs (s\<lparr>sy_C := c'\<rparr>) \<and> asks_unbound obs s (s\<lparr>sy_C := c'\<rparr>)"
proof -
  have vw: "volume_world obs (sy_C s)" and inv: "inv_of (sy_C s)" using assms(2) by (simp_all add: system_inv_def)
  show ?thesis
    using assms(1) vw
  proof (cases rule: CreateVolume_Inr)
    case (refused e)
    with effect_step_C assms(2) show ?thesis by blast
  next
    case (made v made)
    have none: "map_of (co_volumeObjects (sy_C s)) (vt_ID (vo_Status made)) = None"
      using made(2) assms(3) by (simp add: fresh_id_def)
    have "volume_inv (co_objects (sy_C s)) (co_volumeObjects c')"
      unfolding made(11) using inv none made(3,4,6)
      by (intro volume_make_inv) (auto dest: map_of_SomeD)
    moreover have "updates_ok (co_volumeObjects c') (sy_Updates s)"
      using assms(2,3) made(2,11) by (force simp: system_inv_def updates_ok_def fresh_id_def map_of_update)
    ultimately show ?thesis
      using assms(2) made(8-10) volume_world_config [OF made(9)] by (auto simp: system_inv_def asks_unbound_def)
  qed
qed

lemma persist_frame:
  assumes "persist c obj m = (e, c')"
  shows "co_volumeObjects c' = co_volumeObjects c" "config c' = config c"
  using assms persist_config [of c obj m]
  by (auto simp: persist_def Let_def put_back_def wakeScheduler_def split: prod.splits option.splits if_splits)

lemma forget_frame:
  assumes "forget c k m = (e, c')"
  shows "co_volumeObjects c' = co_volumeObjects c" "config c' = config c" "e = None \<Longrightarrow> co_objects c' = AList.delete k (co_objects c)"
  using assms
  by (auto simp: forget_def Let_def put_back_def wakeScheduler_def split: prod.splits option.splits if_splits)

text \<open>A change of the sandboxes that keeps the invariant and asks the drivers for nothing.\<close>

lemma objects_step:
  assumes "system_inv obs s" and "co_volumeObjects c' = co_volumeObjects (sy_C s)" and "config c' = config (sy_C s)"
    and "obs (co_world c') = obs (co_world (sy_C s))" and "volume_inv (co_objects c') (co_volumeObjects (sy_C s))"
  shows "system_inv obs (s\<lparr>sy_C := c'\<rparr>) \<and> asks_unbound obs s (s\<lparr>sy_C := c'\<rparr>)"
  using assms volume_world_config [OF assms(3)] by (simp add: system_inv_def asks_unbound_def)

lemma persist_step:
  assumes "persist (sy_C s) sb m = (e, c')" and "system_inv obs s"
    and "volume_inv (AList.update (st_ID (sb_Status sb)) sb (co_objects (sy_C s))) (co_volumeObjects (sy_C s))"
  shows "system_inv obs (s\<lparr>sy_C := c'\<rparr>) \<and> asks_unbound obs s (s\<lparr>sy_C := c'\<rparr>)"
proof (rule objects_step [OF assms(2) persist_frame [OF assms(1)]])
  show "obs (co_world c') = obs (co_world (sy_C s))"
    using persist_obs [of obs "sy_C s" sb m] assms(1,2) by (simp add: system_inv_def volume_world_def)
  show "volume_inv (co_objects c') (co_volumeObjects (sy_C s))"
    using persist_nil [of "sy_C s" sb m c'] persist_err [of "sy_C s" sb m] assms by (cases e) (auto simp: system_inv_def)
qed

lemma resolve_step:
  assumes "map_of (co_volumeObjects (sy_C s)) vid = Some v" and "system_inv obs s"
    and "ResolveVolume input (o'\<lparr>vx_Existing := Some (volumeRead (sy_C s) vid)\<rparr>) = Inr obj"
  shows "system_inv obs (s\<lparr>sy_Updates := (vid, obj) # sy_Updates s\<rparr>)"
proof -
  obtain p env where "volumeUpdate p env (volumeRead (sy_C s) vid) (o'\<lparr>vx_Existing := Some (volumeRead (sy_C s) vid)\<rparr>) = Inr obj"
    using assms(3) by (auto simp: ResolveVolume_Inr)
  from volumeUpdate_keeps [OF this] have "md_Name (vo_Metadata obj) = md_Name (vo_Metadata v)"
    "(vo_Spec obj)\<lparr>vp_Retain := vp_Retain (vo_Spec v)\<rparr> = vo_Spec v"
    using assms(1) by (simp_all add: volumeRead_def Let_def)
  moreover from this(2) have "volume_access obj = volume_access v"
    by (metis VolumeSpec.select_convs(4) VolumeSpec.surjective VolumeSpec.update_convs(6))
  ultimately show ?thesis using assms(1,2) by (auto simp: system_inv_def updates_ok_def)
qed

lemma keeps_bindings_no_more:
  assumes "map_of objs (st_ID (sb_Status sb)) = Some held" and "keeps_bindings held sb"
  shows "no_more_bound objs (AList.update (st_ID (sb_Status sb)) sb objs)"
  using assms by (auto simp: no_more_bound_def keeps_bindings_def live_def map_of_update split: if_splits)

lemma delete_no_more: "no_more_bound objs (AList.delete k objs)"
  by (auto simp: no_more_bound_def live_def delete_conv')

lemma objects_ok_delete: "objects_ok m \<Longrightarrow> objects_ok (AList.delete k m)"
  by (simp add: objects_ok_def map_ok_delete) (auto simp: list_all_iff AList.delete_eq)

lemma forget_err_objects:
  assumes "forget c k m = (Some e, c')" and "objects_ok (co_objects c)"
  shows "no_more_bound (co_objects c) (co_objects c')" "objects_ok (co_objects c')"
proof -
  have c': "co_objects c' = (case map_of (co_objects c) k of None \<Rightarrow> AList.delete k (co_objects c)
      | Some p \<Rightarrow> AList.update k p (AList.delete k (co_objects c)))"
    using assms(1) by (auto simp: forget_def Let_def put_back_def split: prod.splits option.splits if_splits)
  have id: "st_ID (sb_Status p) = k" if "map_of (co_objects c) k = Some p" for p
    using that assms(2) by (auto simp: objects_ok_def list_all_iff dest: map_of_SomeD)
  show "no_more_bound (co_objects c) (co_objects c')"
    unfolding c' by (auto simp: no_more_bound_def live_def delete_conv' map_of_update split: option.splits if_splits)
  show "objects_ok (co_objects c')"
    unfolding c' using id objects_ok_update [OF objects_ok_delete [OF assms(2), of k]] objects_ok_delete [OF assms(2)]
    by (auto split: option.splits)
qed

lemma forget_step:
  assumes "forget (sy_C s) k m = (e, c')" and "system_inv obs s" and "volume_inv (co_objects c') (co_volumeObjects (sy_C s))"
  shows "system_inv obs (s\<lparr>sy_C := c'\<rparr>) \<and> asks_unbound obs s (s\<lparr>sy_C := c'\<rparr>)"
  using forget_obs [of obs "sy_C s" k m] assms
  by (intro objects_step [OF assms(2) forget_frame(1,2) [OF assms(1)]]) (simp_all add: system_inv_def volume_world_def)

lemma volume_step_inv:
  assumes "volume_step s s'" and "system_inv obs s"
  shows "system_inv obs s' \<and> asks_unbound obs s s'"
proof -
  have vw: "volume_world obs (sy_C s)" and inv: "inv_of (sy_C s)" and ok: "objects_ok (co_objects (sy_C s))"
    and own: "\<forall>x \<in> set (sy_Asked s). asks_own obs (fst x)"
    using assms(2) by (simp_all add: system_inv_def volume_inv_def)
  note eff = effect_step_C [OF _ assms(2)]
  from assms(1) show ?thesis
  proof cases
    case (create obj owner mx r c')
    with create_step [OF create(2) assms(2)] show ?thesis by simp
  next
    case (resolve vid v input o' obj)
    with resolve_step [OF resolve(2) assms(2) resolve(3)] show ?thesis by (simp add: asks_unbound_def)
  next
    case (update vid obj r c')
    have "volume_effect obs (sy_C s) c'"
      using update(2) assms(2) by (intro UpdateVolume_effect [OF update(3) vw inv]) (auto simp: system_inv_def updates_ok_def)
    with eff update(1) show ?thesis by simp
  next
    case (delete vid r c')
    with eff [OF DeleteVolume_effect [OF delete(2) vw inv]] show ?thesis by simp
  next
    case (fill due c')
    then have "volume_effect obs (sy_C s) c'" by (auto simp: FillVolumes_def Let_def)
    with effect_step [OF this assms(2) own] fill(1) show ?thesis by simp
  next
    case (ask obj vd state c')
    with fill_ask_effect [OF ask(3) vw inv] have e: "volume_effect obs (sy_C s) c'" "asks_own obs vd" by simp_all
    with effect_step [OF e(1) assms(2), of "(vd, vt_ID (vo_Status obj), state) # sy_Asked s" "sy_Due s"] own ask(1)
    show ?thesis by simp
  next
    case (asked obj c')
    with fill_ask_effect [OF asked(3) vw inv] have "volume_effect obs (sy_C s) c'" by simp
    with eff [OF volume_effect_trans [OF this volume_effect_flags(1)]] asked(1) show ?thesis by simp
  next
    case (settle vd vid state)
    with own have "asks_own obs vd" by fastforce
    from volume_effect_trans [OF settleVolume_effect [OF this vw inv] volume_effect_flags(1)] eff settle(1)
    show ?thesis by simp
  next
    case (cancel vid)
    with eff [OF volume_effect_flags(1)] show ?thesis by simp
  next
    case (observe obj e c')
    with eff [OF observe_volume_effect [OF observe(2) vw inv]] show ?thesis by simp
  next
    case (attach sb out mutation e c')
    have id: "st_ID (sb_Status out) = st_ID (sb_Status sb)" using attach(5) by (auto simp: bindVolumesLocked_def go_err split: if_splits)
    have "volume_inv (AList.update (st_ID (sb_Status out)) out (co_objects (sy_C s))) (co_volumeObjects (sy_C s))"
      using attach_inv [OF inv _ bindVolumesLocked_may_attach [OF attach(5) inv attach(3,4)]] attach(2) id by simp
    with persist_step [OF attach(6) assms(2)] attach(1) show ?thesis by simp
  next
    case (keep sb held mutation e c')
    have "volume_inv (AList.update (st_ID (sb_Status sb)) sb (co_objects (sy_C s))) (co_volumeObjects (sy_C s))"
      by (rule no_more_bound_inv [OF inv keeps_bindings_no_more [OF keep(2,3)] objects_ok_update [OF ok]])
    with persist_step [OF keep(4) assms(2)] keep(1) show ?thesis by simp
  next
    case (kept k mutation e c')
    have "volume_inv (co_objects c') (co_volumeObjects (sy_C s))"
      by (rule no_more_bound_inv [OF inv forget_err_objects [OF kept(2) ok]])
    with forget_step [OF kept(2) assms(2)] kept(1) show ?thesis by simp
  next
    case (gone k held mutation c')
    let ?s1 = "s\<lparr>sy_C := c'\<rparr>"
    have "volume_inv (co_objects c') (co_volumeObjects (sy_C s))"
      unfolding forget_frame(3) [OF gone(3) refl] by (rule no_more_bound_inv [OF inv delete_no_more objects_ok_delete [OF ok]])
    then have s1: "system_inv obs ?s1" "asks_unbound obs s ?s1" using forget_step [OF gone(3) assms(2)] by simp_all
    then have e: "volume_effect obs c' (releaseVolumesLocked c' held)"
      by (intro releaseVolumesLocked_effect) (simp_all add: system_inv_def)
    from effect_step_C [of obs ?s1, OF _ s1(1)] e have "system_inv obs s'" "asks_unbound obs ?s1 s'" using gone(1) by simp_all
    with s1(2) e gone(1) show ?thesis by (auto simp: asks_unbound_def volume_effect_def)
  qed
qed

lemma volume_steps_inv: "volume_step\<^sup>*\<^sup>* s s' \<Longrightarrow> system_inv obs s \<Longrightarrow> system_inv obs s'"
  by (induction rule: rtranclp_induct) (auto dest: volume_step_inv)

section \<open>The theorems\<close>

text \<open>C38: however creates, updates, deletes, fills, observations and the lives of sandboxes interleave, and whatever the
  drivers and the stores answer, a volume a live sandbox is bound to is held and is not being deleted, a
  shared-read volume is attached read-only, a volume of single access has one writer or readers only, and no
  two volumes of an owner have one name.\<close>

theorem volumes_run_safe:
  assumes "volume_step\<^sup>*\<^sup>* s s'" and "system_inv obs s"
  shows "volume_inv (co_objects (sy_C s')) (co_volumeObjects (sy_C s'))"
  using volume_steps_inv [OF assms] by (simp add: system_inv_def)

text \<open>C39: no step of such a run asks a driver to remove a volume that a live sandbox is bound to when the step ends.\<close>

theorem volumes_run_keeps_bound:
  assumes "volume_step\<^sup>*\<^sup>* s s1" and "system_inv obs s" and "volume_step s1 s'"
    and "vid \<in> obs (co_world (sy_C s')) - obs (co_world (sy_C s1))"
  shows "unbound (co_objects (sy_C s')) vid"
  using volume_step_inv [OF assms(3) volume_steps_inv [OF assms(1,2)]] assms(4) by (auto simp: asks_unbound_def)

lemma countVolumes_update:
  "map_of vols vid = None \<Longrightarrow> filter P (AList.update vid v vols) = filter P vols @ (if P (vid, v) then [(vid, v)] else [])"
  by (induction vols) (auto simp: map_of_eq_None_iff)


section \<open>Witnesses\<close>

text \<open>A world that is the list of the volumes the driver was asked to remove, a controller of one running sandbox that
  mounts one of two volumes, and the delete of the other.\<close>

definition log_driver :: "string list VolumeDriver" where
  "log_driver = \<lparr>vd_CreateVolume = (\<lambda>_ w. (None, w)), vd_InspectVolume = (\<lambda>_ w. (Inl DriverNotFound, w)),
     vd_DeleteVolume = (\<lambda>vid w. (None, vid # w))\<rparr>"

definition log_store :: "string list Volumes" where
  "log_store = \<lparr>vl_WriteVolume = (\<lambda>_ w. (None, w)), vl_RemoveVolume = (\<lambda>_ w. (None, w))\<rparr>"

definition log_volume :: "string \<Rightarrow> Volume" where
  "log_volume vid = catalog_volume\<lparr>vo_Metadata := (vo_Metadata catalog_volume)\<lparr>md_Name := vid\<rparr>,
     vo_Status := VolumeStatus0\<lparr>vt_ID := vid, vt_Owner := ''o'', vt_Phase := VolumeAvailable\<rparr>\<rparr>"

definition log_sandbox :: Sandbox where
  "log_sandbox = (sample_sandbox ''sbx_1'' Running)
     \<lparr>sb_Status := (sb_Status (sample_sandbox ''sbx_1'' Running))
        \<lparr>st_Volumes := [\<lparr>va_Name = ''data'', va_Volume = ''vol_1'', va_Attached = True\<rparr>]\<rparr>\<rparr>"

definition log_controller :: "string list Controller" where
  "log_controller = (sample_over [] Capacity0 [log_sandbox])
     \<lparr>co_volumes := Some log_store, co_volumeObjects := [(''vol_1'', log_volume ''vol_1''), (''vol_2'', log_volume ''vol_2'')],
      co_drivers := [(''desk'', sample_driver\<lparr>dr_Capabilities := sample_capabilities\<lparr>cp_Volumes := True\<rparr>,
                                  dr_VolumeDriver := Some log_driver\<rparr>)]\<rparr>"

definition log_system :: "string list volume_system" where
  "log_system = \<lparr>sy_C = log_controller, sy_Due = [], sy_Asked = [], sy_Updates = []\<rparr>"

lemma log_world: "volume_world set log_controller"
  by (auto simp: volume_world_def log_controller_def volumeDriver_def driverFor_def asks_own_def asks_none_def log_driver_def
      log_store_def store_keeps_def sample_over_def sample_accepting_def split: if_splits)

lemma log_inv: "inv_of log_controller"
proof -
  have objs: "co_objects log_controller = [(''sbx_1'', log_sandbox)]"
    by (simp add: log_controller_def sample_over_def log_sandbox_def sample_sandbox_def)
  have sb: "live [(''sbx_1'', log_sandbox)] k x \<longleftrightarrow> k = ''sbx_1'' \<and> x = log_sandbox" for k x
    by (auto simp: live_def log_sandbox_def sample_sandbox_def Running_def PhaseDeleting_def SandboxStatus0_def)
  have at: "attachments log_sandbox = {\<lparr>va_Name = ''data'', va_Volume = ''vol_1'', va_Attached = True\<rparr>}"
    by (simp add: attachments_def log_sandbox_def)
  have acc: "volume_access (log_volume v) \<noteq> VolumeAccessSharedRead" for v
    by (simp add: log_volume_def catalog_volume_def catalog_manifest_def VolumeAccessSingle_def VolumeAccessSharedRead_def)
  have vols: "co_volumeObjects log_controller = [(''vol_1'', log_volume ''vol_1''), (''vol_2'', log_volume ''vol_2'')]"
    by (simp add: log_controller_def)
  have v: "vt_ID (vo_Status (log_volume vid)) = vid" "md_Name (vo_Metadata (log_volume vid)) = vid"
    "vphase (log_volume vid) \<noteq> VolumeDeleting" for vid
    by (simp_all add: log_volume_def volume_phase_defs)
  have "st_ID (sb_Status log_sandbox) = ''sbx_1''" by (simp add: log_sandbox_def sample_sandbox_def)
  then show ?thesis
    unfolding volume_inv_def objs vols objects_ok_def volumes_keyed_def names_unique_def bound_held_def access_kept_def
    by (auto simp: map_ok_def sb at acc v split: if_splits)
qed

lemma log_system_inv: "system_inv set log_system"
  using log_world log_inv by (simp add: system_inv_def log_system_def updates_ok_def)

text \<open>The delete of the volume no sandbox mounts: one step that asks the driver for it.\<close>

definition log_deleted :: "string list volume_system" where
  "log_deleted = log_system\<lparr>sy_C := snd (DeleteVolume log_controller ''vol_2'')\<rparr>"

lemma log_delete_step: "volume_step log_system log_deleted"
  unfolding log_deleted_def
  by (rule volume_step.delete [of _ "''vol_2''" "fst (DeleteVolume log_controller ''vol_2'')"]) (simp add: log_system_def)

lemma log_deleted_world: "co_world (sy_C log_deleted) = [''vol_2'']" "co_world (sy_C log_system) = []"
  by code_simp+

theorem volumes_run_safe_witness:
  "volume_inv (co_objects (sy_C log_deleted)) (co_volumeObjects (sy_C log_deleted))"
proof (rule volumes_run_safe [OF _ log_system_inv])
  show "volume_step\<^sup>*\<^sup>* log_system log_deleted" using log_delete_step by (rule r_into_rtranclp)
qed

theorem volumes_run_keeps_bound_witness: "unbound (co_objects (sy_C log_deleted)) ''vol_2''"
  by (rule volumes_run_keeps_bound [OF rtranclp.rtrancl_refl log_system_inv log_delete_step]) (simp add: log_deleted_world)

lemma log_create: "isl (fst (CreateVolume log_controller (log_volume ''spare'') ''o'' 3)) = False"
  "map_of (co_volumeObjects log_controller) (fst (co_newID log_controller VolumeIDPrefix (co_world log_controller))) = None"
  "countVolumesLocked log_controller ''o'' = 2"
  by code_simp+


end
