(* ===== verification/Spawn_Tree.thy ===== *)
theory Spawn_Tree
  imports Controller_State
begin

text \<open>
  The tree of sandboxes (\<^verbatim>\<open>controller/spawn.go\<close>, \<^verbatim>\<open>descendants\<close>, \<^verbatim>\<open>Tree\<close> and \<^verbatim>\<open>narrowingRefusal\<close>). The parents are
  read from the objects held, so the walk must end on a snapshot whose parents run in a circle. What it
  answers is the transitive closure of the parent relation, each sandbox once and every child ahead of its
  parent, which is the order the deletes are made in.
\<close>

section \<open>The walk\<close>

definition parent_of :: "Sandbox \<Rightarrow> string" where
  "parent_of obj = st_Parent (sb_Status obj)"

definition children_of :: "(string \<times> Sandbox) list \<Rightarrow> string \<Rightarrow> string list" where
  "children_of objs p =
     sort_ordered (map fst (filter (\<lambda>(_, obj). parent_of obj \<noteq> [] \<and> parent_of obj = p) objs))"

text \<open>The recursion of the source, with the children still to visit of every call on the stack: a child met
  before is passed over, and one met first is given its level and its own children are visited ahead of
  the rest.\<close>

function walk :: "(string \<times> Sandbox) list \<Rightarrow> (string \<times> int) list \<Rightarrow> (string \<times> int) list \<Rightarrow> (string \<times> int) list" where
  "walk objs [] depth = depth"
| "walk objs ((child, level) # stack) depth =
     (if child \<in> fst ` set depth then walk objs stack depth
      else walk objs (map (\<lambda>x. (x, level + 1)) (children_of objs child) @ stack) ((child, level) # depth))"
  by pat_completeness auto

lemma set_children_of:
  "x \<in> set (children_of objs p) \<longleftrightarrow> (\<exists>obj. (x, obj) \<in> set objs \<and> parent_of obj = p) \<and> p \<noteq> []"
  by (force simp: children_of_def sort_ordered_sort)

definition unseen :: "(string \<times> Sandbox) list \<Rightarrow> (string \<times> int) list \<Rightarrow> (string \<times> int) list \<Rightarrow> string set" where
  "unseen objs stack depth = (fst ` set objs \<union> fst ` set stack) - fst ` set depth"

lemma finite_unseen [simp]: "finite (unseen objs stack depth)"
  by (simp add: unseen_def)

lemma unseen_visit:
  assumes "child \<notin> fst ` set depth"
  shows "unseen objs (map (\<lambda>x. (x, level')) (children_of objs child) @ stack) ((child, level) # depth)
    \<subset> unseen objs ((child, level) # stack) depth"
proof -
  have "x \<in> fst ` set objs" if "x \<in> set (children_of objs child)" for x
    using that by (force simp: set_children_of)
  then show ?thesis using assms by (auto simp: unseen_def)
qed

termination walk
proof (relation "measures [\<lambda>(objs, stack, depth). card (unseen objs stack depth), \<lambda>(objs, stack, depth). length stack]")
  fix objs :: "(string \<times> Sandbox) list" and child level stack depth
  assume "child \<in> fst ` set (depth :: (string \<times> int) list)"
  have "card (unseen objs stack depth) \<le> card (unseen objs ((child, level) # stack) depth)"
    by (rule card_mono) (auto simp: unseen_def)
  then show "((objs, stack, depth), objs, (child, level) # stack, depth)
      \<in> measures [\<lambda>(objs, stack, depth). card (unseen objs stack depth), \<lambda>(objs, stack, depth). length stack]"
    by auto
next
  fix objs :: "(string \<times> Sandbox) list" and child level stack depth
  assume "child \<notin> fst ` set (depth :: (string \<times> int) list)"
  from psubset_card_mono [OF finite_unseen unseen_visit [OF this]]
  show "((objs, map (\<lambda>x. (x, level + 1)) (children_of objs child) @ stack, (child, level) # depth),
         objs, (child, level) # stack, depth)
      \<in> measures [\<lambda>(objs, stack, depth). card (unseen objs stack depth), \<lambda>(objs, stack, depth). length stack]"
    by simp
qed simp

definition level_in :: "(string \<times> int) list \<Rightarrow> string \<Rightarrow> int" where
  "level_in depth x = (case map_of depth x of None \<Rightarrow> 0 | Some l \<Rightarrow> l)"

definition deeper_first :: "(string \<times> int) list \<Rightarrow> Sandbox \<Rightarrow> Sandbox \<Rightarrow> int" where
  "deeper_first depth a b =
     cmp_or [go_compare (level_in depth (st_ID (sb_Status b))) (level_in depth (st_ID (sb_Status a))),
             go_compare (st_ID (sb_Status a)) (st_ID (sb_Status b))]"

definition levels_below :: "(string \<times> Sandbox) list \<Rightarrow> string \<Rightarrow> (string \<times> int) list" where
  "levels_below objs vid = walk objs (map (\<lambda>x. (x, 1)) (children_of objs vid)) []"

definition descendants :: "'w Controller \<Rightarrow> string \<Rightarrow> Sandbox list" where
  "descendants c vid =
     (let depth = levels_below (co_objects c) vid
      in sort_func (deeper_first depth) (List.map_filter (\<lambda>(child, _). map_of (co_objects c) child) depth))"

definition export :: "Sandbox \<Rightarrow> Sandbox" where
  "export obj = obj\<lparr>sb_Status := (sb_Status obj)\<lparr>st_EgressState := None, st_TokenState := None\<rparr>\<rparr>"

definition Tree :: "'w Controller \<Rightarrow> string \<Rightarrow> Sandbox list" where
  "Tree c rootID =
     sort_func (\<lambda>a b. go_compare (st_ID (sb_Status a)) (st_ID (sb_Status b)))
       (map (\<lambda>(_, obj). export obj) (filter (\<lambda>(_, obj). st_Root (sb_Status obj) = rootID) (co_objects c)))"

text \<open>The first live child an update would leave outside its boundary, with the paths it exceeds.\<close>

fun first_outside :: "Sandbox \<Rightarrow> gotime \<Rightarrow> Sandbox list \<Rightarrow> merr option" where
  "first_outside updated now [] = None"
| "first_outside updated now (child # rest) =
     (if parent_of child \<noteq> st_ID (sb_Status updated) then first_outside updated now rest
      else case DescendantOutsideBoundary updated child now of
             Some e \<Rightarrow> Some e
           | None \<Rightarrow> first_outside updated now rest)"

definition narrowingRefusal :: "'w Controller \<Rightarrow> Sandbox \<Rightarrow> merr option" where
  "narrowingRefusal c updated = first_outside updated (now_of c) (descendants c (st_ID (sb_Status updated)))"

section \<open>What the walk visits\<close>

text \<open>The parent relation of the objects held, and what lies below one of them.\<close>

definition child_rel :: "(string \<times> Sandbox) list \<Rightarrow> (string \<times> string) set" where
  "child_rel objs = {(p, x). \<exists>obj. map_of objs x = Some obj \<and> parent_of obj = p \<and> p \<noteq> []}"

lemma child_rel_children:
  assumes "map_ok objs"
  shows "(p, x) \<in> child_rel objs \<longleftrightarrow> x \<in> set (children_of objs p)"
  using map_of_iff_set [OF assms] by (auto simp: child_rel_def set_children_of)

lemma child_rel_one_parent: "(p, x) \<in> child_rel objs \<Longrightarrow> (q, x) \<in> child_rel objs \<Longrightarrow> p = q"
  by (auto simp: child_rel_def)

text \<open>Every entry met so far is one level below its parent, and the children of an entry already given a
  level have one too or are on the stack.\<close>

definition level_ok :: "(string \<times> Sandbox) list \<Rightarrow> string \<Rightarrow> (string \<times> int) list \<Rightarrow> string \<times> int \<Rightarrow> bool" where
  "level_ok objs base depth = (\<lambda>(x, l). (base, x) \<in> child_rel objs \<and> l = 1
     \<or> (\<exists>p lp. (p, lp) \<in> set depth \<and> (p, x) \<in> child_rel objs \<and> l = lp + 1))"

definition walk_inv :: "(string \<times> Sandbox) list \<Rightarrow> string \<Rightarrow> (string \<times> int) list \<Rightarrow> (string \<times> int) list \<Rightarrow> bool" where
  "walk_inv objs base stack depth \<longleftrightarrow>
     distinct (map fst depth)
     \<and> (\<forall>e \<in> set stack \<union> set depth. level_ok objs base depth e)
     \<and> (\<forall>p x. p = base \<or> p \<in> fst ` set depth \<longrightarrow> (p, x) \<in> child_rel objs \<longrightarrow> x \<in> fst ` set stack \<union> fst ` set depth)
     \<and> (\<forall>x \<in> fst ` set stack \<union> fst ` set depth. (base, x) \<in> (child_rel objs)\<^sup>+)"

lemma walk_inv_start:
  assumes "map_ok objs"
  shows "walk_inv objs base (map (\<lambda>x. (x, 1)) (children_of objs base)) []"
  using child_rel_children [OF assms] by (force simp: walk_inv_def level_ok_def)

lemma walk_inv_skip:
  assumes "walk_inv objs base ((child, level) # stack) depth" and "child \<in> fst ` set depth"
  shows "walk_inv objs base stack depth"
proof -
  have "fst ` set ((child, level) # stack) \<union> fst ` set depth = fst ` set stack \<union> fst ` set depth"
    using assms(2) by auto
  then show ?thesis using assms(1) unfolding walk_inv_def by auto
qed

lemma level_ok_mono: "level_ok objs base depth e \<Longrightarrow> level_ok objs base (x # depth) e"
  by (auto simp: level_ok_def)

lemma walk_inv_visit:
  assumes "map_ok objs" and "walk_inv objs base ((child, level) # stack) depth" and "child \<notin> fst ` set depth"
  shows "walk_inv objs base (map (\<lambda>x. (x, level + 1)) (children_of objs child) @ stack) ((child, level) # depth)"
proof -
  let ?stack = "map (\<lambda>x. (x, level + 1)) (children_of objs child) @ stack" and ?depth = "(child, level) # depth"
  note inv = assms(2) [unfolded walk_inv_def]
  have kids: "(child, x) \<in> child_rel objs \<longleftrightarrow> x \<in> set (children_of objs child)" for x
    by (rule child_rel_children [OF assms(1)])
  have ids: "fst ` set ?stack = set (children_of objs child) \<union> fst ` set stack"
    by (auto simp: image_Un image_image)
  have "distinct (map fst ?depth)" using inv assms(3) by simp
  moreover have "level_ok objs base ?depth e" if "e \<in> set ?stack \<union> set ?depth" for e
  proof (cases "\<exists>x. e = (x, level + 1) \<and> x \<in> set (children_of objs child)")
    case True
    then show ?thesis using kids by (auto simp: level_ok_def)
  next
    case False
    with that have "e \<in> set ((child, level) # stack) \<union> set depth" by auto
    then show ?thesis using inv by (blast intro: level_ok_mono)
  qed
  moreover have "x \<in> fst ` set ?stack \<union> fst ` set ?depth"
    if "p = base \<or> p \<in> fst ` set ?depth" "(p, x) \<in> child_rel objs" for p x
  proof (cases "p = child")
    case True
    then show ?thesis using that(2) kids ids by auto
  next
    case False
    with that(1) have "p = base \<or> p \<in> fst ` set depth" by auto
    then have "x \<in> fst ` set ((child, level) # stack) \<union> fst ` set depth" using inv that(2) by blast
    then show ?thesis using ids by auto
  qed
  moreover have "(base, x) \<in> (child_rel objs)\<^sup>+" if "x \<in> fst ` set ?stack \<union> fst ` set ?depth" for x
  proof (cases "x \<in> set (children_of objs child)")
    case True
    have "(base, child) \<in> (child_rel objs)\<^sup>+" using inv by simp
    then show ?thesis using True kids by (blast intro: trancl_into_trancl)
  next
    case False
    with that ids have "x \<in> fst ` set ((child, level) # stack) \<union> fst ` set depth" by auto
    then show ?thesis using inv by blast
  qed
  ultimately show ?thesis unfolding walk_inv_def by blast
qed

lemma walk_inv_run:
  assumes "map_ok objs" and "walk_inv objs base stack depth"
  shows "walk_inv objs base [] (walk objs stack depth)"
  using assms
  by (induction objs stack depth rule: walk.induct) (auto dest: walk_inv_skip walk_inv_visit)

lemma levels_below_inv: "map_ok objs \<Longrightarrow> walk_inv objs base [] (levels_below objs base)"
  unfolding levels_below_def by (rule walk_inv_run [OF _ walk_inv_start])

lemma levels_below_ids:
  assumes "map_ok objs"
  shows "fst ` set (levels_below objs base) = {x. (base, x) \<in> (child_rel objs)\<^sup>+}"
proof -
  note inv = levels_below_inv [OF assms, of base, unfolded walk_inv_def, simplified]
  have "x \<in> fst ` set (levels_below objs base)" if "(base, x) \<in> (child_rel objs)\<^sup>+" for x
    using that by (induction rule: trancl_induct) (use inv in blast)+
  then show ?thesis using inv by blast
qed

section \<open>The descendants of a sandbox\<close>

lemma objects_okD:
  assumes "objects_ok objs"
  shows "map_ok objs" and "map_of objs x = Some obj \<Longrightarrow> id_of obj = x"
  using assms by (auto simp: objects_ok_def id_of_def list_all_iff dest!: map_of_SomeD)

lemma mem_descendants:
  assumes "objects_ok (co_objects c)"
  shows "obj \<in> set (descendants c vid)
    \<longleftrightarrow> map_of (co_objects c) (id_of obj) = Some obj \<and> (vid, id_of obj) \<in> (child_rel (co_objects c))\<^sup>+"
proof -
  have "obj \<in> set (descendants c vid)
      \<longleftrightarrow> (\<exists>x \<in> fst ` set (levels_below (co_objects c) vid). map_of (co_objects c) x = Some obj)"
    by (force simp: descendants_def Let_def map_filter_def)
  then show ?thesis
    using objects_okD [OF assms] levels_below_ids [OF objects_okD(1) [OF assms], of vid] by auto
qed

lemma below_held: "(vid, x) \<in> (child_rel objs)\<^sup>+ \<Longrightarrow> \<exists>obj. map_of objs x = Some obj"
  by (erule tranclE) (auto simp: child_rel_def)

lemma ids_descendants:
  assumes "objects_ok (co_objects c)"
  shows "id_of ` set (descendants c vid) = {x. (vid, x) \<in> (child_rel (co_objects c))\<^sup>+}"
proof -
  have "x \<in> id_of ` set (descendants c vid)" if below: "(vid, x) \<in> (child_rel (co_objects c))\<^sup>+" for x
  proof -
    obtain obj where "map_of (co_objects c) x = Some obj" using below_held [OF below] by blast
    moreover from this have "id_of obj = x" by (rule objects_okD(2) [OF assms])
    ultimately show ?thesis using below mem_descendants [OF assms] by (metis image_eqI)
  qed
  then show ?thesis using mem_descendants [OF assms] by auto
qed

lemma distinct_map_filter:
  assumes "distinct (map fst xs)" and "\<And>x y obj. (x, y) \<in> set xs \<Longrightarrow> f x = Some obj \<Longrightarrow> g obj = x"
  shows "distinct (map g (List.map_filter (\<lambda>(x, _). f x) xs))"
  using assms
proof (induction xs)
  case (Cons e xs)
  obtain x y where e: "e = (x, y)" by (cases e)
  have rest: "distinct (map g (List.map_filter (\<lambda>(x, _). f x) xs))"
    using Cons.prems by (intro Cons.IH) auto
  have "g obj \<notin> g ` set (List.map_filter (\<lambda>(x, _). f x) xs)" if "f x = Some obj" for obj
  proof
    assume "g obj \<in> g ` set (List.map_filter (\<lambda>(x, _). f x) xs)"
    then obtain x' y' obj' where "(x', y') \<in> set xs" "f x' = Some obj'" "g obj = g obj'"
      by (auto simp: map_filter_def)
    then show False using Cons.prems(1) Cons.prems(2) [of x y obj] Cons.prems(2) [of x' y' obj'] that e by force
  qed
  with rest show ?case by (cases "f x") (auto simp: e map_filter_simps)
qed (simp add: map_filter_simps)

lemma distinct_descendants:
  assumes "objects_ok (co_objects c)"
  shows "distinct (map id_of (descendants c vid))"
  using levels_below_inv [OF objects_okD(1) [OF assms], of vid] objects_okD(2) [OF assms]
  by (auto simp: descendants_def Let_def walk_inv_def intro!: distinct_map_filter)

text \<open>Below a sandbox that is not its own ancestor, a level is one more than the parent's.\<close>

lemma level_of_child:
  assumes "map_ok objs" and "(base, base) \<notin> (child_rel objs)\<^sup>+" and "(base, p) \<in> (child_rel objs)\<^sup>+"
    and "(p, x) \<in> child_rel objs"
  shows "level_in (levels_below objs base) x = level_in (levels_below objs base) p + 1"
proof -
  let ?levels = "levels_below objs base"
  note inv = levels_below_inv [OF assms(1), of base, unfolded walk_inv_def, simplified]
  have level: "level_in ?levels y = l" if "(y, l) \<in> set ?levels" for y l
    using map_of_is_SomeI [OF conjunct1 [OF inv] that] by (simp add: level_in_def)
  have "(base, x) \<in> (child_rel objs)\<^sup>+" using assms(3,4) by (rule trancl_into_trancl)
  then have "x \<in> fst ` set ?levels" using levels_below_ids [OF assms(1)] by blast
  then obtain l where x: "(x, l) \<in> set ?levels" by auto
  then have "level_ok objs base ?levels (x, l)" using inv by blast
  moreover have "p \<noteq> base" using assms(2,3) by blast
  ultimately obtain lp where "(p, lp) \<in> set ?levels" "l = lp + 1"
    using child_rel_one_parent [OF assms(4)] unfolding level_ok_def by blast
  with x level show ?thesis by simp
qed

lemma descendants_order:
  assumes "objects_ok (co_objects c)" and "(vid, vid) \<notin> (child_rel (co_objects c))\<^sup>+"
  shows "sorted_wrt (\<lambda>a b. parent_of b \<noteq> id_of a) (descendants c vid)"
proof -
  let ?levels = "levels_below (co_objects c) vid" and ?R = "child_rel (co_objects c)"
  have order: "go_preorder (deeper_first ?levels)"
    unfolding deeper_first_def by (intro go_preorder_intros)
  have "sorted_wrt (\<lambda>a b. deeper_first ?levels a b \<le> 0) (descendants c vid)"
    unfolding descendants_def Let_def by (rule go_preorder.sorted_sort_func [OF order])
  then show ?thesis
  proof (rule sorted_wrt_mono_rel [rotated])
    fix a b assume a: "a \<in> set (descendants c vid)" and b: "b \<in> set (descendants c vid)" and le: "deeper_first ?levels a b \<le> 0"
    show "parent_of b \<noteq> id_of a"
    proof
      assume "parent_of b = id_of a"
      moreover have "(vid, id_of b) \<in> ?R\<^sup>+" "(vid, id_of a) \<in> ?R\<^sup>+" "map_of (co_objects c) (id_of b) = Some b"
        using a b mem_descendants [OF assms(1)] by auto
      ultimately have "(id_of a, id_of b) \<in> ?R" by (auto simp: child_rel_def elim: tranclE)
      from level_of_child [OF objects_okD(1) [OF assms(1)] assms(2) \<open>(vid, id_of a) \<in> ?R\<^sup>+\<close> this]
      show False using le by (auto simp: deeper_first_def id_of_def)
    qed
  qed
qed

end
