(* ===== verification/SHA256.thy ===== *)
theory SHA256
  imports Prelude "HOL-Library.Word"
begin

text \<open>
  The two functions of Go's standard library that turn a text into a digest: \<^verbatim>\<open>sha256.Sum256\<close> over 32-bit
  words with wrap-around addition, and \<^verbatim>\<open>hex.EncodeToString\<close>. A text is its bytes, and so is a digest.
\<close>

unbundle bit_operations_syntax

type_synonym w32 = "32 word"

section \<open>Bytes and words\<close>

definition byte_of :: "char \<Rightarrow> w32" where
  "byte_of c = word_of_nat (of_char c)"

definition char_of_word :: "w32 \<Rightarrow> char" where
  "char_of_word w = char_of (unat (w AND 0xff))"

fun words_of :: "string \<Rightarrow> w32 list" where
  "words_of (a # b # c # d # rest) =
     (push_bit 24 (byte_of a) OR push_bit 16 (byte_of b) OR push_bit 8 (byte_of c) OR byte_of d) # words_of rest"
| "words_of _ = []"

definition bytes_of_word :: "w32 \<Rightarrow> string" where
  "bytes_of_word w = map (\<lambda>n. char_of_word (drop_bit n w)) [24, 16, 8, 0]"

section \<open>The constants\<close>

text \<open>The constants of the digest are the first 32 bits of the fractional parts of the square and cube roots of
  the first primes. A root is found from its highest bit down, in integers; 35 bits hold every one of them.\<close>

definition root_bit :: "nat \<Rightarrow> int \<Rightarrow> int \<Rightarrow> nat \<Rightarrow> int" where
  "root_bit k n r b = (if (r + 2 ^ b) ^ k \<le> n then r + 2 ^ b else r)"

definition int_root :: "nat \<Rightarrow> int \<Rightarrow> int" where
  "int_root k n = foldl (root_bit k n) 0 (rev [0..<35])"

definition root_word :: "nat \<Rightarrow> int \<Rightarrow> w32" where
  "root_word k p = word_of_int (int_root k (p * 2 ^ (32 * k)))"

definition primes :: "int list" where
  "primes = filter (\<lambda>p. \<forall>q \<in> set [2..p - 1]. p mod q \<noteq> 0) [2..311]"

definition sha_k :: "w32 list" where
  "sha_k = map (root_word 3) primes"

type_synonym sha_state = "w32 \<times> w32 \<times> w32 \<times> w32 \<times> w32 \<times> w32 \<times> w32 \<times> w32"

definition sha_init :: sha_state where
  "sha_init = (root_word 2 2, root_word 2 3, root_word 2 5, root_word 2 7,
     root_word 2 11, root_word 2 13, root_word 2 17, root_word 2 19)"

lemma root_bits:
  assumes "0 \<le> r" and "r ^ k \<le> n" and "n < (r + 2 ^ m) ^ k"
  shows "foldl (root_bit k n) r (rev [0..<m]) ^ k \<le> n \<and> n < (foldl (root_bit k n) r (rev [0..<m]) + 1) ^ k
    \<and> 0 \<le> foldl (root_bit k n) r (rev [0..<m])"
  using assms
proof (induction m arbitrary: r)
  case (Suc m)
  have "0 \<le> root_bit k n r m" "root_bit k n r m ^ k \<le> n" "n < (root_bit k n r m + 2 ^ m) ^ k"
    using Suc.prems by (auto simp: root_bit_def add.assoc)
  from Suc.IH [OF this] show ?case by simp
qed simp

lemma int_root:
  assumes "0 < k" and "0 \<le> n" and "n < 2 ^ (35 * k)"
  shows "int_root k n ^ k \<le> n \<and> n < (int_root k n + 1) ^ k"
proof -
  have "n < (0 + 2 ^ 35) ^ k" using assms(3) by (simp only: power_mult add_0)
  moreover have "(0 :: int) ^ k \<le> n" using assms(1,2) by (simp add: power_0_left)
  ultimately show ?thesis unfolding int_root_def using root_bits [of 0 k n 35] by blast
qed

section \<open>The compression function\<close>

definition rotr :: "nat \<Rightarrow> w32 \<Rightarrow> w32" where
  "rotr n x = drop_bit n x OR push_bit (32 - n) x"

definition small_sigma0 :: "w32 \<Rightarrow> w32" where
  "small_sigma0 x = rotr 7 x XOR rotr 18 x XOR drop_bit 3 x"

definition small_sigma1 :: "w32 \<Rightarrow> w32" where
  "small_sigma1 x = rotr 17 x XOR rotr 19 x XOR drop_bit 10 x"

definition big_sigma0 :: "w32 \<Rightarrow> w32" where
  "big_sigma0 x = rotr 2 x XOR rotr 13 x XOR rotr 22 x"

definition big_sigma1 :: "w32 \<Rightarrow> w32" where
  "big_sigma1 x = rotr 6 x XOR rotr 11 x XOR rotr 25 x"

text \<open>The schedule of one block, the newest word first.\<close>

fun schedule :: "nat \<Rightarrow> w32 list \<Rightarrow> w32 list" where
  "schedule 0 ws = ws"
| "schedule (Suc n) ws =
     schedule n ((small_sigma1 (ws ! 1) + ws ! 6 + small_sigma0 (ws ! 14) + ws ! 15) # ws)"

fun sha_round :: "sha_state \<Rightarrow> w32 \<times> w32 \<Rightarrow> sha_state" where
  "sha_round (a, b, c, d, e, f, g, h) (k, w) =
     (let t1 = h + big_sigma1 e + ((e AND f) XOR (NOT e AND g)) + k + w;
          t2 = big_sigma0 a + ((a AND b) XOR (a AND c) XOR (b AND c))
      in (t1 + t2, a, b, c, d + t1, e, f, g))"

fun sha_add :: "sha_state \<Rightarrow> sha_state \<Rightarrow> sha_state" where
  "sha_add (a, b, c, d, e, f, g, h) (a', b', c', d', e', f', g', h') =
     (a + a', b + b', c + c', d + d', e + e', f + f', g + g', h + h')"

definition sha_block :: "sha_state \<Rightarrow> w32 list \<Rightarrow> sha_state" where
  "sha_block s block = sha_add s (foldl sha_round s (zip sha_k (rev (schedule 48 (rev block)))))"

section \<open>The digest\<close>

text \<open>The padding: a one bit, zeros, and the length in bits in eight bytes.\<close>

definition sha_pad :: "string \<Rightarrow> string" where
  "sha_pad m =
     m @ [CHR 0x80] @ replicate ((119 - length m mod 64) mod 64) (CHR 0x00)
       @ map (\<lambda>n. char_of (nat (8 * int (length m) div 2 ^ n mod 256))) [56, 48, 40, 32, 24, 16, 8, 0]"

fun sha_blocks :: "nat \<Rightarrow> sha_state \<Rightarrow> w32 list \<Rightarrow> sha_state" where
  "sha_blocks 0 s ws = s"
| "sha_blocks (Suc n) s ws = sha_blocks n (sha_block s (take 16 ws)) (drop 16 ws)"

fun sha_bytes :: "sha_state \<Rightarrow> string" where
  "sha_bytes (a, b, c, d, e, f, g, h) = concat (map bytes_of_word [a, b, c, d, e, f, g, h])"

definition Sum256 :: "string \<Rightarrow> string" where
  "Sum256 m = (let p = sha_pad m in sha_bytes (sha_blocks (length p div 64) sha_init (words_of p)))"

definition hex_char :: "nat \<Rightarrow> char" where
  "hex_char n = ''0123456789abcdef'' ! n"

definition hex_EncodeToString :: "string \<Rightarrow> string" where
  "hex_EncodeToString s = concat (map (\<lambda>c. [hex_char (of_char c div 16), hex_char (of_char c mod 16)]) s)"

lemma length_sha_bytes: "length (sha_bytes s) = 32"
  by (cases s rule: sha_bytes.cases) (simp add: bytes_of_word_def)

lemma length_Sum256: "length (Sum256 m) = 32"
  by (simp add: Sum256_def Let_def length_sha_bytes)

text \<open>The padded text fills its blocks.\<close>

lemma sha_pad_blocks: "64 dvd length (sha_pad m)"
proof -
  obtain q r where n: "length m = 64 * q + r" "r < 64" by (metis mod_less_divisor mult_div_mod_eq zero_less_numeral)
  then have r: "length m mod 64 = r" by simp
  have "(119 - r) mod 64 = (if r \<le> 55 then 55 - r else 119 - r)"
    using n(2) by (simp add: mod_if)
  then have "length (sha_pad m) = 64 * (q + (if r \<le> 55 then 1 else 2))"
    using n by (simp add: sha_pad_def r)
  then show ?thesis by simp
qed

lemma hex_char_inj:
  assumes "m < 16" and "n < 16" and "hex_char m = hex_char n"
  shows "m = n"
proof -
  have "distinct ''0123456789abcdef''" by simp
  with assms show ?thesis by (simp add: hex_char_def nth_eq_iff_index_eq)
qed

lemma hex_EncodeToString_inj: "hex_EncodeToString s = hex_EncodeToString t \<Longrightarrow> s = t"
proof (induction s arbitrary: t)
  case Nil
  then show ?case by (cases t) (simp_all add: hex_EncodeToString_def)
next
  case (Cons c s)
  then obtain d t' where t: "t = d # t'" by (cases t) (simp_all add: hex_EncodeToString_def)
  let ?n = "of_char c :: nat" and ?m = "of_char d :: nat"
  have b: "?n div 16 < 16" "?m div 16 < 16" "?n mod 16 < 16" "?m mod 16 < 16"
    by (simp_all add: less_mult_imp_div_less)
  from Cons.prems t have h: "hex_char (?n div 16) = hex_char (?m div 16)" "hex_char (?n mod 16) = hex_char (?m mod 16)"
    and rest: "hex_EncodeToString s = hex_EncodeToString t'"
    by (simp_all add: hex_EncodeToString_def)
  have "?n div 16 = ?m div 16" "?n mod 16 = ?m mod 16"
    by (rule hex_char_inj [OF b(1,2) h(1)], rule hex_char_inj [OF b(3,4) h(2)])
  then have "?n = ?m" by (metis div_mult_mod_eq)
  then show ?case using Cons.IH [OF rest] t by simp
qed

end
