(* ===== verification/Egress_Control.thy ===== *)
theory Egress_Control
  imports Controller_State Manifest_Resolve SHA256
begin

text \<open>
  The controller's half of a sandbox's boundary (\<^verbatim>\<open>controller/egress.go\<close>): the binding of its mounts to
  secrets, the compile of its map, the push to a gateway ahead of the driver, what is handed to the
  driver, and the maps a gateway that connects is given. The gateways, the store of secret values and
  the random source are parameters of the controller. A compile writes through its pointer to the
  sandbox also where it fails, so it answers the sandbox beside its result. The wait for a gateway
  (\<^verbatim>\<open>awaitGateway\<close>) only sleeps, before the lock is taken, and is not modelled.
\<close>

definition EgressState0 :: EgressState where
  "EgressState0 = \<lparr>es_Credential = [], es_Version = 0, es_Secrets = [], es_EnvDigest = []\<rparr>"

definition SecretsStatus0 :: SecretsStatus where
  "SecretsStatus0 = \<lparr>sx_Mounted = [], sx_NotInjectable = []\<rparr>"

record compiled =
  bd_Map :: Map
  bd_Env :: strmap
  bd_Secrets :: SecretsStatus
  bd_Held :: bool

definition with_egress_state :: "EgressState option \<Rightarrow> Sandbox \<Rightarrow> Sandbox" where
  "with_egress_state st obj = obj\<lparr>sb_Status := (sb_Status obj)\<lparr>st_EgressState := st\<rparr>\<rparr>"

definition egress_state :: "Sandbox \<Rightarrow> EgressState" where
  "egress_state obj = (case st_EgressState (sb_Status obj) of None \<Rightarrow> EgressState0 | Some s \<Rightarrow> s)"

section \<open>The environment a sandbox is handed\<close>

text \<open>\<^verbatim>\<open>maps.Copy\<close>.\<close>

definition maps_Copy :: "strmap \<Rightarrow> strmap \<Rightarrow> strmap" where
  "maps_Copy dst src = foldl (\<lambda>m (k, v). AList.update k v m) dst src"

definition withSecretEnv :: "strmap \<Rightarrow> strmap \<Rightarrow> strmap" where
  "withSecretEnv env secrets = (if secrets = [] then env else maps_Copy (maps_Copy [] env) secrets)"

definition env_text :: "strmap \<Rightarrow> string" where
  "env_text env =
     concat (map (\<lambda>key. let v = (case map_of env key of None \<Rightarrow> [] | Some v \<Rightarrow> v)
                        in format_nat (length key) @ '':'' @ key @ format_nat (length v) @ '':'' @ v)
               (sort_ordered (map fst env)))"

definition envDigest :: "strmap \<Rightarrow> string" where
  "envDigest env = hex_EncodeToString (Sum256 (env_text env))"

definition handedEnv :: "Sandbox \<Rightarrow> strmap \<Rightarrow> Sandbox" where
  "handedEnv obj secrets =
     (case st_EgressState (sb_Status obj) of
        None \<Rightarrow> obj
      | Some s \<Rightarrow> with_egress_state (Some (s\<lparr>es_EnvDigest := envDigest (withSecretEnv (sp_Env (sb_Spec obj)) secrets)\<rparr>)) obj)"

section \<open>Binding the mounts\<close>

definition DefaultInjectHeader :: string where "DefaultInjectHeader = ''Authorization''"
definition SecretIDPrefix :: string where "SecretIDPrefix = ''sec_''"

definition CompanionEnv :: "string \<Rightarrow> SecretInject \<Rightarrow> strmap" where
  "CompanionEnv env inject =
     (if si_Query inject \<noteq> [] then [(env @ ''_QUERY'', si_Query inject)]
      else if si_Header inject \<noteq> [] \<and> to_lower (si_Header inject) \<noteq> to_lower DefaultInjectHeader
        then [(env @ ''_HEADER'', si_Header inject)]
      else [])"

text \<open>A secret by its id, whoever holds it, or by a name among the owner's own.\<close>

definition secretIDLocked :: "'w Controller \<Rightarrow> string \<Rightarrow> string \<Rightarrow> string" where
  "secretIDLocked c key owner =
     (if has_prefix key SecretIDPrefix
      then (if map_of (co_secretObjects c) key \<noteq> None then key else [])
      else case find (\<lambda>(_, held). su_Owner (sec_Status held) = owner \<and> md_Name (sec_Metadata held) = key) (co_secretObjects c) of
             Some (vid, _) \<Rightarrow> vid
           | None \<Rightarrow> [])"

definition boundTo :: "MountedSecret \<Rightarrow> SecretMount \<Rightarrow> bool" where
  "boundTo r mount \<longleftrightarrow>
     mt_Env r = sm_Env mount \<and> (mt_Name r = sm_Name mount \<or> mt_ID r \<noteq> [] \<and> mt_ID r = sm_Name mount)"

definition bindMount :: "'w Controller \<Rightarrow> MountedSecret list \<Rightarrow> SecretMount \<Rightarrow> string \<Rightarrow> MountedSecret \<times> 'w Controller" where
  "bindMount c held mount owner =
     (case find (\<lambda>r. boundTo r mount) held of
        Some r \<Rightarrow> (r, c)
      | None \<Rightarrow>
          (let (placeholder, w) = co_mintPlaceholder c (co_world c);
               vid = secretIDLocked c (sm_Name mount) owner
           in (\<lparr>mt_Name = (if vid \<noteq> [] then (case map_of (co_secretObjects c) vid of Some s \<Rightarrow> md_Name (sec_Metadata s) | None \<Rightarrow> [])
                          else sm_Name mount),
                mt_ID = vid, mt_Env = sm_Env mount, mt_Placeholder = placeholder\<rparr>,
               c\<lparr>co_world := w\<rparr>)))"

definition viewOf :: "Secret \<Rightarrow> string \<Rightarrow> string \<Rightarrow> SecretView" where
  "viewOf secret placeholder val =
     \<lparr>sv_ID = su_ID (sec_Status secret), sv_Name = md_Name (sec_Metadata secret), sv_Kind = se_Kind (sec_Spec secret),
      sv_Placeholder = placeholder, sv_Hosts = sk_Hosts (se_Scope (sec_Spec secret)),
      sv_Ports = sk_Ports (se_Scope (sec_Spec secret)),
      sv_Inject = \<lparr>in_Header = si_Header (se_Inject (sec_Spec secret)), in_Query = si_Query (se_Inject (sec_Spec secret)),
                   in_Scheme = si_Scheme (se_Inject (sec_Spec secret)), in_Body = si_Body (se_Inject (sec_Spec secret))\<rparr>,
      sv_Value = val,
      sv_OAuth = map_option (\<lambda>a. \<lparr>oa_TokenURL = so_TokenURL a, oa_Scope = so_Scope a, oa_Audience = so_Audience a\<rparr>)
                   (se_OAuth (sec_Spec secret))\<rparr>"

text \<open>What the loop over the mounts collects: the views, the status, the environment and the bindings.\<close>

record mounted =
  mn_views :: "SecretView list"
  mn_status :: SecretsStatus
  mn_env :: strmap
  mn_bound :: "MountedSecret list"

definition not_injectable :: "string \<Rightarrow> mounted \<Rightarrow> mounted" where
  "not_injectable name m =
     m\<lparr>mn_status := (mn_status m)\<lparr>sx_NotInjectable := sx_NotInjectable (mn_status m) @ [name]\<rparr>\<rparr>"

text \<open>The value of a mounted secret; the objects held come from the store of secrets, so it is there when one
  is.\<close>

definition open_value :: "'w Controller \<Rightarrow> string \<Rightarrow> (cerr + (string \<times> int)) \<times> 'w Controller" where
  "open_value c vid =
     (case co_secrets c of
        None \<Rightarrow> (Inl (ErrOther ''no secrets''), c)
      | Some s \<Rightarrow> (case ks_OpenValue s vid (co_world c) of (r, w) \<Rightarrow> (r, c\<lparr>co_world := w\<rparr>)))"

definition mount_one :: "'w Controller \<Rightarrow> MountedSecret list \<Rightarrow> string \<Rightarrow> SecretMount \<Rightarrow> mounted \<Rightarrow> mounted \<times> 'w Controller" where
  "mount_one c held owner mount m =
     (case bindMount c held mount owner of (r, c1) \<Rightarrow>
        (let m1 = m\<lparr>mn_bound := mn_bound m @ [r], mn_env := AList.update (sm_Env mount) (mt_Placeholder r) (mn_env m),
                     mn_status := (mn_status m)\<lparr>sx_Mounted := sx_Mounted (mn_status m) @ [mt_Name r]\<rparr>\<rparr>
         in case map_of (co_secretObjects c1) (mt_ID r) of
              None \<Rightarrow> (not_injectable (mt_Name r) m1, c1)
            | Some secret \<Rightarrow>
                (let m2 = m1\<lparr>mn_env := maps_Copy (mn_env m1) (CompanionEnv (sm_Env mount) (se_Inject (sec_Spec secret)))\<rparr>
                 in case open_value c1 (mt_ID r) of
                      (Inl _, c2) \<Rightarrow> (not_injectable (mt_Name r) m2, c2)
                    | (Inr (val, _), c2) \<Rightarrow>
                        (m2\<lparr>mn_views := mn_views m2 @ [viewOf secret (mt_Placeholder r) val]\<rparr>, c2))))"

fun mount_each :: "'w Controller \<Rightarrow> MountedSecret list \<Rightarrow> string \<Rightarrow> SecretMount list \<Rightarrow> mounted \<Rightarrow> mounted \<times> 'w Controller" where
  "mount_each c held owner [] m = (m, c)"
| "mount_each c held owner (mount # mounts) m =
     (case mount_one c held owner mount m of (m1, c1) \<Rightarrow> mount_each c1 held owner mounts m1)"

definition secretViews :: "'w Controller \<Rightarrow> Sandbox \<Rightarrow> (SecretView list \<times> SecretsStatus \<times> strmap) \<times> Sandbox \<times> 'w Controller" where
  "secretViews c obj =
     (let state = egress_state obj; mounts = sp_Secrets (sb_Spec obj)
      in if mounts = []
         then (([], SecretsStatus0, []), with_egress_state (Some (state\<lparr>es_Secrets := []\<rparr>)) obj, c)
         else case mount_each c (es_Secrets state) (st_Owner (sb_Status obj)) mounts
                     \<lparr>mn_views = [], mn_status = SecretsStatus0, mn_env = [], mn_bound = []\<rparr> of
                (m, c1) \<Rightarrow>
                  ((mn_views m, mn_status m, mn_env m), with_egress_state (Some (state\<lparr>es_Secrets := mn_bound m\<rparr>)) obj, c1))"

section \<open>The compile\<close>

definition compile_err :: "eerr \<Rightarrow> cerr" where
  "compile_err e = ErrOther (case e of ErrNoPrincipal \<Rightarrow> ''no principal'' | ErrNoMode \<Rightarrow> ''no mode''
     | ErrPlaceholder \<Rightarrow> ''placeholder'' | ErrSecretHostConflict \<Rightarrow> ''secret host conflict'')"

text \<open>The credential of a sandbox that has none, and the next version.\<close>

definition next_version :: "Sandbox \<Rightarrow> Sandbox" where
  "next_version obj = with_egress_state (Some ((egress_state obj)\<lparr>es_Version := wrap64 (es_Version (egress_state obj) + 1)\<rparr>)) obj"

definition with_credential :: "'w Controller \<Rightarrow> Sandbox \<Rightarrow> (cerr + Sandbox) \<times> 'w Controller" where
  "with_credential c obj =
     (case st_EgressState (sb_Status obj) of
        Some _ \<Rightarrow> (Inr obj, c)
      | None \<Rightarrow>
          (case co_mintCredential c (co_world c) of
             (Inl e, w) \<Rightarrow> (Inl e, c\<lparr>co_world := w\<rparr>)
           | (Inr credential, w) \<Rightarrow>
               (Inr (with_egress_state (Some (EgressState0\<lparr>es_Credential := credential\<rparr>)) obj), c\<lparr>co_world := w\<rparr>)))"

definition compileEgress :: "'w Controller \<Rightarrow> Sandbox \<Rightarrow> (cerr + compiled) \<times> Sandbox \<times> 'w Controller" where
  "compileEgress c obj =
     (case with_credential c obj of
        (Inl e, c1) \<Rightarrow> (Inl e, obj, c1)
      | (Inr obj1, c1) \<Rightarrow>
          (case secretViews c1 (next_version obj1) of
             ((views, status, env), obj2, c2) \<Rightarrow>
               (case Compile (co_isPlaceholder c) obj2 views of
                  Inl e \<Rightarrow> (Inl (compile_err e), obj2, c2)
                | Inr m \<Rightarrow>
                    (Inr \<lparr>bd_Map = m, bd_Env = env,
                          bd_Secrets = status\<lparr>sx_NotInjectable := Ordering.compact (sort_ordered (sx_NotInjectable status @ mp_NotInjectable m))\<rparr>,
                          bd_Held = False\<rparr>, obj2, c2))))"

section \<open>Who holds the boundary\<close>

definition CapabilitiesOf :: "'w Controller \<Rightarrow> string \<Rightarrow> Capabilities" where
  "CapabilitiesOf c environment = (case driverFor c environment of Inl _ \<Rightarrow> Capabilities0 | Inr d \<Rightarrow> dr_Capabilities d)"

definition needsGateway :: "Map \<Rightarrow> bool" where
  "needsGateway m \<longleftrightarrow> mp_Mode m \<noteq> EgressOpen \<or> mp_Deny m \<noteq> [] \<or> mp_Entries m \<noteq> [] \<or> mp_NotInjectable m \<noteq> []"

definition needsGatewayFor :: "SandboxSpec \<Rightarrow> bool" where
  "needsGatewayFor spec \<longleftrightarrow>
     eg_Mode (nw_Egress (sp_Network spec)) \<noteq> EgressOpen \<or> eg_DeniedHosts (nw_Egress (sp_Network spec)) \<noteq> [] \<or> sp_Secrets spec \<noteq> []"

definition sandboxEnvironment :: "'w Controller \<Rightarrow> Sandbox \<Rightarrow> string" where
  "sandboxEnvironment c obj =
     (if st_Environment (sb_Status obj) \<noteq> [] then st_Environment (sb_Status obj)
      else if sp_Environment (sb_Spec obj) \<noteq> [] then sp_Environment (sb_Spec obj) else co_environment c)"

definition localHolds :: "Capabilities \<Rightarrow> EgressMode \<Rightarrow> nat \<Rightarrow> bool" where
  "localHolds caps mode denied =
     (if mode = EgressNone \<or> mode = EgressAllowlist then denied = 0
      else if mode = EgressOpen then EgressOpen \<in> set (cp_Egress caps) else False)"

definition driverEnforced :: "'w Controller \<Rightarrow> string \<Rightarrow> SandboxSpec \<Rightarrow> bool" where
  "driverEnforced c environment spec =
     (let caps = CapabilitiesOf c environment; e = nw_Egress (sp_Network spec)
      in if environment = co_environment c \<or> \<not> cp_EgressLocal caps \<or> sp_Secrets spec \<noteq> [] then False
         else localHolds caps (eg_Mode e) (length (eg_DeniedHosts e)))"

definition gatewayHolds :: "'w Controller \<Rightarrow> string \<Rightarrow> bool" where
  "gatewayHolds c environment \<longleftrightarrow>
     environment = co_environment c
     \<and> (case co_egress c of None \<Rightarrow> False | Some hub \<Rightarrow> gh_Connected hub (co_world c) > 0)"

definition needsGatewayOn :: "'w Controller \<Rightarrow> string \<Rightarrow> SandboxSpec \<Rightarrow> bool" where
  "needsGatewayOn c environment spec \<longleftrightarrow> needsGatewayFor spec \<and> \<not> driverEnforced c environment spec"

definition gatewayGraceHolds :: "'w Controller \<Rightarrow> cerr \<Rightarrow> bool" where
  "gatewayGraceHolds c e \<longleftrightarrow>
     errors_Is e ErrNoGateway
     \<and> (case co_egress c of None \<Rightarrow> False | Some hub \<Rightarrow> gh_Connected hub (co_world c) = 0)
     \<and> co_gatewayGrace c > 0 \<and> time_Sub (co_wall c (co_world c)) (co_opened c) < co_gatewayGrace c"

section \<open>The push\<close>

text \<open>The push answers its error and what the compile produced, which is none where the compile failed.\<close>

definition pushEgress :: "'w Controller \<Rightarrow> Sandbox \<Rightarrow> cerr option \<times> compiled option \<times> Sandbox \<times> 'w Controller" where
  "pushEgress c obj =
     (case compileEgress c obj of
        (Inl e, obj1, c1) \<Rightarrow> (Some e, None, obj1, c1)
      | (Inr b, obj1, c1) \<Rightarrow>
          (let environment = sandboxEnvironment c1 obj1
           in if environment \<noteq> co_environment c1
              then (if needsGateway (bd_Map b) \<and> \<not> driverEnforced c1 environment (sb_Spec obj1)
                    then Some ErrNoGateway else None, Some b, obj1, c1)
              else case co_egress c1 of
                     None \<Rightarrow> (if needsGateway (bd_Map b) then Some ErrNoGateway else None, Some b, obj1, c1)
                   | Some hub \<Rightarrow>
                       (case gh_Send hub (bd_Map b) (co_world c1) of
                          (Some e, w) \<Rightarrow>
                            (if needsGateway (bd_Map b) then Some e else None, Some b, obj1, c1\<lparr>co_world := w\<rparr>)
                        | (None, w) \<Rightarrow> (None, Some (b\<lparr>bd_Held := True\<rparr>), obj1, c1\<lparr>co_world := w\<rparr>))))"

definition purgeEgress :: "'w Controller \<Rightarrow> string \<Rightarrow> 'w Controller" where
  "purgeEgress c vid =
     (case co_egress c of
        None \<Rightarrow> c
      | Some hub \<Rightarrow> c\<lparr>co_world := gh_Purge hub (Principal vid) (co_world c)\<rparr>)"

definition egressSpec :: "'w Controller \<Rightarrow> string \<Rightarrow> Map \<Rightarrow> DriverEgress" where
  "egressSpec c environment m =
     (if environment \<noteq> co_environment c
      then DriverEgress0\<lparr>de_Mode := mp_Mode m, de_AllowedHosts := mp_Allow m, de_DeniedHosts := mp_Deny m\<rparr>
      else \<lparr>de_Mode = mp_Mode m, de_AllowedHosts = mp_Allow m, de_DeniedHosts = mp_Deny m,
            de_ProxyAddr = ga_Proxy (co_gateway c), de_ReverseAddr = ga_Reverse (co_gateway c),
            de_Credential = mp_Credential m,
            de_CAPEM = (case co_egress c of None \<Rightarrow> [] | Some hub \<Rightarrow> gh_CA hub (co_world c))\<rparr>)"

definition ConditionEgressEnforced :: string where "ConditionEgressEnforced = ''EgressEnforced''"
definition ReasonEnforced :: string where "ReasonEnforced = ''Enforced''"
definition ReasonNotEnforcedByDriver :: string where "ReasonNotEnforcedByDriver = ''NotEnforcedByDriver''"
definition ReasonDriverEnforced :: string where "ReasonDriverEnforced = ''DriverEnforced''"
definition ReasonNoGateway :: string where "ReasonNoGateway = ''NoGateway''"

definition egressCondition :: "'w Controller \<Rightarrow> string \<Rightarrow> Map \<Rightarrow> bool \<Rightarrow> gotime \<Rightarrow> Condition" where
  "egressCondition c environment m held now =
     (let caps = CapabilitiesOf c environment;
          cond = \<lparr>cd_Type = ConditionEgressEnforced, cd_Status = ConditionTrue, cd_Reason = ReasonEnforced, cd_Message = [],
                  cd_Since = now\<rparr>
      in if mp_Mode m \<notin> set (cp_Egress caps)
         then cond\<lparr>cd_Status := ConditionFalse, cd_Reason := ReasonNotEnforcedByDriver,
                   cd_Message := ''This environment records the boundary and does not confine the workload to it.''\<rparr>
         else if environment \<noteq> co_environment c \<and> cp_EgressLocal caps \<and> localHolds caps (mp_Mode m) (length (mp_Deny m))
                 \<and> mp_Entries m = [] \<and> mp_NotInjectable m = []
         then cond\<lparr>cd_Reason := ReasonDriverEnforced\<rparr>
         else if \<not> held
         then cond\<lparr>cd_Status := ConditionFalse, cd_Reason := ReasonNoGateway,
                   cd_Message := ''No gateway of this environment holds the sandbox's map.''\<rparr>
         else cond)"

section \<open>An update of a sandbox that exists\<close>

definition undriven :: "Sandbox \<Rightarrow> bool" where
  "undriven obj \<longleftrightarrow> phase_of obj \<in> {PhaseQueued, PhaseLost, PhaseRecovering, PhaseDeleting} \<or> placed obj"

definition carryEnv :: "'w Controller \<Rightarrow> Sandbox \<Rightarrow> strmap \<Rightarrow> cerr option \<times> Sandbox \<times> 'w Controller" where
  "carryEnv c obj secrets =
     (let env = withSecretEnv (sp_Env (sb_Spec obj)) secrets; digest = envDigest env
      in case st_EgressState (sb_Status obj) of
           None \<Rightarrow> (None, obj, c)
         | Some state \<Rightarrow>
             if es_EnvDigest state = digest \<or> undriven obj then (None, obj, c)
             else case driverFor c (st_Environment (sb_Status obj)) of
                    Inl e \<Rightarrow> (Some e, obj, c)
                  | Inr d \<Rightarrow>
                      (case dr_Update d (st_ID (sb_Status obj)) (Change0\<lparr>ch_Env := Some env\<rparr>) (co_world c) of
                         (Some e, w) \<Rightarrow> (if errors_Is e DriverNotFound then None else Some e, obj, c\<lparr>co_world := w\<rparr>)
                       | (None, w) \<Rightarrow> (None, with_egress_state (Some (state\<lparr>es_EnvDigest := digest\<rparr>)) obj, c\<lparr>co_world := w\<rparr>)))"

definition sameBoundary :: "SandboxSpec \<Rightarrow> SandboxSpec \<Rightarrow> bool" where
  "sameBoundary a b \<longleftrightarrow>
     (let x = nw_Egress (sp_Network a); y = nw_Egress (sp_Network b)
      in eg_Mode x = eg_Mode y \<and> eg_AllowedHosts x = eg_AllowedHosts y \<and> eg_DeniedHosts x = eg_DeniedHosts y
         \<and> sp_Secrets a = sp_Secrets b)"

definition carryBoundary :: "'w Controller \<Rightarrow> Sandbox \<Rightarrow> Sandbox \<Rightarrow> Map \<Rightarrow> cerr option \<times> 'w Controller" where
  "carryBoundary c held obj m =
     (if \<not> cp_EgressLocal (CapabilitiesOf c (st_Environment (sb_Status obj))) \<or> sameBoundary (sb_Spec held) (sb_Spec obj)
         \<or> undriven obj
      then (None, c)
      else case driverFor c (st_Environment (sb_Status obj)) of
             Inl e \<Rightarrow> (Some e, c)
           | Inr d \<Rightarrow>
               (case dr_Update d (st_ID (sb_Status obj))
                       (Change0\<lparr>ch_Egress := Some (egressSpec c (st_Environment (sb_Status obj)) m)\<rparr>) (co_world c) of
                  (Some e, w) \<Rightarrow> (if errors_Is e DriverNotFound then None else Some e, c\<lparr>co_world := w\<rparr>)
                | (None, w) \<Rightarrow> (None, c\<lparr>co_world := w\<rparr>)))"

text \<open>The object held shares its record of the boundary with the row of the collection, so the number it is
  given is the row's.\<close>

definition with_version :: "int \<Rightarrow> Sandbox \<Rightarrow> Sandbox" where
  "with_version n obj =
     (case st_EgressState (sb_Status obj) of
        None \<Rightarrow> obj
      | Some s \<Rightarrow> with_egress_state (Some (s\<lparr>es_Version := n\<rparr>)) obj)"

definition restoreEgress :: "'w Controller \<Rightarrow> Sandbox \<Rightarrow> Sandbox \<Rightarrow> cerr \<Rightarrow> cerr \<times> 'w Controller" where
  "restoreEgress c held failed e =
     (let previous = (case (st_EgressState (sb_Status held), st_EgressState (sb_Status failed)) of
                        (Some s, Some f) \<Rightarrow> with_version (max (es_Version s) (es_Version f)) held
                      | _ \<Rightarrow> held)
      in case pushEgress c previous of
           (restore, _, previous', c1) \<Rightarrow>
             (let vid = st_ID (sb_Status held);
                  c2 = (case (st_EgressState (sb_Status previous'), map_of (co_objects c1) vid) of
                          (Some s, Some row) \<Rightarrow> c1\<lparr>co_objects := AList.update vid (with_version (es_Version s) row) (co_objects c1)\<rparr>
                        | _ \<Rightarrow> c1)
              in (case restore of None \<Rightarrow> e | Some r \<Rightarrow> ErrJoin [e, r], c2)))"

section \<open>A gateway that connects\<close>

definition live_here :: "'w Controller \<Rightarrow> Sandbox \<Rightarrow> bool" where
  "live_here c obj \<longleftrightarrow> phase_of obj \<noteq> PhaseDeleting \<and> sandboxEnvironment c obj = co_environment c"

fun maps_of :: "'w Controller \<Rightarrow> Sandbox list \<Rightarrow> Map list \<times> 'w Controller" where
  "maps_of c [] = ([], c)"
| "maps_of c (obj # objs) =
     (case secretViews c obj of
        ((views, _, _), sb, c1) \<Rightarrow>
          (case maps_of c1 objs of
             (ms, c2) \<Rightarrow> (case Compile (co_isPlaceholder c) sb views of Inl _ \<Rightarrow> (ms, c2) | Inr m \<Rightarrow> (m # ms, c2))))"

definition EgressMaps :: "'w Controller \<Rightarrow> Map list \<times> 'w Controller" where
  "EgressMaps c =
     (case maps_of c (filter (live_here c) (map snd (co_objects c))) of
        (ms, c1) \<Rightarrow> (sort_func (\<lambda>a b. go_compare (mp_Principal a) (mp_Principal b)) ms, c1))"

end
