(* ===== verification/Sandbox_Delete.thy ===== *)
theory Sandbox_Delete
  imports Spawn_Tree Tokens_Control Volumes_Control Egress_Control
begin

text \<open>
  The end of a sandbox (\<^verbatim>\<open>controller/controller.go\<close>, \<^verbatim>\<open>deleteOne\<close>, \<^verbatim>\<open>forgetOne\<close>, \<^verbatim>\<open>cascade\<close> and \<^verbatim>\<open>Act\<close>; the deletes
  of \<^verbatim>\<open>controller/reaper.go\<close>; \<^verbatim>\<open>dropLocked\<close> of \<^verbatim>\<open>controller/environment.go\<close>). A delete ends the tree below a
  sandbox first, so that whichever call fails no sandbox outlives its parent, and drops a row only once
  the driver has nothing left under its id.
\<close>

section \<open>The operations\<close>

definition ReasonEnvironmentDeleted :: string where "ReasonEnvironmentDeleted = ''EnvironmentDeleted''"

definition forgetTouch :: "'w Controller \<Rightarrow> string \<Rightarrow> 'w Controller" where
  "forgetTouch c vid = c\<lparr>co_touched := AList.delete vid (co_touched c)\<rparr>"

definition forgetLost :: "'w Controller \<Rightarrow> string \<Rightarrow> 'w Controller" where
  "forgetLost c vid =
     c\<lparr>co_lost := AList.delete vid (co_lost c), co_retry := AList.delete vid (co_retry c),
       co_attempts := AList.delete vid (co_attempts c)\<rparr>"

definition forget_spawns :: "'w Controller \<Rightarrow> string \<Rightarrow> cerr option \<times> 'w Controller" where
  "forget_spawns c vid =
     (case so_Spawner (co_store c) of
        None \<Rightarrow> (None, c)
      | Some sp \<Rightarrow> (case sn_ForgetSpawns sp vid (co_world c) of (e, w) \<Rightarrow> (e, c\<lparr>co_world := w\<rparr>)))"

definition forgetOne :: "'w Controller \<Rightarrow> Sandbox \<Rightarrow> cerr option \<times> 'w Controller" where
  "forgetOne c obj =
     (let vid = st_ID (sb_Status obj); c1 = purgeEgress (forgetLost (forgetTouch c vid) vid) vid;
          (revoked, c2) = revokeToken c1 (st_TokenState (sb_Status obj));
          (forgotten, c3) = forget_spawns c2 vid
      in case forget c3 vid MutationDeleted of
           (Some e, c4) \<Rightarrow> (errors_Join [revoked, forgotten, Some e], c4)
         | (None, c4) \<Rightarrow> (errors_Join [revoked, forgotten], releaseVolumesLocked c4 obj))"

definition deleteOne :: "'w Controller \<Rightarrow> Sandbox \<Rightarrow> cerr option \<times> 'w Controller" where
  "deleteOne c obj =
     (case driverFor c (st_Environment (sb_Status obj)) of
        Inl e \<Rightarrow> (Some e, c)
      | Inr d \<Rightarrow>
          (case dr_Delete d (st_ID (sb_Status obj)) (co_world c) of
             (Some e, w) \<Rightarrow> if errors_Is e DriverNotFound then forgetOne (c\<lparr>co_world := w\<rparr>) obj else (Some e, c\<lparr>co_world := w\<rparr>)
           | (None, w) \<Rightarrow> forgetOne (c\<lparr>co_world := w\<rparr>) obj))"

fun cascade_each :: "'w Controller \<Rightarrow> Sandbox list \<Rightarrow> cerr option \<times> 'w Controller" where
  "cascade_each c [] = (None, c)"
| "cascade_each c (child # rest) =
     (let child' = with_reason ReasonParent (with_phase PhaseDeleting child)
      in case persist c child' MutationDeleting of
           (Some e, c1) \<Rightarrow> (Some e, c1)
         | (None, c1) \<Rightarrow>
             (case deleteOne c1 child' of (Some e, c2) \<Rightarrow> (Some e, c2) | (None, c2) \<Rightarrow> cascade_each c2 rest))"

definition cascade :: "'w Controller \<Rightarrow> string \<Rightarrow> cerr option \<times> 'w Controller" where
  "cascade c vid = cascade_each c (descendants c vid)"

text \<open>The delete of one tree: what lies below first, then the intent, then the sandbox itself.\<close>

definition delete_tree :: "'w Controller \<Rightarrow> Sandbox \<Rightarrow> cerr option \<times> 'w Controller" where
  "delete_tree c intent =
     (case cascade c (st_ID (sb_Status intent)) of
        (Some e, c1) \<Rightarrow> (Some e, c1)
      | (None, c1) \<Rightarrow>
          (case persist c1 intent MutationDeleting of
             (Some e, c2) \<Rightarrow> (Some e, c2)
           | (None, c2) \<Rightarrow> deleteOne c2 intent))"

definition isMoving :: "'w Controller \<Rightarrow> string \<Rightarrow> bool" where
  "isMoving c vid \<longleftrightarrow> map_of (co_moving c) vid \<noteq> None"

definition creating :: "'w Controller \<Rightarrow> Sandbox \<Rightarrow> bool" where
  "creating c obj \<longleftrightarrow> st_ID (sb_Status obj) \<in> set (co_realizing c) \<or> isMoving c (st_ID (sb_Status obj)) \<or> placed obj"

definition act_stop :: "'w Controller \<Rightarrow> 'w Driver \<Rightarrow> Sandbox \<Rightarrow> (cerr + Sandbox) \<times> 'w Controller" where
  "act_stop c d obj =
     (if creating c obj then (Inl ErrPhase, c)
      else case refresh c obj of
             (Inl e, c1) \<Rightarrow> (Inl e, c1)
           | (Inr obj1, c1) \<Rightarrow>
               if phase_of obj1 \<noteq> Running then (Inl ErrPhase, c1)
               else (case dr_Stop d (st_ID (sb_Status obj)) (co_world c1) of
                       (Some e, w) \<Rightarrow> (Inl e, c1\<lparr>co_world := w\<rparr>)
                     | (None, w) \<Rightarrow>
                         (case refresh (c1\<lparr>co_world := w\<rparr>) obj1 of
                            (Inl e, c2) \<Rightarrow> (Inl e, c2)
                          | (Inr obj2, c2) \<Rightarrow>
                              (case persist c2 obj2 MutationStopped of
                                 (Some e, c3) \<Rightarrow> (Inl e, c3)
                               | (None, c3) \<Rightarrow> (Inr (export obj2), c3)))))"

definition Act :: "'w Controller \<Rightarrow> string \<Rightarrow> string \<Rightarrow> (cerr + Sandbox) \<times> 'w Controller" where
  "Act c vid verb =
     (if verb = ''start'' then (Inl ErrPhase, c)
      else case map_of (co_objects c) vid of
             None \<Rightarrow> (Inl cerr.ErrNotFound, c)
           | Some obj \<Rightarrow>
               (case driverFor c (st_Environment (sb_Status obj)) of
                  Inl e \<Rightarrow> (Inl e, c)
                | Inr d \<Rightarrow>
                    if verb = ''stop'' then act_stop c d obj
                    else if verb = ''delete''
                    then (case delete_tree c (with_phase PhaseDeleting obj) of
                            (Some e, c1) \<Rightarrow> (Inl e, c1)
                          | (None, c1) \<Rightarrow> (Inr (export (with_phase PhaseDeleting obj)), c1))
                    else (Inl ErrPhase, c)))"

text \<open>The deletes of the reaper: a deadline's, and the end of one that was cut short.\<close>

definition deleteLocked :: "'w Controller \<Rightarrow> string \<Rightarrow> string \<Rightarrow> string \<Rightarrow> cerr option \<times> 'w Controller" where
  "deleteLocked c environment vid reason =
     (case map_of (co_objects c) vid of
        Some obj \<Rightarrow> delete_tree c (with_reason reason (with_phase PhaseDeleting obj))
      | None \<Rightarrow>
          (case driverFor c environment of
             Inl e \<Rightarrow> (Some e, c)
           | Inr d \<Rightarrow>
               (case dr_Delete d vid (co_world c) of
                  (Some e, w) \<Rightarrow>
                    if errors_Is e DriverNotFound then (None, forgetLost (forgetTouch (c\<lparr>co_world := w\<rparr>) vid) vid)
                    else (Some e, c\<lparr>co_world := w\<rparr>)
                | (None, w) \<Rightarrow> (None, forgetLost (forgetTouch (c\<lparr>co_world := w\<rparr>) vid) vid))))"

definition finishDelete :: "'w Controller \<Rightarrow> string \<Rightarrow> cerr option \<times> bool \<times> 'w Controller" where
  "finishDelete c vid =
     (case map_of (co_objects c) vid of
        None \<Rightarrow> (None, False, c)
      | Some obj \<Rightarrow>
          if vid \<in> set (co_realizing c) \<or> isMoving c vid \<or> phase_of obj \<noteq> PhaseDeleting then (None, False, c)
          else case cascade c vid of
                 (Some e, c1) \<Rightarrow> (Some e, False, c1)
               | (None, c1) \<Rightarrow> (case deleteOne c1 obj of (e, c2) \<Rightarrow> (e, True, c2)))"

definition dropLocked :: "'w Controller \<Rightarrow> Sandbox \<Rightarrow> cerr option \<times> 'w Controller" where
  "dropLocked c obj =
     (let intent = with_reason ReasonEnvironmentDeleted (with_phase PhaseDeleting obj)
      in case persist c intent MutationDeleting of
           (Some e, c1) \<Rightarrow> (Some e, c1)
         | (None, c1) \<Rightarrow> forgetOne c1 intent)"

end
