(* ===== verification/Delete_Facts.thy ===== *)
theory Delete_Facts
  imports Sandbox_Delete
begin

text \<open>
  What a delete keeps, whichever of its calls fails: every row it drops is one whose driver object is gone,
  every row it leaves has its parent, and no other row moves.
\<close>

section \<open>The world a delete acts on\<close>

text \<open>What a world shows of workloads: the sandboxes that have a driver object, with their environment. A delete
  a driver answers with nil or not found leaves none under that id, and takes no other up; the calls a
  delete makes beside it start nothing.\<close>

definition workload_world :: "('w \<Rightarrow> (string \<times> string) set) \<Rightarrow> 'w Controller \<Rightarrow> bool" where
  "workload_world obs c \<longleftrightarrow>
     store_keeps obs (co_store c)
     \<and> (\<forall>env d vid w e w'. driverFor c env = Inr d \<longrightarrow> dr_Delete d vid w = (e, w') \<longrightarrow>
          obs w' \<subseteq> obs w \<and> (case e of None \<Rightarrow> (env, vid) \<notin> obs w' | Some e' \<Rightarrow> errors_Is e' DriverNotFound \<longrightarrow> (env, vid) \<notin> obs w'))
     \<and> (\<forall>t jti till w. co_tokens c = Some t \<longrightarrow> obs (snd (ts_Revoke t jti till w)) = obs w)
     \<and> (\<forall>sp vid w. so_Spawner (co_store c) = Some sp \<longrightarrow> obs (snd (sn_ForgetSpawns sp vid w)) = obs w)
     \<and> (\<forall>hub p w. co_egress c = Some hub \<longrightarrow> obs (gh_Purge hub p w) = obs w)
     \<and> (\<forall>vl act w. co_volumes c = Some vl \<longrightarrow> obs (snd (vl_WriteVolume vl act w)) = obs w)"

lemma workload_worldD:
  assumes "workload_world obs c"
  shows "store_keeps obs (co_store c)"
    "driverFor c env = Inr d \<Longrightarrow> dr_Delete d vid w = (e, w') \<Longrightarrow> obs w' \<subseteq> obs w"
    "driverFor c env = Inr d \<Longrightarrow> dr_Delete d vid w = (None, w') \<Longrightarrow> (env, vid) \<notin> obs w'"
    "driverFor c env = Inr d \<Longrightarrow> dr_Delete d vid w = (Some e', w') \<Longrightarrow> errors_Is e' DriverNotFound \<Longrightarrow> (env, vid) \<notin> obs w'"
    "co_tokens c = Some t \<Longrightarrow> obs (snd (ts_Revoke t jti till w)) = obs w"
    "so_Spawner (co_store c) = Some sp \<Longrightarrow> obs (snd (sn_ForgetSpawns sp vid w)) = obs w"
    "co_egress c = Some hub \<Longrightarrow> obs (gh_Purge hub p w) = obs w"
    "co_volumes c = Some vl \<Longrightarrow> obs (snd (vl_WriteVolume vl act w)) = obs w"
  using assms unfolding workload_world_def by (fastforce split: option.splits)+

lemma workload_world_config: "config c' = config c \<Longrightarrow> workload_world obs c' = workload_world obs c"
  using config_fields [of c' c] config_lookups [of c' c] by (simp add: workload_world_def)

section \<open>What the calls beside the driver's leave alone\<close>

text \<open>A step that changes nothing of the objects, the configuration and the workloads.\<close>

definition beside :: "('w \<Rightarrow> 'o) \<Rightarrow> 'w Controller \<Rightarrow> 'w Controller \<Rightarrow> bool" where
  "beside obs c c' \<longleftrightarrow> co_objects c' = co_objects c \<and> config c' = config c \<and> obs (co_world c') = obs (co_world c)"

lemma beside_refl [simp]: "beside obs c c"
  by (simp add: beside_def)

lemma beside_trans: "beside obs a b \<Longrightarrow> beside obs b c \<Longrightarrow> beside obs a c"
  by (simp add: beside_def)

lemma beside_world: "workload_world obs c \<Longrightarrow> beside obs c c' \<Longrightarrow> workload_world obs c'"
  using workload_world_config by (auto simp: beside_def)

lemma beside_bookkeeping [simp]: "beside obs c (forgetTouch c vid)" "beside obs c (forgetLost c vid)" "beside obs c (wakeVolumes c)"
  by (simp_all add: beside_def forgetTouch_def forgetLost_def wakeVolumes_def config_def)

lemma purgeEgress_beside: "workload_world obs c \<Longrightarrow> beside obs c (purgeEgress c vid)"
  by (auto simp: beside_def purgeEgress_def workload_worldD split: option.splits)

lemma revokeToken_beside:
  assumes "workload_world obs c"
  shows "beside obs c (snd (revokeToken c st))"
proof (cases "\<exists>t s. co_tokens c = Some t \<and> st = Some s \<and> tk_JTI s \<noteq> []")
  case True
  then obtain t s where ts: "co_tokens c = Some t" "st = Some s" "tk_JTI s \<noteq> []" by blast
  have "obs (snd (ts_Revoke t (tk_JTI s) (tk_ExpiresAt s) (co_world c))) = obs (co_world c)"
    by (rule workload_worldD(5) [OF assms ts(1)])
  with ts show ?thesis
    by (cases "ts_Revoke t (tk_JTI s) (tk_ExpiresAt s) (co_world c)") (simp add: beside_def revokeToken_def)
next
  case False
  then show ?thesis by (auto simp: revokeToken_def split: option.splits)
qed

lemma forget_spawns_beside:
  assumes "workload_world obs c"
  shows "beside obs c (snd (forget_spawns c vid))"
proof (cases "so_Spawner (co_store c)")
  case (Some sp)
  then have "obs (snd (sn_ForgetSpawns sp vid (co_world c))) = obs (co_world c)"
    by (rule workload_worldD(6) [OF assms])
  with Some show ?thesis by (cases "sn_ForgetSpawns sp vid (co_world c)") (simp add: beside_def forget_spawns_def)
qed (simp add: forget_spawns_def)

lemma persistVolume_beside:
  assumes "workload_world obs c"
  shows "beside obs c (snd (persistVolume c act))"
proof (cases "co_volumes c")
  case (Some vl)
  then have "obs (snd (vl_WriteVolume vl a (co_world c))) = obs (co_world c)" for a
    by (rule workload_worldD(8) [OF assms])
  with Some show ?thesis
    by (auto simp: beside_def persistVolume_def Let_def config_def split: prod.splits option.splits) (metis snd_conv)+
qed (simp add: persistVolume_def)

lemma record_each_beside: "workload_world obs c \<Longrightarrow> beside obs c (record_each c obj m as)"
proof (induction as arbitrary: c)
  case (Cons a as)
  show ?case
  proof (cases "map_of (co_volumeObjects c) (va_Volume a)")
    case None
    then show ?thesis using Cons by simp
  next
    case (Some vol)
    let ?act = "\<lparr>ac_Type = m, ac_Object = vol, ac_Sandbox = Some obj,
      ac_Mode = if mountReadOnly obj (va_Name a) then VolumeModeReadOnly else VolumeModeReadWrite\<rparr>"
    have "beside obs c (snd (persistVolume c ?act))" by (rule persistVolume_beside [OF Cons.prems])
    from beside_trans [OF this Cons.IH [OF beside_world [OF Cons.prems this]]]
    show ?thesis using Some by (simp add: Let_def)
  qed
qed simp

lemma release_each_beside: "workload_world obs c \<Longrightarrow> beside obs c (snd (release_each c woken as))"
proof (induction as arbitrary: c woken)
  case (Cons a as)
  show ?case
  proof (cases "map_of (co_volumeObjects c) (va_Volume a)")
    case None
    then show ?thesis using Cons by simp
  next
    case (Some vol)
    let ?p = "persistVolume c (volume_act MutationVolumeStatus (volume_phase VolumeDeleting (co_wall c (co_world c)) vol))"
    have "beside obs c (snd ?p)" by (rule persistVolume_beside [OF Cons.prems])
    moreover from this have "beside obs (snd ?p) (snd (release_each (snd ?p) b as))" for b
      using Cons.IH beside_world [OF Cons.prems] by blast
    ultimately show ?thesis
      using Some Cons.IH [OF Cons.prems] by (auto split: prod.splits option.splits intro: beside_trans)
  qed
qed simp

lemma releaseVolumesLocked_beside:
  assumes "workload_world obs c"
  shows "beside obs c (releaseVolumesLocked c obj)"
proof -
  let ?r = "recordAttachments c obj MutationVolumeDetached"
  have r: "beside obs c ?r" unfolding recordAttachments_def by (rule record_each_beside [OF assms])
  then have "beside obs c (snd (release_each ?r False (st_Volumes (sb_Status obj))))"
    by (rule beside_trans) (rule release_each_beside [OF beside_world [OF assms r]])
  then show ?thesis
    by (auto simp: releaseVolumesLocked_def split: prod.splits intro: beside_trans [OF _ beside_bookkeeping(3)])
qed

section \<open>What forgetting one row does\<close>

lemma forget_config [simp]: "config (snd (forget c vid m)) = config c"
  by (auto simp: forget_def Let_def config_def put_back_def wakeScheduler_def split: prod.splits option.splits)

lemma forget_nil: "forget c vid m = (None, c') \<Longrightarrow> map_of (co_objects c') = (map_of (co_objects c))(vid := None)"
  by (auto simp: forget_def Let_def wakeScheduler_def map_of_delete split: prod.splits option.splits if_splits)

lemma forget_err: "forget c vid m = (Some e, c') \<Longrightarrow> map_of (co_objects c') = map_of (co_objects c)"
  by (auto simp: forget_def Let_def put_back_def map_of_delete map_of_update fun_eq_iff
      split: prod.splits option.splits if_splits)

lemma list_all_delete: "list_all P m \<Longrightarrow> list_all P (AList.delete k m)"
  by (auto simp: list_all_iff AList.delete_eq)

lemma forget_objects_ok:
  assumes "objects_ok (co_objects c)"
  shows "objects_ok (co_objects (snd (forget c vid m)))"
proof -
  have "list_all P (co_objects c) \<Longrightarrow> map_of (co_objects c) vid = Some p \<Longrightarrow> P (vid, p)" for P p
    by (auto simp: list_all_iff dest: map_of_SomeD)
  then show ?thesis
    using assms
    by (auto simp: forget_def Let_def put_back_def wakeScheduler_def objects_ok_def map_ok_delete map_ok_update
        list_all_delete intro!: list_all_update split: prod.splits option.splits)
qed

text \<open>What the end of one row amounts to: no other row moves, the row itself stays or goes, it is gone where
  nil is answered, and no workload is taken up.\<close>

definition drops_one :: "('w \<Rightarrow> (string \<times> string) set) \<Rightarrow> string \<Rightarrow> 'w Controller \<Rightarrow> cerr option \<Rightarrow> 'w Controller \<Rightarrow> bool" where
  "drops_one obs vid c e c' \<longleftrightarrow>
     config c' = config c \<and> objects_ok (co_objects c') \<and> obs (co_world c') \<subseteq> obs (co_world c)
     \<and> (\<forall>y. y \<noteq> vid \<longrightarrow> map_of (co_objects c') y = map_of (co_objects c) y)
     \<and> (map_of (co_objects c') vid = map_of (co_objects c) vid \<or> map_of (co_objects c') vid = None)
     \<and> (e = None \<longrightarrow> map_of (co_objects c') vid = None)"

lemma drops_oneD:
  assumes "drops_one obs vid c e c'"
  shows "config c' = config c" and "objects_ok (co_objects c')" and "obs (co_world c') \<subseteq> obs (co_world c)"
    and "map_of (co_objects c') y = map_of (co_objects c) y \<or> y = vid \<and> map_of (co_objects c') y = None"
    and "e = None \<Longrightarrow> map_of (co_objects c') vid = None"
  using assms by (cases "y = vid"; simp add: drops_one_def; fail)+

lemma forgetOne_drops:
  assumes "workload_world obs c" and "objects_ok (co_objects c)" and "forgetOne c obj = (e, c')"
  shows "drops_one obs (id_of obj) c e c' \<and> obs (co_world c') = obs (co_world c)"
proof -
  define vid where "vid = st_ID (sb_Status obj)"
  define c1 where "c1 = purgeEgress (forgetLost (forgetTouch c vid) vid) vid"
  obtain revoked c2 where c2: "revokeToken c1 (st_TokenState (sb_Status obj)) = (revoked, c2)" by (cases "revokeToken c1 (st_TokenState (sb_Status obj))")
  obtain forgotten c3 where c3: "forget_spawns c2 vid = (forgotten, c3)" by (cases "forget_spawns c2 vid")
  obtain e4 c4 where c4: "forget c3 vid MutationDeleted = (e4, c4)" by (cases "forget c3 vid MutationDeleted")
  have b0: "beside obs c (forgetLost (forgetTouch c vid) vid)" by (blast intro: beside_trans beside_bookkeeping)
  have b1: "beside obs c c1"
    unfolding c1_def by (rule beside_trans [OF b0 purgeEgress_beside [OF beside_world [OF assms(1) b0]]])
  have b2: "beside obs c c2"
    using beside_trans [OF b1 revokeToken_beside [OF beside_world [OF assms(1) b1]]] c2 by (metis snd_conv)
  have b3: "beside obs c c3"
    using beside_trans [OF b2 forget_spawns_beside [OF beside_world [OF assms(1) b2]]] c3 by (metis snd_conv)
  have w3: "workload_world obs c3" by (rule beside_world [OF assms(1) b3])
  have k: "config c4 = config c3" "objects_ok (co_objects c4)" "obs (co_world c4) = obs (co_world c3)"
    using forget_config [of c3 vid MutationDeleted] forget_objects_ok [of c3 vid MutationDeleted]
      forget_obs [OF workload_worldD(1) [OF w3], of vid MutationDeleted] assms(2) b3
    by (simp_all add: c4 beside_def)
  have w4: "workload_world obs c4" using w3 workload_world_config [OF k(1)] by simp
  note step = assms(3) [unfolded forgetOne_def, folded vid_def, unfolded Let_def, folded c1_def]
  show ?thesis
  proof (cases e4)
    case None
    then have "c' = releaseVolumesLocked c4 obj" using step by (simp add: c2 c3 c4)
    then have "beside obs c4 c'" using releaseVolumesLocked_beside [OF w4] by simp
    then show ?thesis
      using forget_nil [of c3 vid MutationDeleted c4] None c4 k b3 by (simp add: drops_one_def beside_def vid_def id_of_def)
  next
    case (Some e')
    then have "c' = c4" "e = errors_Join [revoked, forgotten, Some e']" using step by (simp_all add: c2 c3 c4)
    then show ?thesis
      using forget_err [of c3 vid MutationDeleted e' c4] Some c4 k b3
      by (simp add: drops_one_def beside_def vid_def id_of_def errors_Join_None)
  qed
qed

lemma deleteOne_drops:
  assumes "workload_world obs c" and "objects_ok (co_objects c)" and "deleteOne c obj = (e, c')"
  shows "drops_one obs (id_of obj) c e c'
    \<and> (map_of (co_objects c') (id_of obj) \<noteq> map_of (co_objects c) (id_of obj)
       \<longrightarrow> (st_Environment (sb_Status obj), id_of obj) \<notin> obs (co_world c'))"
proof (cases "driverFor c (st_Environment (sb_Status obj))")
  case (Inl a)
  then show ?thesis using assms(2,3) by (auto simp: deleteOne_def drops_one_def)
next
  case (Inr d)
  obtain e1 w where del: "dr_Delete d (id_of obj) (co_world c) = (e1, w)" by (cases "dr_Delete d (id_of obj) (co_world c)")
  have sub: "obs w \<subseteq> obs (co_world c)" by (rule workload_worldD(2) [OF assms(1) Inr del])
  have world: "workload_world obs (c\<lparr>co_world := w\<rparr>)" using assms(1) workload_world_config [of "c\<lparr>co_world := w\<rparr>" c] by simp
  show ?thesis
  proof (cases "e1 = None \<or> (\<exists>e'. e1 = Some e' \<and> errors_Is e' DriverNotFound)")
    case True
    then have "forgetOne (c\<lparr>co_world := w\<rparr>) obj = (e, c')"
      using assms(3) Inr del by (auto simp: deleteOne_def id_of_def)
    from forgetOne_drops [OF world _ this]
    have drops: "drops_one obs (id_of obj) (c\<lparr>co_world := w\<rparr>) e c'" and kept: "obs (co_world c') = obs w"
      using assms(2) by auto
    have "(st_Environment (sb_Status obj), id_of obj) \<notin> obs w"
      using True workload_worldD(3,4) [OF assms(1) Inr] del by auto
    with drops kept sub show ?thesis by (auto simp: drops_one_def)
  next
    case False
    then have "e = e1" "c' = c\<lparr>co_world := w\<rparr>" "e1 \<noteq> None"
      using assms(3) Inr del by (auto simp: deleteOne_def id_of_def split: option.splits)
    with sub assms(2) show ?thesis by (auto simp: drops_one_def)
  qed
qed

section \<open>What a delete leaves behind\<close>

text \<open>Rows only go, and one that goes leaves no driver object; one that stays keeps its place in the tree.\<close>

definition same_place :: "Sandbox \<Rightarrow> Sandbox \<Rightarrow> bool" where
  "same_place a b \<longleftrightarrow> id_of a = id_of b \<and> parent_of a = parent_of b \<and> st_Environment (sb_Status a) = st_Environment (sb_Status b)"

lemma same_place_intent [simp]:
  "same_place obj obj" "same_place (with_phase p obj) obj" "same_place (with_reason r (with_phase p obj)) obj"
  by (simp_all add: same_place_def id_of_def parent_of_def with_phase_def with_reason_def)

definition ended :: "('w \<Rightarrow> (string \<times> string) set) \<Rightarrow> 'w Controller \<Rightarrow> 'w Controller \<Rightarrow> bool" where
  "ended obs c c' \<longleftrightarrow>
     config c' = config c \<and> objects_ok (co_objects c') \<and> obs (co_world c') \<subseteq> obs (co_world c)
     \<and> (\<forall>x. map_of (co_objects c) x = None \<longrightarrow> map_of (co_objects c') x = None)
     \<and> (\<forall>x obj. map_of (co_objects c) x = Some obj \<longrightarrow>
          (case map_of (co_objects c') x of
             Some obj' \<Rightarrow> same_place obj' obj
           | None \<Rightarrow> (st_Environment (sb_Status obj), x) \<notin> obs (co_world c')))"

lemma endedI:
  assumes "config c' = config c" and "objects_ok (co_objects c')" and "obs (co_world c') \<subseteq> obs (co_world c)"
    and "\<And>x. map_of (co_objects c) x = None \<Longrightarrow> map_of (co_objects c') x = None"
    and "\<And>x obj obj'. map_of (co_objects c) x = Some obj \<Longrightarrow> map_of (co_objects c') x = Some obj' \<Longrightarrow> same_place obj' obj"
    and "\<And>x obj. map_of (co_objects c) x = Some obj \<Longrightarrow> map_of (co_objects c') x = None
      \<Longrightarrow> (st_Environment (sb_Status obj), x) \<notin> obs (co_world c')"
  shows "ended obs c c'"
  using assms unfolding ended_def by (auto split: option.split)

lemma endedD:
  assumes "ended obs c c'"
  shows "config c' = config c" and "objects_ok (co_objects c')" and "obs (co_world c') \<subseteq> obs (co_world c)"
    and "map_of (co_objects c) x = None \<Longrightarrow> map_of (co_objects c') x = None"
    and "map_of (co_objects c) x = Some obj \<Longrightarrow> map_of (co_objects c') x = Some obj' \<Longrightarrow> same_place obj' obj"
    and "map_of (co_objects c) x = Some obj \<Longrightarrow> map_of (co_objects c') x = None
      \<Longrightarrow> (st_Environment (sb_Status obj), x) \<notin> obs (co_world c')"
proof -
  note e = assms [unfolded ended_def]
  show "config c' = config c" "objects_ok (co_objects c')" "obs (co_world c') \<subseteq> obs (co_world c)" using e by blast+
  show "map_of (co_objects c') x = None" if "map_of (co_objects c) x = None" using e that by blast
  have row: "case map_of (co_objects c') x of Some obj' \<Rightarrow> same_place obj' obj
      | None \<Rightarrow> (st_Environment (sb_Status obj), x) \<notin> obs (co_world c')" if "map_of (co_objects c) x = Some obj"
    using e that by blast
  show "same_place obj' obj" if "map_of (co_objects c) x = Some obj" "map_of (co_objects c') x = Some obj'"
    using row [OF that(1)] that(2) by simp
  show "(st_Environment (sb_Status obj), x) \<notin> obs (co_world c')"
    if "map_of (co_objects c) x = Some obj" "map_of (co_objects c') x = None"
    using row [OF that(1)] that(2) by simp
qed

lemma ended_refl: "objects_ok (co_objects c) \<Longrightarrow> ended obs c c"
  by (rule endedI) simp_all

lemma same_place_trans: "same_place a b \<Longrightarrow> same_place b c \<Longrightarrow> same_place a c"
  by (simp add: same_place_def)

lemma ended_trans:
  assumes "ended obs a b" and "ended obs b c"
  shows "ended obs a c"
proof (rule endedI)
  show "config c = config a" using endedD(1) [OF assms(1)] endedD(1) [OF assms(2)] by simp
  show "objects_ok (co_objects c)" by (rule endedD(2) [OF assms(2)])
  show "obs (co_world c) \<subseteq> obs (co_world a)" using endedD(3) [OF assms(1)] endedD(3) [OF assms(2)] by blast
  show "map_of (co_objects c) x = None" if "map_of (co_objects a) x = None" for x
    by (rule endedD(4) [OF assms(2) endedD(4) [OF assms(1) that]])
  show "same_place obj' obj" if a: "map_of (co_objects a) x = Some obj" and c: "map_of (co_objects c) x = Some obj'" for x obj obj'
  proof (cases "map_of (co_objects b) x")
    case None
    then show ?thesis using endedD(4) [OF assms(2)] c by simp
  next
    case (Some obj1)
    from same_place_trans [OF endedD(5) [OF assms(2) Some c] endedD(5) [OF assms(1) a Some]] show ?thesis .
  qed
  show "(st_Environment (sb_Status obj), x) \<notin> obs (co_world c)"
    if a: "map_of (co_objects a) x = Some obj" and c: "map_of (co_objects c) x = None" for x obj
  proof (cases "map_of (co_objects b) x")
    case None
    then show ?thesis using endedD(6) [OF assms(1) a None] endedD(3) [OF assms(2)] by blast
  next
    case (Some obj1)
    then show ?thesis using endedD(6) [OF assms(2) Some c] endedD(5) [OF assms(1) a Some] by (simp add: same_place_def)
  qed
qed

lemma ended_world: "workload_world obs c \<Longrightarrow> ended obs c c' \<Longrightarrow> workload_world obs c'"
  using workload_world_config by (auto simp: ended_def)

lemma persist_map:
  assumes "persist c obj m = (e, c')"
  shows "map_of (co_objects c') = (if e = None then (map_of (co_objects c))(id_of obj \<mapsto> obj) else map_of (co_objects c))"
  using persist_nil [of c obj m c'] persist_err [of c obj m _ c'] assms
  by (cases e) (auto simp: map_of_update id_of_def)

lemma persist_ended:
  assumes "workload_world obs c" and "objects_ok (co_objects c)" and "persist c obj m = (e, c')"
    and "map_of (co_objects c) (id_of obj) = Some row" and "same_place obj row"
  shows "ended obs c c'"
proof -
  have "config c' = config c" "objects_ok (co_objects c')" "obs (co_world c') = obs (co_world c)"
    using persist_config [of c obj m] persist_objects_ok [OF assms(2), of obj m]
      persist_obs [OF workload_worldD(1) [OF assms(1)], of obj m] assms(3) by simp_all
  then show ?thesis
    using persist_map [OF assms(3)] assms(4,5) by (intro endedI) (auto split: if_splits)
qed

lemma deleteOne_ended:
  assumes "workload_world obs c" and "objects_ok (co_objects c)" and "deleteOne c obj = (e, c')"
    and "map_of (co_objects c) (id_of obj) = Some row" and "same_place obj row"
  shows "ended obs c c'"
proof -
  note d = deleteOne_drops [OF assms(1-3), THEN conjunct1] and gone = deleteOne_drops [OF assms(1-3), THEN conjunct2]
  have other: "map_of (co_objects c') x = map_of (co_objects c) x \<or> x = id_of obj \<and> map_of (co_objects c') x = None" for x
    by (rule drops_oneD(4) [OF d])
  show ?thesis
  proof (rule endedI [OF drops_oneD(1-3) [OF d]])
    show "same_place obj' obj1" if "map_of (co_objects c) x = Some obj1" "map_of (co_objects c') x = Some obj'" for x obj1 obj'
      using other [of x] that by auto
    show "(st_Environment (sb_Status obj1), x) \<notin> obs (co_world c')"
      if "map_of (co_objects c) x = Some obj1" "map_of (co_objects c') x = None" for x obj1
      using other [of x] that gone assms(4,5) by (auto simp: same_place_def)
    show "map_of (co_objects c') x = None" if "map_of (co_objects c) x = None" for x
      using other [of x] that by auto
  qed
qed

section \<open>No sandbox outlives its parent\<close>

definition rooted :: "(string \<rightharpoonup> Sandbox) \<Rightarrow> bool" where
  "rooted m \<longleftrightarrow> (\<forall>x obj. m x = Some obj \<longrightarrow> parent_of obj \<noteq> [] \<longrightarrow> m (parent_of obj) \<noteq> None)"

definition childless :: "(string \<rightharpoonup> Sandbox) \<Rightarrow> string \<Rightarrow> bool" where
  "childless m vid \<longleftrightarrow> (\<forall>y obj. m y = Some obj \<longrightarrow> parent_of obj \<noteq> [] \<longrightarrow> parent_of obj \<noteq> vid)"

lemma rooted_drop: "rooted m \<Longrightarrow> childless m vid \<Longrightarrow> rooted (m(vid := None))"
  by (auto simp: rooted_def childless_def)

lemma rooted_update: "rooted m \<Longrightarrow> m (id_of obj) = Some row \<Longrightarrow> same_place obj row \<Longrightarrow> rooted (m(id_of obj \<mapsto> obj))"
  by (auto simp: rooted_def same_place_def)

lemma childless_update: "childless m vid \<Longrightarrow> m (id_of obj) = Some row \<Longrightarrow> same_place obj row \<Longrightarrow> childless (m(id_of obj \<mapsto> obj)) vid"
  by (auto simp: childless_def same_place_def)

text \<open>A list of rows in which each has no child left when its turn comes.\<close>

primrec leaves_first :: "(string \<rightharpoonup> Sandbox) \<Rightarrow> Sandbox list \<Rightarrow> bool" where
  "leaves_first m [] = True"
| "leaves_first m (a # rest) \<longleftrightarrow> m (id_of a) = Some a \<and> childless m (id_of a) \<and> leaves_first (m(id_of a := None)) rest"

lemma leaves_firstI:
  assumes "\<And>a. a \<in> set ds \<Longrightarrow> m (id_of a) = Some a \<and> parent_of a \<noteq> id_of a"
    and "distinct (map id_of ds)" and "sorted_wrt (\<lambda>a b. parent_of b \<noteq> id_of a) ds"
    and "\<And>y obj a. m y = Some obj \<Longrightarrow> parent_of obj \<noteq> [] \<Longrightarrow> a \<in> set ds \<Longrightarrow> parent_of obj = id_of a \<Longrightarrow> y \<in> id_of ` set ds"
  shows "leaves_first m ds"
  using assms
proof (induction ds arbitrary: m)
  case (Cons a rest)
  have "childless m (id_of a)"
    unfolding childless_def
  proof (intro allI impI)
    fix y obj assume y: "m y = Some obj" "parent_of obj \<noteq> []"
    show "parent_of obj \<noteq> id_of a"
    proof
      assume p: "parent_of obj = id_of a"
      then obtain b where "b \<in> set (a # rest)" "y = id_of b" using Cons.prems(4) [OF y] by force
      moreover from this have "obj = b" using Cons.prems(1) [of b] y(1) by auto
      ultimately show False using Cons.prems(1) [of a] Cons.prems(3) p by auto
    qed
  qed
  moreover have "leaves_first (m(id_of a := None)) rest"
  proof (rule Cons.IH)
    show "y \<in> id_of ` set rest"
      if "(m(id_of a := None)) y = Some obj" "parent_of obj \<noteq> []" "b \<in> set rest" "parent_of obj = id_of b" for y obj b
      using Cons.prems(4) [of y obj b] that by (auto split: if_splits)
    show "(m(id_of a := None)) (id_of b) = Some b \<and> parent_of b \<noteq> id_of b" if "b \<in> set rest" for b
    proof -
      have "id_of b \<in> id_of ` set rest" using that by simp
      then have "id_of b \<noteq> id_of a" using Cons.prems(2) by auto
      then show ?thesis using Cons.prems(1) [of b] that by simp
    qed
    show "distinct (map id_of rest)" using Cons.prems(2) by simp
    show "sorted_wrt (\<lambda>a b. parent_of b \<noteq> id_of a) rest" using Cons.prems(3) by simp
  qed
  ultimately show ?case using Cons.prems(1) by simp
qed simp

lemma no_self_parent:
  assumes "objects_ok (co_objects c)" and "(vid, vid) \<notin> (child_rel (co_objects c))\<^sup>+" and "a \<in> set (descendants c vid)"
  shows "parent_of a \<noteq> id_of a"
proof
  assume "parent_of a = id_of a"
  have a: "(vid, id_of a) \<in> (child_rel (co_objects c))\<^sup>+" "map_of (co_objects c) (id_of a) = Some a"
    using assms(3) mem_descendants [OF assms(1)] by auto
  with \<open>parent_of a = id_of a\<close> have "(id_of a, id_of a) \<in> child_rel (co_objects c)" by (auto simp: child_rel_def elim: tranclE)
  from level_of_child [OF objects_okD(1) [OF assms(1)] assms(2) a(1) this] show False by simp
qed

lemma descendants_leaves_first:
  assumes "objects_ok (co_objects c)" and "(vid, vid) \<notin> (child_rel (co_objects c))\<^sup>+"
  shows "leaves_first (map_of (co_objects c)) (descendants c vid)"
proof (rule leaves_firstI [OF _ distinct_descendants [OF assms(1)] descendants_order [OF assms]])
  show "map_of (co_objects c) (id_of a) = Some a \<and> parent_of a \<noteq> id_of a" if "a \<in> set (descendants c vid)" for a
    using that mem_descendants [OF assms(1)] no_self_parent [OF assms] by auto
  show "y \<in> id_of ` set (descendants c vid)"
    if "map_of (co_objects c) y = Some obj" "parent_of obj \<noteq> []" "a \<in> set (descendants c vid)" "parent_of obj = id_of a" for y obj a
  proof -
    have "(id_of a, y) \<in> child_rel (co_objects c)" using that by (auto simp: child_rel_def)
    moreover have "(vid, id_of a) \<in> (child_rel (co_objects c))\<^sup>+" using that(3) mem_descendants [OF assms(1)] by auto
    ultimately show ?thesis using ids_descendants [OF assms(1), of vid] by (blast intro: trancl_into_trancl)
  qed
qed

section \<open>The cascade\<close>

abbreviation rows :: "'w Controller \<Rightarrow> string \<rightharpoonup> Sandbox" where "rows c \<equiv> map_of (co_objects c)"

text \<open>What a delete that begins at \<open>c\<close> and ends at \<open>c'\<close> keeps, with the rows it may touch.\<close>

definition delete_keeps :: "('w \<Rightarrow> (string \<times> string) set) \<Rightarrow> string set \<Rightarrow> 'w Controller \<Rightarrow> 'w Controller \<Rightarrow> bool" where
  "delete_keeps obs touched c c' \<longleftrightarrow>
     ended obs c c' \<and> (rooted (rows c) \<longrightarrow> rooted (rows c')) \<and> (\<forall>y. y \<notin> touched \<longrightarrow> rows c' y = rows c y)"

lemma delete_keeps_trans:
  assumes "delete_keeps obs A a b" and "delete_keeps obs B b c"
  shows "delete_keeps obs (A \<union> B) a c"
  using assms ended_trans [of obs a b c] by (simp add: delete_keeps_def)

lemma delete_keeps_mono: "delete_keeps obs A c c' \<Longrightarrow> A \<subseteq> B \<Longrightarrow> delete_keeps obs B c c'"
  by (auto simp: delete_keeps_def)

lemma persist_keeps:
  assumes "workload_world obs c" and "objects_ok (co_objects c)" and "persist c obj m = (e, c')"
    and "rows c (id_of obj) = Some row" and "same_place obj row"
  shows "delete_keeps obs {id_of obj} c c'"
  using persist_ended [OF assms] persist_map [OF assms(3)] rooted_update [of "rows c" obj row] assms(4,5)
  by (simp add: delete_keeps_def)

lemma deleteOne_keeps:
  assumes "workload_world obs c" and "objects_ok (co_objects c)" and "deleteOne c obj = (e, c')"
    and "rows c (id_of obj) = Some row" and "same_place obj row" and "childless (rows c) (id_of obj)"
  shows "delete_keeps obs {id_of obj} c c' \<and> (e = None \<longrightarrow> rows c' = (rows c)(id_of obj := None))"
proof -
  note d = deleteOne_drops [OF assms(1-3), THEN conjunct1]
  have "rows c' = rows c \<or> rows c' = (rows c)(id_of obj := None)"
    using drops_oneD(4) [OF d] by (auto simp: fun_eq_iff)
  moreover have "e = None \<longrightarrow> rows c' (id_of obj) = None" using drops_oneD(5) [OF d] by blast
  ultimately show ?thesis
    using deleteOne_ended [OF assms(1-5)] rooted_drop [OF _ assms(6)] assms(4) by (auto simp: delete_keeps_def)
qed

lemma intent_id [simp]: "id_of (with_reason r (with_phase p obj)) = id_of obj" "id_of (with_phase p obj) = id_of obj"
  by (simp_all add: id_of_def with_reason_def with_phase_def)

lemma cascade_each_keeps:
  assumes "workload_world obs c" and "objects_ok (co_objects c)" and "leaves_first (rows c) ds"
    and "cascade_each c ds = (e, c')"
  shows "delete_keeps obs (id_of ` set ds) c c' \<and> (e = None \<longrightarrow> (\<forall>a \<in> set ds. rows c' (id_of a) = None))"
  using assms
proof (induction ds arbitrary: c)
  case Nil
  then show ?case by (simp add: delete_keeps_def ended_refl)
next
  case (Cons a rest)
  let ?a = "with_reason ReasonParent (with_phase PhaseDeleting a)"
  have row: "rows c (id_of ?a) = Some a" and none: "childless (rows c) (id_of a)"
    and rest: "leaves_first ((rows c)(id_of a := None)) rest"
    using Cons.prems(3) by auto
  obtain e1 c1 where p: "persist c ?a MutationDeleting = (e1, c1)" by (cases "persist c ?a MutationDeleting")
  have k1: "delete_keeps obs {id_of a} c c1"
    using persist_keeps [OF Cons.prems(1,2) p row] by simp
  have w1: "workload_world obs c1" and ok1: "objects_ok (co_objects c1)"
    using ended_world [OF Cons.prems(1)] endedD(2) k1 by (auto simp: delete_keeps_def)
  show ?case
  proof (cases e1)
    case (Some e')
    then show ?thesis using Cons.prems(4) p delete_keeps_mono [OF k1, of "id_of ` set (a # rest)"] by (auto simp: Let_def)
  next
    case None
    then have rows1: "rows c1 = (rows c)(id_of a \<mapsto> ?a)" using persist_map [OF p] by simp
    obtain e2 c2 where d: "deleteOne c1 ?a = (e2, c2)" by (cases "deleteOne c1 ?a")
    have "childless (rows c1) (id_of ?a)" using childless_update [OF none row] rows1 by simp
    from deleteOne_keeps [OF w1 ok1 d _ _ this, of ?a] rows1
    have k2: "delete_keeps obs {id_of a} c1 c2" and gone: "e2 = None \<longrightarrow> rows c2 = (rows c)(id_of a := None)"
      by simp_all
    have k12: "delete_keeps obs {id_of a} c c2" using delete_keeps_trans [OF k1 k2] by simp
    have w2: "workload_world obs c2" and ok2: "objects_ok (co_objects c2)"
      using ended_world [OF Cons.prems(1)] endedD(2) k12 by (auto simp: delete_keeps_def)
    show ?thesis
    proof (cases e2)
      case (Some e')
      then show ?thesis
        using Cons.prems(4) p None d delete_keeps_mono [OF k12, of "id_of ` set (a # rest)"] by (auto simp: Let_def)
    next
      case none2: None
      then have "cascade_each c2 rest = (e, c')" using Cons.prems(4) p None d by (simp add: Let_def)
      moreover have "leaves_first (rows c2) rest" using rest gone none2 by metis
      ultimately have k3: "delete_keeps obs (id_of ` set rest) c2 c'"
        and all: "e = None \<longrightarrow> (\<forall>b \<in> set rest. rows c' (id_of b) = None)"
        using Cons.IH [OF w2 ok2] by blast+
      have "rows c' (id_of a) = None"
        using endedD(4) [of obs c2 c'] k3 gone none2 by (simp add: delete_keeps_def)
      with delete_keeps_trans [OF k12 k3] all show ?thesis by simp
    qed
  qed
qed

lemma cascade_keeps:
  assumes "workload_world obs c" and "objects_ok (co_objects c)" and "(vid, vid) \<notin> (child_rel (co_objects c))\<^sup>+"
    and "cascade c vid = (e, c')"
  shows "delete_keeps obs {x. (vid, x) \<in> (child_rel (co_objects c))\<^sup>+} c c'
    \<and> (e = None \<longrightarrow> (\<forall>x. (vid, x) \<in> (child_rel (co_objects c))\<^sup>+ \<longrightarrow> rows c' x = None))"
proof -
  note k = cascade_each_keeps [OF assms(1,2) descendants_leaves_first [OF assms(2,3)] assms(4) [unfolded cascade_def]]
  have "rows c' x = None" if "e = None" "x \<in> id_of ` set (descendants c vid)" for x
    using k that by (auto elim!: imageE)
  then show ?thesis using k ids_descendants [OF assms(2), of vid] by simp
qed

text \<open>What is left to do after a cascade that answered nil is the delete of one sandbox with no child.\<close>

lemma cascade_childless:
  assumes "workload_world obs c" and "objects_ok (co_objects c)" and "(vid, vid) \<notin> (child_rel (co_objects c))\<^sup>+"
    and "cascade c vid = (None, c')"
  shows "childless (rows c') vid"
  unfolding childless_def
proof (intro allI impI notI)
  fix y obj assume y: "rows c' y = Some obj" "parent_of obj \<noteq> []" and p: "parent_of obj = vid"
  note k = cascade_keeps [OF assms]
  have e: "ended obs c c'" using k by (simp add: delete_keeps_def)
  obtain row where "rows c y = Some row" using endedD(4) [OF e, of y] y(1) by (cases "rows c y") auto
  moreover from endedD(5) [OF e this y(1)] have "parent_of row = vid" using p by (simp add: same_place_def)
  ultimately have "(vid, y) \<in> child_rel (co_objects c)" using y(2) p by (auto simp: child_rel_def)
  then have "rows c' y = None" using k by blast
  with y(1) show False by simp
qed

section \<open>The deletes\<close>

abbreviation below :: "'w Controller \<Rightarrow> string \<Rightarrow> string set" where
  "below c vid \<equiv> {x. (vid, x) \<in> (child_rel (co_objects c))\<^sup>+}"

lemma after_cascade_keeps:
  assumes "workload_world obs c" and "objects_ok (co_objects c)" and "vid \<notin> below c vid"
    and "cascade c vid = (None, c1)" and "rows c vid = Some row"
  shows "workload_world obs c1" and "objects_ok (co_objects c1)" and "rows c1 vid = Some row" and "childless (rows c1) vid"
  using cascade_keeps [OF assms(1,2) _ assms(4)] ended_world [OF assms(1)] endedD(2)
    cascade_childless [OF assms(1,2) _ assms(4)] assms(3,5)
  by (auto simp: delete_keeps_def)

lemma delete_tree_keeps:
  assumes "workload_world obs c" and "objects_ok (co_objects c)" and "id_of intent \<notin> below c (id_of intent)"
    and "rows c (id_of intent) = Some row" and "same_place intent row" and "delete_tree c intent = (e, c')"
  shows "delete_keeps obs (insert (id_of intent) (below c (id_of intent))) c c'
    \<and> (e = None \<longrightarrow> (\<forall>x \<in> insert (id_of intent) (below c (id_of intent)). rows c' x = None))"
proof -
  let ?vid = "id_of intent" and ?all = "insert (id_of intent) (below c (id_of intent))"
  obtain e1 c1 where cas: "cascade c ?vid = (e1, c1)" by (cases "cascade c ?vid")
  note k1 = cascade_keeps [OF assms(1,2) _ cas] assms(3)
  show ?thesis
  proof (cases e1)
    case (Some e')
    then have "c' = c1" "e = Some e'" using assms(6) cas by (simp_all add: delete_tree_def id_of_def)
    then show ?thesis using k1 delete_keeps_mono [of obs "below c ?vid" c c1 ?all] by auto
  next
    case None
    note a = after_cascade_keeps [OF assms(1-3) cas [unfolded None] assms(4)]
    obtain e2 c2 where per: "persist c1 intent MutationDeleting = (e2, c2)" by (cases "persist c1 intent MutationDeleting")
    have k2: "delete_keeps obs {?vid} c1 c2" by (rule persist_keeps [OF a(1,2) per a(3) assms(5)])
    have k12: "delete_keeps obs ?all c c2"
      using delete_keeps_trans [OF _ k2, of "below c ?vid" c] k1 by simp
    show ?thesis
    proof (cases e2)
      case (Some e')
      then have "e = Some e'" "c' = c2" using assms(6) cas None per by (auto simp: delete_tree_def id_of_def)
      then show ?thesis using k12 by simp
    next
      case none2: None
      have w2: "workload_world obs c2" "objects_ok (co_objects c2)"
        using ended_world [OF assms(1)] endedD(2) k12 by (auto simp: delete_keeps_def)
      have r2: "rows c2 = (rows c1)(?vid \<mapsto> intent)" using persist_map [OF per] none2 by simp
      have ch: "childless (rows c2) ?vid" using childless_update [OF a(4,3) assms(5)] r2 by simp
      have del: "deleteOne c2 intent = (e, c')" using assms(6) cas None per none2 by (simp add: delete_tree_def id_of_def)
      have k3: "delete_keeps obs {?vid} c2 c'" and gone: "e = None \<longrightarrow> rows c' ?vid = None"
        using deleteOne_keeps [OF w2 del _ _ ch, of intent] r2 by auto
      have "rows c' x = None" if "x \<in> below c ?vid" for x
      proof -
        have "rows c1 x = None" "x \<noteq> ?vid" using k1 None that by auto
        then have "rows c2 x = None" using r2 by simp
        then show ?thesis using endedD(4) [of obs c2 c'] k3 by (simp add: delete_keeps_def)
      qed
      with gone delete_keeps_trans [OF k12 k3] show ?thesis by (auto intro: delete_keeps_mono)
    qed
  qed
qed

lemma delete_keepsD:
  assumes "delete_keeps obs touched c c'"
  shows "rooted (rows c) \<Longrightarrow> rooted (rows c')"
    and "rows c x = Some obj \<Longrightarrow> rows c' x = None \<Longrightarrow> (st_Environment (sb_Status obj), x) \<notin> obs (co_world c')"
    and "x \<notin> touched \<Longrightarrow> rows c' x = rows c x"
  using assms endedD(6) [of obs c c' x obj] by (simp_all add: delete_keeps_def)

text \<open>C28: a delete of a sandbox, whichever of the calls to drivers, gateways, issuer and store fail, leaves no
  sandbox whose parent is gone, drops a row only when the driver has nothing left under that id, and
  touches no row outside the tree; one that succeeds has ended the whole tree.\<close>

theorem Act_delete_ends_tree:
  assumes "workload_world obs c" and "objects_ok (co_objects c)" and "rooted (rows c)"
    and "vid \<notin> below c vid" and "Act c vid ''delete'' = (r, c')"
  shows "rooted (rows c')
    \<and> (\<forall>x obj. rows c x = Some obj \<and> rows c' x = None \<longrightarrow> (st_Environment (sb_Status obj), x) \<notin> obs (co_world c'))
    \<and> (\<forall>x. x \<noteq> vid \<and> x \<notin> below c vid \<longrightarrow> rows c' x = rows c x)
    \<and> (\<forall>out. r = Inr out \<longrightarrow> (\<forall>x \<in> insert vid (below c vid). rows c' x = None))"
proof (cases "rows c vid")
  case None
  then show ?thesis using assms(3,5) by (auto simp: Act_def)
next
  case (Some obj)
  let ?intent = "with_phase PhaseDeleting obj"
  have vid: "id_of ?intent = vid" using objects_okD(2) [OF assms(2) Some] by simp
  show ?thesis
  proof (cases "driverFor c (st_Environment (sb_Status obj))")
    case (Inl e)
    then show ?thesis using assms(3,5) Some by (auto simp: Act_def)
  next
    case (Inr d)
    obtain e c1 where del: "delete_tree c ?intent = (e, c1)" by (cases "delete_tree c ?intent")
    then have c': "c' = c1" "(\<exists>out. r = Inr out) \<longleftrightarrow> e = None"
      using assms(5) Some Inr by (auto simp: Act_def split: option.splits)
    have k: "delete_keeps obs (insert vid (below c vid)) c c'" and all: "e = None \<longrightarrow> (\<forall>x \<in> insert vid (below c vid). rows c' x = None)"
      using delete_tree_keeps [OF assms(1,2) _ _ _ del, of obj] assms(4) Some vid c'(1) by auto
    show ?thesis using delete_keepsD [OF k] assms(3) all c'(2) by auto
  qed
qed

text \<open>The same of a deadline's delete, and of the end of a delete that was cut short.\<close>

theorem reaper_delete_ends_tree:
  assumes "workload_world obs c" and "objects_ok (co_objects c)" and "vid \<notin> below c vid" and "rows c vid = Some obj"
    and "deleteLocked c environment vid reason = (e, c')"
  shows "delete_keeps obs (insert vid (below c vid)) c c'
    \<and> (e = None \<longrightarrow> (\<forall>x \<in> insert vid (below c vid). rows c' x = None))"
proof -
  let ?intent = "with_reason reason (with_phase PhaseDeleting obj)"
  have vid: "id_of ?intent = vid" using objects_okD(2) [OF assms(2,4)] by simp
  show ?thesis
    using delete_tree_keeps [OF assms(1,2), of ?intent obj e c'] assms(3-5) vid by (simp add: deleteLocked_def)
qed

theorem finishDelete_ends_tree:
  assumes "workload_world obs c" and "objects_ok (co_objects c)" and "vid \<notin> below c vid"
    and "finishDelete c vid = (e, done, c')"
  shows "delete_keeps obs (insert vid (below c vid)) c c'
    \<and> (e = None \<and> done \<longrightarrow> (\<forall>x \<in> insert vid (below c vid). rows c' x = None))"
proof (cases "\<exists>obj. rows c vid = Some obj \<and> \<not> (vid \<in> set (co_realizing c) \<or> isMoving c vid \<or> phase_of obj \<noteq> PhaseDeleting)")
  case False
  then have "c' = c \<and> \<not> done" using assms(4) by (auto simp: finishDelete_def split: option.splits if_splits)
  then show ?thesis using assms(2) by (simp add: delete_keeps_def ended_refl)
next
  case True
  then obtain obj where obj: "rows c vid = Some obj"
    "\<not> (vid \<in> set (co_realizing c) \<or> isMoving c vid \<or> phase_of obj \<noteq> PhaseDeleting)" by blast
  have vid: "id_of obj = vid" by (rule objects_okD(2) [OF assms(2) obj(1)])
  obtain e1 c1 where cas: "cascade c vid = (e1, c1)" by (cases "cascade c vid")
  have k1: "delete_keeps obs (below c vid) c c1" "e1 = None \<Longrightarrow> x \<in> below c vid \<Longrightarrow> rows c1 x = None" for x
    using cascade_keeps [OF assms(1,2) _ cas] assms(3) by auto
  show ?thesis
  proof (cases e1)
    case (Some e')
    then show ?thesis
      using assms(4) obj cas k1(1) by (auto simp: finishDelete_def intro: delete_keeps_mono)
  next
    case None
    note a = after_cascade_keeps [OF assms(1-3) cas [unfolded None] obj(1)]
    have del: "deleteOne c1 obj = (e, c')" using assms(4) obj cas None by (simp add: finishDelete_def split: prod.splits)
    have k2: "delete_keeps obs {vid} c1 c'" "e = None \<longrightarrow> rows c' vid = None"
      using deleteOne_keeps [OF a(1,2) del] a(3,4) vid by auto
    have "rows c' x = None" if "x \<in> below c vid" for x
      using k1(2) [OF None that] endedD(4) [of obs c1 c' x] k2(1) by (simp add: delete_keeps_def)
    with k2(2) delete_keeps_trans [OF k1(1) k2(1)] show ?thesis by simp
  qed
qed

section \<open>A tree of three\<close>

text \<open>A world that is the list of driver objects, a driver that removes from it, and a sandbox with a child and
  a grandchild.\<close>

definition child_sandbox :: "string \<Rightarrow> string \<Rightarrow> Sandbox" where
  "child_sandbox vid parent =
     (sample_sandbox vid Running)\<lparr>sb_Status := (sb_Status (sample_sandbox vid Running))\<lparr>st_Parent := parent\<rparr>\<rparr>"

definition removing_driver :: "(string \<times> string) list Driver" where
  "removing_driver = sample_driver\<lparr>dr_Delete := (\<lambda>vid w. (None, removeAll (''desk'', vid) w))\<rparr>"

definition family :: "(string \<times> string) list Controller" where
  "family = (sample_over [(''desk'', ''sbx_1''), (''desk'', ''sbx_2''), (''desk'', ''sbx_3''), (''desk'', ''sbx_4'')] Capacity0
     [child_sandbox ''sbx_1'' [], child_sandbox ''sbx_2'' ''sbx_1'', child_sandbox ''sbx_3'' ''sbx_2'', child_sandbox ''sbx_4'' []])
     \<lparr>co_drivers := [(''desk'', removing_driver)]\<rparr>"

lemma family_world: "workload_world set family"
  by (auto simp: workload_world_def store_keeps_def family_def sample_over_def sample_accepting_def driverFor_def
      removing_driver_def sample_driver_def split: if_splits option.splits)

lemma family_ok: "objects_ok (co_objects family)"
  by code_simp

lemma family_rows:
  "rows family x = (if x = ''sbx_1'' then Some (child_sandbox ''sbx_1'' []) else if x = ''sbx_2'' then Some (child_sandbox ''sbx_2'' ''sbx_1'')
     else if x = ''sbx_3'' then Some (child_sandbox ''sbx_3'' ''sbx_2'') else if x = ''sbx_4'' then Some (child_sandbox ''sbx_4'' []) else None)"
  by (simp add: family_def sample_over_def child_sandbox_def sample_sandbox_def)

lemma family_parents [simp]: "parent_of (child_sandbox vid p) = p"
  by (simp add: parent_of_def child_sandbox_def)

lemma family_rooted: "rooted (rows family)"
  by (auto simp: rooted_def family_rows split: if_splits)

lemma family_below: "x \<in> below family vid \<longleftrightarrow> x \<in> set (map id_of (descendants family vid))"
  using ids_descendants [OF family_ok, of vid] by auto

theorem Act_delete_ends_tree_witness:
  "(\<exists>out. fst (Act family ''sbx_1'' ''delete'') = Inr out)
   \<and> rooted (rows (snd (Act family ''sbx_1'' ''delete'')))
   \<and> rows (snd (Act family ''sbx_1'' ''delete'')) ''sbx_3'' = None
   \<and> rows (snd (Act family ''sbx_1'' ''delete'')) ''sbx_4'' = Some (child_sandbox ''sbx_4'' [])
   \<and> co_world (snd (Act family ''sbx_1'' ''delete'')) = [(''desk'', ''sbx_4'')]"
proof -
  obtain r c' where act: "Act family ''sbx_1'' ''delete'' = (r, c')" by (cases "Act family ''sbx_1'' ''delete''")
  have "''sbx_1'' \<notin> below family ''sbx_1''" unfolding family_below by code_simp
  note k = Act_delete_ends_tree [OF family_world family_ok family_rooted this act]
  have keeps: "rooted (rows c')" "x \<noteq> ''sbx_1'' \<Longrightarrow> x \<notin> below family ''sbx_1'' \<Longrightarrow> rows c' x = rows family x"
    "r = Inr out \<Longrightarrow> x \<in> below family ''sbx_1'' \<Longrightarrow> rows c' x = None" for x out
    using k by simp_all
  have "\<not> isl (fst (Act family ''sbx_1'' ''delete''))" by code_simp
  then have r: "\<exists>out. r = Inr out" using act by (cases r) auto
  have "''sbx_4'' \<notin> below family ''sbx_1''" "''sbx_3'' \<in> below family ''sbx_1''" unfolding family_below by code_simp+
  moreover have "co_world (snd (Act family ''sbx_1'' ''delete'')) = [(''desk'', ''sbx_4'')]" by code_simp
  moreover have "rows family ''sbx_4'' = Some (child_sandbox ''sbx_4'' [])" by (simp add: family_rows)
  ultimately show ?thesis using keeps(1) keeps(2) [of "''sbx_4''"] keeps(3) [of _ "''sbx_3''"] r act by auto
qed

text \<open>The walk answers the transitive closure of the parent relation, each sandbox once, with every child ahead
  of its parent.\<close>

theorem descendants_tree:
  assumes "objects_ok (co_objects c)"
  shows "id_of ` set (descendants c vid) = below c vid \<and> distinct (map id_of (descendants c vid))
    \<and> (vid \<notin> below c vid \<longrightarrow> sorted_wrt (\<lambda>a b. parent_of b \<noteq> id_of a) (descendants c vid))"
  using ids_descendants [OF assms] distinct_descendants [OF assms] descendants_order [OF assms] by auto

section \<open>An identity that outlives its sandbox\<close>

text \<open>A delete whose revocation fails answers the error and has dropped the row, and with it the only record of
  the token: no later delete or rotation names it, and nothing was refused.\<close>

definition issued_sandbox :: Sandbox where
  "issued_sandbox = with_token (Some \<lparr>tk_JTI = ''jti_1'', tk_IssuedAt = 1, tk_ExpiresAt = 100\<rparr>) (sample_sandbox ''sbx_1'' Running)"

definition refusing_issuer :: "string list Tokens" where
  "refusing_issuer = \<lparr>ts_Mint = (\<lambda>_ w. (Inl (ErrOther ''down''), w)), ts_Revoke = (\<lambda>_ _ w. (Some (ErrOther ''down''), w)), ts_Forget = None\<rparr>"

definition issued :: "string list Controller" where
  "issued = (sample_over [] Capacity0 [issued_sandbox])\<lparr>co_tokens := Some refusing_issuer\<rparr>"

theorem delete_drops_unrevoked_token:
  "isl (fst (Act issued ''sbx_1'' ''delete'')) \<and> co_objects (snd (Act issued ''sbx_1'' ''delete'')) = []
   \<and> co_world (snd (Act issued ''sbx_1'' ''delete'')) = []
   \<and> Act (snd (Act issued ''sbx_1'' ''delete'')) ''sbx_1'' ''delete'' = (Inl cerr.ErrNotFound, snd (Act issued ''sbx_1'' ''delete''))"
proof -
  have "isl (fst (Act issued ''sbx_1'' ''delete''))" by code_simp
  moreover have gone: "co_objects (snd (Act issued ''sbx_1'' ''delete'')) = []" by code_simp
  moreover have "co_world (snd (Act issued ''sbx_1'' ''delete'')) = []" by code_simp
  ultimately show ?thesis by (simp add: Act_def gone)
qed

end
