(* ===== verification/Secrets_Control.thy ===== *)
theory Secrets_Control
  imports Egress_Control
begin

text \<open>
  The Secret kind (\<^verbatim>\<open>controller/secret.go\<close>): create, update, delete, the stamp of a use, the reads, and the push
  of a changed secret to every sandbox that mounts it. The store that seals the values is the parameter
  \<open>co_secrets\<close>. The emitter of a store with no journal is not part of the state.
\<close>

definition MutationSecretCreated :: string where "MutationSecretCreated = ''secret.created''"
definition MutationSecretUpdated :: string where "MutationSecretUpdated = ''secret.updated''"
definition MutationSecretDeleted :: string where "MutationSecretDeleted = ''secret.deleted''"

definition SecretStatus0 :: SecretStatus where
  "SecretStatus0 = \<lparr>su_ID = [], su_Owner = [], su_Version = 0, su_CreatedAt = 0, su_UpdatedAt = 0, su_MountedBy = 0,
     su_LastUsedAt = 0\<rparr>"

definition Secret0 :: Secret where
  "Secret0 = \<lparr>sec_APIVersion = [], sec_Kind = [], sec_Metadata = \<lparr>md_Name = [], md_Labels = [], md_Annotations = []\<rparr>,
     sec_Spec = \<lparr>se_Kind = [], se_Scope = \<lparr>sk_Hosts = [], sk_Ports = []\<rparr>,
       se_Inject = \<lparr>si_Header = [], si_Scheme = [], si_Query = [], si_Body = False\<rparr>, se_OAuth = None, se_Value = []\<rparr>,
     sec_Status = SecretStatus0\<rparr>"

definition StripSecretValue :: "Secret \<Rightarrow> Secret" where
  "StripSecretValue obj = obj\<lparr>sec_Spec := (sec_Spec obj)\<lparr>se_Value := []\<rparr>\<rparr>"

section \<open>Reads\<close>

definition bindsSecret :: "Sandbox \<Rightarrow> string \<Rightarrow> bool" where
  "bindsSecret sb vid =
     (case st_EgressState (sb_Status sb) of
        None \<Rightarrow> False
      | Some s \<Rightarrow> list_ex (\<lambda>m. mt_ID m = vid) (es_Secrets s))"

definition mountedByLocked :: "'w Controller \<Rightarrow> string \<Rightarrow> int" where
  "mountedByLocked c vid =
     int (length (filter (\<lambda>(_, sb). phase_of sb \<noteq> PhaseDeleting \<and> bindsSecret sb vid) (co_objects c)))"

definition mountingLocked :: "'w Controller \<Rightarrow> string \<Rightarrow> Sandbox list" where
  "mountingLocked c vid =
     sort_func (\<lambda>a b. go_compare (st_ID (sb_Status a)) (st_ID (sb_Status b)))
       (map snd (filter (\<lambda>(_, sb). phase_of sb \<noteq> PhaseDeleting \<and> bindsSecret sb vid) (co_objects c)))"

definition secretRead :: "'w Controller \<Rightarrow> string \<Rightarrow> Secret" where
  "secretRead c vid =
     (let out = StripSecretValue (case map_of (co_secretObjects c) vid of Some s \<Rightarrow> s | None \<Rightarrow> Secret0)
      in out\<lparr>sec_Status := (sec_Status out)\<lparr>su_MountedBy := mountedByLocked c vid\<rparr>\<rparr>)"

definition GetSecret :: "'w Controller \<Rightarrow> string \<Rightarrow> string \<Rightarrow> cerr + Secret" where
  "GetSecret c key owner =
     (let vid = secretIDLocked c key owner in if vid = [] then Inl cerr.ErrNotFound else Inr (secretRead c vid))"

definition SecretFor :: "'w Controller \<Rightarrow> string \<Rightarrow> string \<Rightarrow> seam_err + Secret option" where
  "SecretFor c nameOrID owner =
     (let vid = secretIDLocked c nameOrID owner in if vid = [] then Inl seam_err.ErrNotFound else Inr (Some (secretRead c vid)))"

definition ListSecrets :: "'w Controller \<Rightarrow> Secret list" where
  "ListSecrets c =
     sort_func (\<lambda>a b. go_compare (su_ID (sec_Status a)) (su_ID (sec_Status b)))
       (map (\<lambda>(vid, _). secretRead c vid) (co_secretObjects c))"

section \<open>Writes\<close>

definition persistSecret :: "'w Controller \<Rightarrow> 'w Secrets \<Rightarrow> Secret \<Rightarrow> string \<Rightarrow> string \<Rightarrow> cerr option \<times> 'w Controller" where
  "persistSecret c sv obj plaintext mutation =
     (case ks_WriteSecret sv obj plaintext mutation (co_world c) of
        (Inl e, w) \<Rightarrow> (Some e, c\<lparr>co_world := w\<rparr>)
      | (Inr version, w) \<Rightarrow>
          (None, c\<lparr>co_world := w,
                   co_secretObjects := AList.update (su_ID (sec_Status obj))
                     (obj\<lparr>sec_Status := (sec_Status obj)\<lparr>su_Version := version\<rparr>\<rparr>) (co_secretObjects c)\<rparr>))"

text \<open>One sandbox of the push sweep: no failure of it fails the act.\<close>

definition repush_one :: "'w Controller \<Rightarrow> Sandbox \<Rightarrow> 'w Controller" where
  "repush_one c sb =
     (case pushEgress c sb of
        (_, b, obj, c1) \<Rightarrow>
          (let (obj1, c2) = (case b of
                               Some bd \<Rightarrow> (if mp_Principal (bd_Map bd) \<noteq> [] then snd (carryEnv c1 obj (bd_Env bd)) else (obj, c1))
                             | None \<Rightarrow> (obj, c1));
               obj2 = obj1\<lparr>sb_Status := (sb_Status obj1)
                        \<lparr>st_Secrets := (case b of Some bd \<Rightarrow> bd_Secrets bd | None \<Rightarrow> SecretsStatus0)\<rparr>\<rparr>
           in snd (persist c2 obj2 MutationStatus)))"

definition repushMounts :: "'w Controller \<Rightarrow> string \<Rightarrow> 'w Controller" where
  "repushMounts c vid = foldl repush_one c (mountingLocked c vid)"

definition unvalued :: "Secret \<Rightarrow> Secret" where
  "unvalued obj = obj\<lparr>sec_Spec := (sec_Spec obj)\<lparr>se_Value := []\<rparr>\<rparr>"

definition CreateSecret :: "'w Controller \<Rightarrow> Secret \<Rightarrow> string \<Rightarrow> (cerr + Secret) \<times> 'w Controller" where
  "CreateSecret c obj owner =
     (case co_secrets c of
        None \<Rightarrow> (Inl ErrNoSecretKey, c)
      | Some sv \<Rightarrow>
          if owner = [] then (Inl (ErrOther ''owner''), c)
          else if list_ex (\<lambda>(_, held). su_Owner (sec_Status held) = owner
                              \<and> md_Name (sec_Metadata held) = md_Name (sec_Metadata obj)) (co_secretObjects c)
          then (Inl ErrNameTaken, c)
          else let (vid, w) = co_newID c SecretIDPrefix (co_world c); c1 = c\<lparr>co_world := w\<rparr>; now = co_wall c1 w;
                   made = (unvalued obj)\<lparr>sec_Status := SecretStatus0\<lparr>su_ID := vid, su_Owner := owner, su_CreatedAt := now,
                              su_UpdatedAt := now\<rparr>\<rparr>
               in case persistSecret c1 sv made (se_Value (sec_Spec obj)) MutationSecretCreated of
                    (Some e, c2) \<Rightarrow> (Inl e, c2)
                  | (None, c2) \<Rightarrow> (Inr (secretRead c2 vid), c2))"

definition UpdateSecret :: "'w Controller \<Rightarrow> Secret \<Rightarrow> string \<Rightarrow> (cerr + Secret) \<times> 'w Controller" where
  "UpdateSecret c obj vid =
     (case co_secrets c of
        None \<Rightarrow> (Inl ErrNoSecretKey, c)
      | Some sv \<Rightarrow>
          (case map_of (co_secretObjects c) vid of
             None \<Rightarrow> (Inl cerr.ErrNotFound, c)
           | Some held \<Rightarrow>
               (let next = (unvalued obj)\<lparr>sec_Status := (sec_Status held)\<lparr>su_UpdatedAt := co_wall c (co_world c)\<rparr>\<rparr>
                in case persistSecret c sv next (se_Value (sec_Spec obj)) MutationSecretUpdated of
                     (Some e, c1) \<Rightarrow> (Inl e, c1)
                   | (None, c1) \<Rightarrow> (let c2 = repushMounts c1 vid in (Inr (secretRead c2 vid), c2)))))"

text \<open>The delete. \<^verbatim>\<open>previous\<close> names the same map as the collection the entry is deleted from, so what a failed
  write puts back is the collection without the entry.\<close>

definition deleteSecret :: "'w Controller \<Rightarrow> string \<Rightarrow> (Secret \<Rightarrow> bool) \<Rightarrow> (cerr + Secret) \<times> 'w Controller" where
  "deleteSecret c vid at_version =
     (case co_secrets c of
        None \<Rightarrow> (Inl ErrNoSecretKey, c)
      | Some sv \<Rightarrow>
          (case map_of (co_secretObjects c) vid of
             None \<Rightarrow> (Inl cerr.ErrNotFound, c)
           | Some held \<Rightarrow>
               if \<not> at_version held then (Inl ErrPreconditionFailed, c)
               else let c1 = c\<lparr>co_secretObjects := AList.delete vid (co_secretObjects c)\<rparr>
                    in case ks_RemoveSecret sv vid MutationSecretDeleted (co_world c1) of
                         (Some e, w) \<Rightarrow> (Inl e, c1\<lparr>co_world := w\<rparr>)
                       | (None, w) \<Rightarrow> (Inr (StripSecretValue held), repushMounts (c1\<lparr>co_world := w\<rparr>) vid)))"

definition DeleteSecret :: "'w Controller \<Rightarrow> string \<Rightarrow> (cerr + Secret) \<times> 'w Controller" where
  "DeleteSecret c vid = deleteSecret c vid (\<lambda>_. True)"

definition DeleteSecretAt :: "'w Controller \<Rightarrow> string \<Rightarrow> int \<Rightarrow> (cerr + Secret) \<times> 'w Controller" where
  "DeleteSecretAt c vid version = deleteSecret c vid (\<lambda>held. su_Version (sec_Status held) = version)"

section \<open>The stamp of a use\<close>

text \<open>\<^verbatim>\<open>Truncate(time.Second)\<close>, on an instant of the era after the zero time.\<close>

definition to_second :: "gotime \<Rightarrow> gotime" where
  "to_second t = t - t mod Second"

definition SecretUsed :: "'w Controller \<Rightarrow> string \<Rightarrow> string \<Rightarrow> gotime \<Rightarrow> cerr option \<times> 'w Controller" where
  "SecretUsed c sandboxID secretID reported =
     (case co_secretUses c of
        None \<Rightarrow> (None, c)
      | Some use \<Rightarrow>
          (case (map_of (co_secretObjects c) secretID, map_of (co_objects c) sandboxID) of
             (Some held, Some sb) \<Rightarrow>
               if \<not> bindsSecret sb secretID then (Some ErrSecretNotMounted, c)
               else let now = now_of c;
                        t = to_second (if reported = 0 \<or> now < reported then now else reported);
                        latest = su_LastUsedAt (sec_Status held);
                        obj = held\<lparr>sec_Status := (sec_Status held)\<lparr>su_LastUsedAt := t\<rparr>\<rparr>
                    in if latest \<noteq> 0 \<and> time_Sub t latest < SecretLastUsedResolution then (None, c)
                       else (case use obj (co_world c) of
                               (Some e, w) \<Rightarrow> (Some e, c\<lparr>co_world := w\<rparr>)
                             | (None, w) \<Rightarrow>
                                 (None, c\<lparr>co_world := w, co_secretObjects := AList.update secretID obj (co_secretObjects c)\<rparr>))
           | _ \<Rightarrow> (Some cerr.ErrNotFound, c)))"

end
