(* ===== verification/Pool.thy ===== *)
theory Pool
  imports Capacity Egress_Control
begin

text \<open>
  The prewarmed set of an environment (\<^verbatim>\<open>controller/pool.go\<close>): the shape an entry is stamped with, the rule
  that matches a manifest to an entry, what an adoption writes, and the refill that keeps the set at its
  target. The tick that calls the refill, its lease and its metrics are not modelled.
\<close>

section \<open>The shape of an entry\<close>

definition PoolShapeLabel :: string where "PoolShapeLabel = ''cella.latere.ai/pool-shape''"
definition ReasonShapeDrift :: string where "ReasonShapeDrift = ''ShapeDrift''"
definition ReasonNotRunning :: string where "ReasonNotRunning = ''NotRunning''"

fun strings_Join :: "string list \<Rightarrow> string \<Rightarrow> string" where
  "strings_Join [] sep = []"
| "strings_Join [x] sep = x"
| "strings_Join (x # xs) sep = x @ sep @ strings_Join xs sep"

definition shape_parts :: "PoolSpec \<Rightarrow> string list" where
  "shape_parts pool =
     [pl_Image pool, rs_CPU (pl_Resources pool), rs_Memory (pl_Resources pool), rs_Disk (pl_Resources pool)]
     @ (case pl_Display pool of
          None \<Rightarrow> []
        | Some d \<Rightarrow> [format_int (dp_Width d) @ ''x'' @ format_int (dp_Height d)])"

definition poolShape :: "PoolSpec \<Rightarrow> string" where
  "poolShape pool = hex_EncodeToString (take 8 (Sum256 (strings_Join (shape_parts pool) [CHR 0x00])))"

definition label_of :: "State \<Rightarrow> string \<Rightarrow> string" where
  "label_of s key = (case map_of (dt_Labels s) key of None \<Rightarrow> [] | Some v \<Rightarrow> v)"

section \<open>Matching and adoption\<close>

definition samePath :: "string \<Rightarrow> string \<Rightarrow> bool" where
  "samePath p fallback \<longleftrightarrow> p = [] \<or> p = fallback"

definition sameDisplay :: "Display option \<Rightarrow> Display option \<Rightarrow> bool" where
  "sameDisplay a b \<longleftrightarrow> a = b"

definition matchesPool :: "PoolSpec \<Rightarrow> Sandbox \<Rightarrow> bool" where
  "matchesPool pool obj =
     (let spec = sb_Spec obj
      in if sp_Image spec \<noteq> pl_Image pool then False
         else if sp_Resources spec \<noteq> pl_Resources pool then False
         else if \<not> sameDisplay (sp_Display spec) (pl_Display pool) then False
         else if nw_Ports (sp_Network spec) \<noteq> [] then False
         else if sp_Command spec \<noteq> [] \<or> sp_Args spec \<noteq> [] then False
         else if sp_User spec \<noteq> [] then False
         else if ws_Source (sp_Workspace spec) \<noteq> [] \<and> ws_Source (sp_Workspace spec) \<noteq> WorkspaceSourceEmpty then False
         else if \<not> samePath (ws_Path (sp_Workspace spec)) DefaultWorkdir then False
         else if \<not> samePath (sp_Workdir spec) DefaultWorkdir then False
         else True)"

definition matchEntry :: "PoolSpec \<Rightarrow> State list \<Rightarrow> Sandbox \<Rightarrow> State option" where
  "matchEntry pool entries obj =
     (if entries = [] \<or> \<not> matchesPool pool obj then None
      else find (\<lambda>entry. dt_Phase entry = Running \<and> label_of entry PoolShapeLabel = poolShape pool) entries)"

definition adoptionOf :: "Sandbox \<Rightarrow> DriverLifecycle \<Rightarrow> DriverEgress \<Rightarrow> strmap \<Rightarrow> string \<Rightarrow> Adoption" where
  "adoptionOf obj lifecycle egress secrets tok =
     \<lparr>ad_Owner = st_Owner (sb_Status obj), ad_Name = md_Name (sb_Metadata obj), ad_Labels = md_Labels (sb_Metadata obj),
      ad_Env = withSecretEnv (sp_Env (sb_Spec obj)) secrets,
      ad_Workspace = \<lparr>dw_Path = ws_Path (sp_Workspace (sb_Spec obj)), dw_Host = []\<rparr>,
      ad_Lifecycle = lifecycle, ad_Token = tok, ad_Egress = egress\<rparr>"

definition without :: "State list \<Rightarrow> string \<Rightarrow> State list" where
  "without entries vid = filter (\<lambda>s. dt_ID s \<noteq> vid) entries"

definition adoptionLost :: "cerr \<Rightarrow> bool" where
  "adoptionLost e \<longleftrightarrow> errors_Is e DriverNotFound \<or> errors_Is e DriverInvalid \<or> errors_Is e DriverUnsupported"

section \<open>The refill\<close>

definition poolDropReason :: "State \<Rightarrow> string \<Rightarrow> gotime \<Rightarrow> duration \<Rightarrow> string" where
  "poolDropReason entry shape now grace =
     (if time_Sub now (dt_CreatedAt entry) < grace then []
      else if label_of entry PoolShapeLabel \<noteq> shape then ReasonShapeDrift
      else if dt_Phase entry \<noteq> Running then ReasonNotRunning
      else [])"

definition sortPool :: "'w Controller \<Rightarrow> PoolSpec \<Rightarrow> State list \<Rightarrow> gotime \<Rightarrow> State list \<times> State list" where
  "sortPool c pool entries now =
     (let shape = poolShape pool;
          wanted = (\<lambda>entry. time_Sub now (dt_CreatedAt entry) < co_poolGrace c
                      \<or> poolDropReason entry shape now (co_poolGrace c) = [])
      in (sort_func (\<lambda>a b. go_compare (dt_CreatedAt a) (dt_CreatedAt b)) (filter wanted entries),
          filter (\<lambda>entry. \<not> wanted entry) entries))"

definition poolTarget :: "PoolSpec \<Rightarrow> int \<Rightarrow> int \<Rightarrow> int" where
  "poolTarget pool capacity live =
     (if pl_Size pool \<le> 0 then 0 else if capacity \<le> 0 then pl_Size pool else max (min (pl_Size pool) (capacity - live)) 0)"

fun take_surplus :: "int \<Rightarrow> State list \<Rightarrow> State list \<times> State list" where
  "take_surplus surplus [] = ([], [])"
| "take_surplus surplus (entry # keep) =
     (if surplus > 0 \<and> dt_Phase entry = Running
      then (case take_surplus (surplus - 1) keep of (kept, gone) \<Rightarrow> (kept, entry # gone))
      else (case take_surplus surplus keep of (kept, gone) \<Rightarrow> (entry # kept, gone)))"

definition takeSurplus :: "State list \<Rightarrow> State list \<Rightarrow> int \<Rightarrow> State list \<times> State list" where
  "takeSurplus keep gone target =
     (let surplus = int (length keep) - target
      in if surplus \<le> 0 then (keep, gone)
         else (case take_surplus surplus keep of (kept, given) \<Rightarrow> (kept, gone @ given)))"

definition resourcesOf :: "Resources \<Rightarrow> DriverResources" where
  "resourcesOf r = \<lparr>dv_CPU = rs_CPU r, dv_Memory = rs_Memory r, dv_Disk = rs_Disk r, dv_CPULimit = []\<rparr>"

definition CreateSpec0 :: CreateSpec where
  "CreateSpec0 = \<lparr>cs_ID = [], cs_Name = [], cs_Owner = [], cs_Image = [], cs_Workdir = [], cs_Isolation = [], cs_Command = [],
     cs_Args = [], cs_Env = [], cs_Labels = [], cs_Annotations = [],
     cs_Lifecycle = \<lparr>dl_TTL = 0, dl_AutoStop = 0, dl_AutoDelete = 0\<rparr>, cs_User = [],
     cs_Resources = \<lparr>dv_CPU = [], dv_Memory = [], dv_Disk = [], dv_CPULimit = []\<rparr>,
     cs_Workspace = \<lparr>dw_Path = [], dw_Host = []\<rparr>, cs_Volumes = [], cs_Egress = DriverEgress0, cs_Display = None,
     cs_Ports = [], cs_Mesh = [], cs_Parent = [], cs_Token = [], cs_Prewarm = False\<rparr>"

definition prewarm_spec :: "string \<Rightarrow> PoolSpec \<Rightarrow> CreateSpec" where
  "prewarm_spec vid pool =
     CreateSpec0\<lparr>cs_ID := vid, cs_Image := pl_Image pool, cs_Resources := resourcesOf (pl_Resources pool),
                 cs_Labels := [(PoolShapeLabel, poolShape pool)], cs_Prewarm := True\<rparr>"

definition SandboxIDPrefix :: string where "SandboxIDPrefix = ''sbx_''"

definition prewarm :: "'w Controller \<Rightarrow> string \<Rightarrow> PoolSpec \<Rightarrow> cerr option \<times> 'w Controller" where
  "prewarm c environment pool =
     (case driverFor c environment of
        Inl e \<Rightarrow> (Some e, c)
      | Inr d \<Rightarrow>
          (let (vid, w) = co_newID c SandboxIDPrefix (co_world c)
           in case dr_Create d (prewarm_spec vid pool) w of (e, w') \<Rightarrow> (e, c\<lparr>co_world := w'\<rparr>)))"

text \<open>The two loops: a delete that fails is joined and the loop goes on, a prewarm that fails ends the tick.\<close>

fun drop_each :: "'w Driver \<Rightarrow> State list \<Rightarrow> int \<Rightarrow> cerr option \<Rightarrow> 'w Controller \<Rightarrow> int \<times> cerr option \<times> 'w Controller" where
  "drop_each d [] acted failed c = (acted, failed, c)"
| "drop_each d (entry # rest) acted failed c =
     (case dr_Delete d (dt_ID entry) (co_world c) of
        (Some e, w) \<Rightarrow>
          if errors_Is e DriverNotFound then drop_each d rest (acted + 1) failed (c\<lparr>co_world := w\<rparr>)
          else drop_each d rest acted (errors_Join [failed, Some e]) (c\<lparr>co_world := w\<rparr>)
      | (None, w) \<Rightarrow> drop_each d rest (acted + 1) failed (c\<lparr>co_world := w\<rparr>))"

fun prewarm_each :: "nat \<Rightarrow> string \<Rightarrow> PoolSpec \<Rightarrow> int \<Rightarrow> cerr option \<Rightarrow> 'w Controller \<Rightarrow> int \<times> cerr option \<times> 'w Controller" where
  "prewarm_each 0 environment pool acted failed c = (acted, failed, c)"
| "prewarm_each (Suc n) environment pool acted failed c =
     (case prewarm c environment pool of
        (Some e, c1) \<Rightarrow> (acted, errors_Join [failed, Some e], c1)
      | (None, c1) \<Rightarrow> prewarm_each n environment pool (acted + 1) failed c1)"

definition live_count :: "State list \<Rightarrow> int" where
  "live_count states = int (length (filter (\<lambda>s. \<not> dt_Pool s \<and> holdsCompute (dt_Phase s)) states))"

definition refillEnvironment :: "'w Controller \<Rightarrow> string \<Rightarrow> int \<times> cerr option \<times> 'w Controller" where
  "refillEnvironment c environment =
     (let (pool, capacity) = poolOf c environment
      in case driverFor c environment of
           Inl e \<Rightarrow> (0, Some e, c)
         | Inr d \<Rightarrow>
             if \<not> cp_Pool (dr_Capabilities d) then (0, None, c)
             else (case dr_List d Filter0 (co_world c) of
                     (Inl e, w) \<Rightarrow> (0, Some e, c\<lparr>co_world := w\<rparr>)
                   | (Inr states, w) \<Rightarrow>
                       (let c1 = c\<lparr>co_world := w\<rparr>; now = now_of c1;
                            entries = filter dt_Pool states;
                            target = poolTarget pool capacity (live_count states);
                            (keep0, gone0) = sortPool c1 pool entries now;
                            (keep, gone) = takeSurplus keep0 gone0 target
                        in case drop_each d gone 0 None c1 of
                             (acted, failed, c2) \<Rightarrow>
                               prewarm_each (nat (min (target - int (length keep)) (co_poolInFlight c))) environment pool acted failed c2)))"

fun refill_each :: "'w Controller \<Rightarrow> string list \<Rightarrow> int \<Rightarrow> cerr option \<Rightarrow> int \<times> cerr option \<times> 'w Controller" where
  "refill_each c [] acted failed = (acted, failed, c)"
| "refill_each c (environment # rest) acted failed =
     (case refillEnvironment c environment of
        (n, e, c1) \<Rightarrow> refill_each c1 rest (acted + n) (errors_Join [failed, e]))"

definition Refill :: "'w Controller \<Rightarrow> int \<times> cerr option \<times> 'w Controller" where
  "Refill c = refill_each c (placeable c) 0 None"

section \<open>What a refill leaves\<close>

text \<open>What a world shows of one environment's pool: the ids of its entries. A list answers them all; a delete
  answered with nil or not found leaves none under its id and touches no other; a create adds at most the id
  it was asked for, and none where it fails; drawing an id changes nothing.\<close>

definition pool_world :: "('w \<Rightarrow> string set) \<Rightarrow> 'w Controller \<Rightarrow> 'w Driver \<Rightarrow> bool" where
  "pool_world obs c d \<longleftrightarrow>
     (\<forall>states w w'. dr_List d Filter0 w = (Inr states, w') \<longrightarrow> obs w' = dt_ID ` set (filter dt_Pool states))
     \<and> (\<forall>vid w w'. dr_Delete d vid w = (None, w') \<longrightarrow> obs w' = obs w - {vid})
     \<and> (\<forall>vid w w' e. dr_Delete d vid w = (Some e, w') \<longrightarrow> errors_Is e DriverNotFound \<longrightarrow> obs w' = obs w - {vid})
     \<and> (\<forall>spec w w'. dr_Create d spec w = (None, w') \<longrightarrow> obs w' \<subseteq> insert (cs_ID spec) (obs w))
     \<and> (\<forall>p w. obs (snd (co_newID c p w)) = obs w)"

lemma pool_worldD:
  assumes "pool_world obs c d"
  shows "dr_List d Filter0 w = (Inr states, w') \<Longrightarrow> obs w' = dt_ID ` set (filter dt_Pool states)"
    "dr_Delete d vid w = (None, w') \<Longrightarrow> obs w' = obs w - {vid}"
    "dr_Delete d vid w = (Some e, w') \<Longrightarrow> errors_Is e DriverNotFound \<Longrightarrow> obs w' = obs w - {vid}"
    "dr_Create d spec w = (None, w') \<Longrightarrow> obs w' \<subseteq> insert (cs_ID spec) (obs w)"
    "obs (snd (co_newID c p w)) = obs w"
proof -
  note pw = assms [unfolded pool_world_def]
  note pw2 = conjunct2 [OF pw] and pw3 = conjunct2 [OF conjunct2 [OF pw]] and pw4 = conjunct2 [OF conjunct2 [OF conjunct2 [OF pw]]]
  show "dr_List d Filter0 w = (Inr states, w') \<Longrightarrow> obs w' = dt_ID ` set (filter dt_Pool states)"
    by (rule conjunct1 [OF pw, rule_format])
  show "dr_Delete d vid w = (None, w') \<Longrightarrow> obs w' = obs w - {vid}" by (rule conjunct1 [OF pw2, rule_format])
  show "dr_Delete d vid w = (Some e, w') \<Longrightarrow> errors_Is e DriverNotFound \<Longrightarrow> obs w' = obs w - {vid}"
    by (rule conjunct1 [OF pw3, rule_format])
  show "dr_Create d spec w = (None, w') \<Longrightarrow> obs w' \<subseteq> insert (cs_ID spec) (obs w)" by (rule conjunct1 [OF pw4, rule_format])
  show "obs (snd (co_newID c p w)) = obs w" by (rule conjunct2 [OF pw4, rule_format])
qed

lemma drop_each_config: "drop_each d entries acted failed c = (a, f, c') \<Longrightarrow> config c' = config c \<and> co_poolInFlight c' = co_poolInFlight c"
  by (induction d entries acted failed c rule: drop_each.induct) (auto split: prod.splits option.splits if_splits)

lemma drop_each_clean:
  assumes "pool_world obs c0 d" and "drop_each d entries acted failed c = (a, None, c')"
  shows "failed = None \<and> obs (co_world c') = obs (co_world c) - dt_ID ` set entries"
  using assms(2)
proof (induction entries arbitrary: acted failed c)
  case (Cons entry rest)
  obtain e w where del: "dr_Delete d (dt_ID entry) (co_world c) = (e, w)" by (cases "dr_Delete d (dt_ID entry) (co_world c)")
  show ?case
  proof (cases "e = None \<or> (\<exists>e'. e = Some e' \<and> errors_Is e' DriverNotFound)")
    case True
    then have "drop_each d rest (acted + 1) failed (c\<lparr>co_world := w\<rparr>) = (a, None, c')" using Cons.prems del by auto
    moreover have "obs w = obs (co_world c) - {dt_ID entry}"
      using True pool_worldD(2,3) [OF assms(1)] del by auto
    ultimately show ?thesis using Cons.IH by auto
  next
    case False
    then obtain e' where "drop_each d rest acted (errors_Join [failed, Some e']) (c\<lparr>co_world := w\<rparr>) = (a, None, c')"
      using Cons.prems del by (cases e) auto
    from Cons.IH [OF this] show ?thesis by (simp add: errors_Join_None)
  qed
qed simp

lemma take_surplus_sets: "set keep = set (fst (take_surplus n keep)) \<union> set (snd (take_surplus n keep))"
  by (induction n keep rule: take_surplus.induct) (simp_all add: case_prod_beta)

text \<open>What is left above the target is still coming up.\<close>

lemma take_surplus_left:
  "0 \<le> n \<Longrightarrow> int (length (fst (take_surplus n keep)))
     \<le> max (int (length keep) - n) (int (length (filter (\<lambda>s. dt_Phase s \<noteq> Running) keep)))"
proof (induction n keep rule: take_surplus.induct)
  case (2 n entry keep)
  show ?case
  proof (cases "n > 0 \<and> dt_Phase entry = Running")
    case True
    then show ?thesis using 2(1) by (simp add: case_prod_beta)
  next
    case False
    have "int (length (fst (take_surplus n keep))) \<le> max (int (length keep) - n) (int (length (filter (\<lambda>s. dt_Phase s \<noteq> Running) keep)))"
      using 2(2) [OF False 2(3)] .
    moreover have "fst (take_surplus n (entry # keep)) = entry # fst (take_surplus n keep)"
      using False by (auto simp: case_prod_beta)
    ultimately show ?thesis using False 2(3) by (cases "n = 0") auto
  qed
qed simp

lemma prewarm_config: "prewarm c environment pool = (e, c') \<Longrightarrow> config c' = config c"
  by (auto simp: prewarm_def Let_def split: sum.splits prod.splits)

lemma prewarm_adds_one:
  assumes "pool_world obs c d" and "driverFor c environment = Inr d" and "prewarm c environment pool = (None, c')"
  shows "\<exists>vid. obs (co_world c') \<subseteq> insert vid (obs (co_world c))"
proof -
  obtain vid w where new: "co_newID c SandboxIDPrefix (co_world c) = (vid, w)" by (cases "co_newID c SandboxIDPrefix (co_world c)")
  then obtain w' where create: "dr_Create d (prewarm_spec vid pool) w = (None, w')" "co_world c' = w'"
    using assms(2,3) by (auto simp: prewarm_def split: prod.splits)
  have "obs w = obs (co_world c)" using pool_worldD(5) [OF assms(1), of SandboxIDPrefix "co_world c"] new by simp
  then show ?thesis using pool_worldD(4) [OF assms(1) create(1)] create(2) by auto
qed

lemma pool_world_config: "config c' = config c \<Longrightarrow> pool_world obs c' d = pool_world obs c d"
  using config_fields(12) [of c' c] by (simp add: pool_world_def)

lemma prewarm_each_card:
  assumes "pool_world obs c d" and "driverFor c environment = Inr d" and "finite (obs (co_world c))"
    and "prewarm_each n environment pool acted failed c = (a, None, c')"
  shows "finite (obs (co_world c')) \<and> card (obs (co_world c')) \<le> card (obs (co_world c)) + n"
  using assms
proof (induction n environment pool acted failed c rule: prewarm_each.induct)
  case (2 n environment pool acted failed c)
  obtain c1 where pre: "prewarm c environment pool = (None, c1)"
    using 2(5) by (auto simp: errors_Join_None split: prod.splits option.splits)
  obtain vid where add: "obs (co_world c1) \<subseteq> insert vid (obs (co_world c))" using prewarm_adds_one [OF 2(2,3) pre] by blast
  have cfg: "config c1 = config c" by (rule prewarm_config [OF pre])
  have fin: "finite (obs (co_world c1))" using add 2(4) by (auto intro: finite_subset)
  have one: "card (obs (co_world c1)) \<le> card (obs (co_world c)) + 1"
    using card_mono [OF _ add] card_insert_le_m1 2(4) by (metis Suc_eq_plus1 card_insert_if finite.insertI le_SucI le_trans order_refl)
  have "prewarm_each n environment pool (acted + 1) failed c1 = (a, None, c')" using 2(5) pre by simp
  then have "finite (obs (co_world c')) \<and> card (obs (co_world c')) \<le> card (obs (co_world c1)) + n"
    using 2(1) [OF pre [symmetric] refl] 2(2,3) fin pool_world_config [OF cfg] config_lookups(2) [OF cfg] by metis
  then show ?case using one by simp
qed simp

lemma prewarm_each_clean: "prewarm_each n environment pool acted failed c = (a, None, c') \<Longrightarrow> failed = None"
  by (induction n arbitrary: acted c) (auto simp: errors_Join_None split: prod.splits option.splits)

lemma sortPool_split:
  assumes "sortPool c pool entries now = (keep, gone)"
  shows "set keep \<union> set gone = set entries"
    and "length (filter (\<lambda>s. dt_Phase s \<noteq> Running) keep) \<le> length (filter (\<lambda>s. dt_Phase s \<noteq> Running) entries)"
proof -
  let ?wanted = "\<lambda>entry. time_Sub now (dt_CreatedAt entry) < co_poolGrace c
    \<or> poolDropReason entry (poolShape pool) now (co_poolGrace c) = []"
  have keep: "keep = sort_func (\<lambda>a b. go_compare (dt_CreatedAt a) (dt_CreatedAt b)) (filter ?wanted entries)"
    and gone: "gone = filter (\<lambda>e. \<not> ?wanted e) entries"
    using assms by (auto simp: sortPool_def Let_def)
  show "set keep \<union> set gone = set entries" unfolding keep gone by auto
  have "size (filter_mset (\<lambda>s. dt_Phase s \<noteq> Running) (mset keep)) \<le> size (filter_mset (\<lambda>s. dt_Phase s \<noteq> Running) (mset entries))"
    unfolding keep mset_sort_func mset_filter by (intro size_mset_mono multiset_filter_mono multiset_filter_subset)
  then show "length (filter (\<lambda>s. dt_Phase s \<noteq> Running) keep) \<le> length (filter (\<lambda>s. dt_Phase s \<noteq> Running) entries)"
    by (simp flip: size_mset mset_filter)
qed

lemma takeSurplus_split:
  assumes "takeSurplus keep gone target = (keep', gone')"
  shows "set keep' \<union> set gone' = set keep \<union> set gone"
    and "int (length keep') \<le> max target (int (length (filter (\<lambda>s. dt_Phase s \<noteq> Running) keep)))"
proof -
  show "set keep' \<union> set gone' = set keep \<union> set gone"
    using assms take_surplus_sets [of keep "int (length keep) - target"]
    by (auto simp: takeSurplus_def Let_def case_prod_beta split: if_splits)
  show "int (length keep') \<le> max target (int (length (filter (\<lambda>s. dt_Phase s \<noteq> Running) keep)))"
    using assms take_surplus_left [of "int (length keep) - target" keep]
    by (auto simp: takeSurplus_def Let_def case_prod_beta split: if_splits)
qed


text \<open>A world that is the list of a pool's entries, and a driver that lists, makes and deletes them.\<close>

definition entry_of_pool :: "string \<Rightarrow> State" where
  "entry_of_pool vid = (sample_state vid Running)\<lparr>dt_Pool := True\<rparr>"

definition pool_driver :: "string list Driver" where
  "pool_driver = sample_driver\<lparr>dr_Capabilities := sample_capabilities\<lparr>cp_Pool := True\<rparr>,
     dr_List := (\<lambda>_ w. (Inr (map entry_of_pool w), w)),
     dr_Delete := (\<lambda>vid w. (None, removeAll vid w)), dr_Create := (\<lambda>spec w. (None, w @ [cs_ID spec]))\<rparr>"

definition pool_controller :: "string list Controller" where
  "pool_controller = (sample_over [''sbx_a'', ''sbx_b'', ''sbx_c''] Capacity0 [])\<lparr>co_drivers := [(''desk'', pool_driver)],
     co_environments := [], co_pool := PoolSpec0\<lparr>pl_Size := 2\<rparr>\<rparr>"

lemma entry_of_pool_simps [simp]: "dt_Pool (entry_of_pool vid)" "dt_ID (entry_of_pool vid) = vid"
  by (simp_all add: entry_of_pool_def sample_state_def)

lemma listed_entries: "dt_ID ` {s \<in> entry_of_pool ` set w. dt_Pool s} = set w"
  by force

lemma pool_controller_world: "pool_world set pool_controller pool_driver"
  by (auto simp: pool_world_def pool_controller_def pool_driver_def sample_over_def listed_entries)


section \<open>What an adoption loses\<close>

text \<open>Every entry passes the check of a prewarm, and none has a display: the shape counts the display of the pool,
  so a manifest that asks for one is matched to an entry made without it.\<close>

theorem prewarm_has_no_display: "CheckPrewarm (prewarm_spec vid pool) = None \<and> cs_Display (prewarm_spec vid pool) = None"
  by (simp add: CheckPrewarm_def prewarm_spec_def CreateSpec0_def DriverEgress_IsZero_def DriverEgress0_def)

definition display_pool :: PoolSpec where
  "display_pool = PoolSpec0\<lparr>pl_Size := 1, pl_Display := Some \<lparr>dp_Width = 1280, dp_Height = 720\<rparr>\<rparr>"

definition display_sandbox :: Sandbox where
  "display_sandbox = (sample_sandbox ''sbx_1'' Pending)
     \<lparr>sb_Spec := (sb_Spec (sample_sandbox ''sbx_1'' Pending))\<lparr>sp_Display := Some \<lparr>dp_Width = 1280, dp_Height = 720\<rparr>\<rparr>\<rparr>"

definition entry_made_by :: "CreateSpec \<Rightarrow> State" where
  "entry_made_by spec = (sample_state (cs_ID spec) Running)\<lparr>dt_Pool := True, dt_Labels := cs_Labels spec\<rparr>"

theorem display_adopts_entry_without_one:
  "matchEntry display_pool [entry_made_by (prewarm_spec ''sbx_p'' display_pool)] display_sandbox
     = Some (entry_made_by (prewarm_spec ''sbx_p'' display_pool))
   \<and> sp_Display (sb_Spec display_sandbox) \<noteq> None \<and> cs_Display (prewarm_spec ''sbx_p'' display_pool) = None"
  by (simp add: matchEntry_def matchesPool_def display_pool_def display_sandbox_def entry_made_by_def prewarm_spec_def
      CreateSpec0_def sample_sandbox_def sample_state_def SandboxSpec0_def PoolSpec0_def sameDisplay_def samePath_def label_of_def)

text \<open>A workspace bound to the folder that is also the default path is matched, and the adoption names no host
  folder.\<close>

definition host_sandbox :: Sandbox where
  "host_sandbox = (sample_sandbox ''sbx_1'' Pending)
     \<lparr>sb_Spec := (sb_Spec (sample_sandbox ''sbx_1'' Pending))
        \<lparr>sp_Workspace := \<lparr>ws_Path = DefaultWorkdir, ws_Source = [], ws_Host = DefaultWorkdir\<rparr>\<rparr>\<rparr>"

theorem host_workspace_adopts_unbound_entry:
  "matchesPool PoolSpec0 host_sandbox \<and> ws_Host (sp_Workspace (sb_Spec host_sandbox)) \<noteq> []
   \<and> dw_Host (ad_Workspace (adoptionOf host_sandbox lifecycle egress secrets tok)) = []"
  by (simp add: matchesPool_def host_sandbox_def sample_sandbox_def SandboxSpec0_def PoolSpec0_def sameDisplay_def samePath_def
      adoptionOf_def DefaultWorkdir_def)

end
