(* ===== verification/Spec2Isabelle.thy ===== *)
theory Spec2Isabelle
  imports Autosize_Policy Resolve_Facts File_Store Scheduler_Pass Egress_Gateway Tokens_Control Volumes_System
    Delete_Facts Secrets_Control Pool
begin

text \<open>
  A verification library for the control plane of cella.
\<close>

end
